(* ===== verification/Prelude.thy ===== *)
theory Prelude
  imports
    Main
    "HOL-Library.Word"
    "HOL-Library.Char_ord"
    "HOL-Library.List_Lexorder"
    "HOL-Library.Multiset"
begin

text \<open>
  The shared vocabulary of the development.

  \<^item> Machine integers: \<open>u8\<close> to \<open>u64\<close> are words of that width. \<open>+\<close>, \<open>-\<close> and \<open>*\<close>
    wrap around, which is what the shipped binary does: the release profile of
    \<^verbatim>\<open>Cargo.toml\<close> does not switch overflow checks on. The saturating operations of the
    standard library are defined here.
  \<^item> Results: \<open>('a, 'e) res\<close> is a Rust \<open>Result\<close> with a third case for a panic, because the
    release profile aborts the process on a panic and a caller cannot recover from it.
  \<^item> Keyed containers: a sled tree is iterated in key order, so it is a list of entries in
    strictly increasing key order. Hash maps use the same container; no definition that
    models a hash map relies on which order its entries are visited in, unless its comment
    says so.
  \<^item> Floating point numbers are kept as their IEEE-754 bit pattern. Their
    comparisons are defined here, exactly and on the bits; the rounding arithmetic is in
    \<open>Float64\<close> and \<open>FloatArith\<close>.
\<close>

named_theorems tree_simps \<open>lookup, size and membership after a container operation\<close>
named_theorems u64_simps \<open>reading wrapped and saturated machine arithmetic as natural numbers\<close>
named_theorems res_simps \<open>unfolding of the result type's combinators\<close>

section \<open>Machine integers\<close>

type_synonym u8 = "8 word"
type_synonym u16 = "16 word"
type_synonym u32 = "32 word"
type_synonym u64 = "64 word"
type_synonym bytes = string
  \<comment> \<open>a byte sequence; a Rust \<open>String\<close> is its UTF-8 bytes\<close>

definition saturating_sub :: "'a::len word \<Rightarrow> 'a word \<Rightarrow> 'a word" where
  "saturating_sub a b = (if b \<le> a then a - b else 0)"

definition saturating_add :: "'a::len word \<Rightarrow> 'a word \<Rightarrow> 'a word" where
  "saturating_add a b = (if unat a + unat b < 2 ^ LENGTH('a) then a + b else - 1)"

definition saturating_mul :: "'a::len word \<Rightarrow> 'a word \<Rightarrow> 'a word" where
  "saturating_mul a b = (if unat a * unat b < 2 ^ LENGTH('a) then a * b else - 1)"

lemma unat_saturating_sub [u64_simps]: "unat (saturating_sub a b) = unat a - unat b"
  by (auto simp: saturating_sub_def unat_sub word_le_nat_alt)

lemma unat_max: "unat (- 1 :: 'a::len word) = 2 ^ LENGTH('a) - 1"
  by (simp add: unsigned_minus_1_eq_mask mask_eq_exp_minus_1)

lemma unat_saturating_add [u64_simps]:
  "unat (saturating_add (a :: 'a::len word) b) = min (unat a + unat b) (2 ^ LENGTH('a) - 1)"
proof (cases "unat a + unat b < 2 ^ LENGTH('a)")
  case True
  then show ?thesis
    by (simp add: saturating_add_def unat_word_ariths)
next
  case False
  then show ?thesis
    using unsigned_less [of a] by (simp add: saturating_add_def unat_max)
qed

lemma unat_saturating_mul [u64_simps]:
  "unat (saturating_mul (a :: 'a::len word) b) = min (unat a * unat b) (2 ^ LENGTH('a) - 1)"
proof (cases "unat a * unat b < 2 ^ LENGTH('a)")
  case True
  then show ?thesis
    by (simp add: saturating_mul_def unat_word_ariths)
next
  case False
  then show ?thesis
    by (simp add: saturating_mul_def unat_max)
qed

text \<open>Addition and subtraction that stay inside the word read as the same operation on \<open>nat\<close>.\<close>

lemma unat_add_no_wrap [u64_simps]:
  "unat a + unat b < 2 ^ LENGTH('a) \<Longrightarrow> unat (a + b :: 'a::len word) = unat a + unat b"
  by (simp add: unat_word_ariths)

lemma unat_sub_no_wrap [u64_simps]:
  "unat b \<le> unat a \<Longrightarrow> unat (a - b :: 'a::len word) = unat a - unat b"
  by (simp add: unat_sub word_le_nat_alt)

lemma unat_u64_bound: "unat (w :: u64) < 2 ^ 64"
  using unsigned_less [of w] by simp

lemma unat_of_nat_u64 [u64_simps]: "n < 2 ^ 64 \<Longrightarrow> unat (of_nat n :: u64) = n"
  by (simp add: unat_of_nat take_bit_nat_eq_self)

lemma of_nat_u64_eq_iff: "n < 2 ^ 64 \<Longrightarrow> (of_nat n :: u64) = w \<longleftrightarrow> n = unat w"
  by (auto simp: unat_of_nat_u64 word_eq_iff_unsigned)

section \<open>Results, errors and panics\<close>

datatype ('a, 'e) res = Ok 'a | Err 'e | Panic

primrec res_bind :: "('a, 'e) res \<Rightarrow> ('a \<Rightarrow> ('b, 'e) res) \<Rightarrow> ('b, 'e) res" where
  "res_bind (Ok a) f = f a"
| "res_bind (Err e) f = Err e"
| "res_bind Panic f = Panic"

primrec is_ok :: "('a, 'e) res \<Rightarrow> bool" where
  "is_ok (Ok a) = True"
| "is_ok (Err e) = False"
| "is_ok Panic = False"

lemma is_ok_iff: "is_ok r \<longleftrightarrow> (\<exists>a. r = Ok a)"
  by (cases r) auto

lemma res_bind_eq_Ok [res_simps]: "res_bind r f = Ok b \<longleftrightarrow> (\<exists>a. r = Ok a \<and> f a = Ok b)"
  by (cases r) auto

primrec res_map_err :: "('e \<Rightarrow> 'f) \<Rightarrow> ('a, 'e) res \<Rightarrow> ('a, 'f) res" where
  "res_map_err g (Ok a) = Ok a"
| "res_map_err g (Err e) = Err (g e)"
| "res_map_err g Panic = Panic"

lemma res_map_err_eq_Ok [res_simps]: "res_map_err g r = Ok a \<longleftrightarrow> r = Ok a"
  by (cases r) auto

text \<open>A loop over a slice whose body may fail stops at the first failure.\<close>

fun res_fold :: "('x \<Rightarrow> 's \<Rightarrow> ('s, 'e) res) \<Rightarrow> 'x list \<Rightarrow> 's \<Rightarrow> ('s, 'e) res" where
  "res_fold f [] s = Ok s"
| "res_fold f (x # xs) s = res_bind (f x s) (res_fold f xs)"

lemma res_fold_append [res_simps]:
  "res_fold f (xs @ ys) s = res_bind (res_fold f xs s) (res_fold f ys)"
proof (induction xs arbitrary: s)
  case (Cons x xs)
  then show ?case by (cases "f x s") simp_all
qed simp

lemma res_fold_invariant:
  assumes step: "\<And>x s s'. x \<in> set xs \<Longrightarrow> I s \<Longrightarrow> f x s = Ok s' \<Longrightarrow> I s'"
    and start: "I s" and run: "res_fold f xs s = Ok s'"
  shows "I s'"
  using assms
proof (induction xs arbitrary: s)
  case (Cons x xs)
  from Cons.prems(3) obtain t where t: "f x s = Ok t" "res_fold f xs t = Ok s'"
    by (auto simp: res_simps)
  have "I t" using Cons.prems(1) [OF _ Cons.prems(2) t(1)] by simp
  then show ?case using Cons.IH [OF _ _ t(2)] Cons.prems(1) by (meson list.set_intros(2))
qed simp

lemma option_eqI: "(\<And>x. a = Some x \<longleftrightarrow> b = Some x) \<Longrightarrow> a = b"
  by (cases a; cases b) auto

lemma find_in_set: "find P xs = Some x \<Longrightarrow> x \<in> set xs \<and> P x"
  by (induction xs) (auto split: if_splits)

section \<open>Iterator idioms\<close>

text \<open>\<open>iter_mut().find(..)\<close> followed by an update of the element found.\<close>

fun update_first :: "('a \<Rightarrow> bool) \<Rightarrow> ('a \<Rightarrow> 'a) \<Rightarrow> 'a list \<Rightarrow> 'a list" where
  "update_first P f [] = []"
| "update_first P f (x # xs) = (if P x then f x # xs else x # update_first P f xs)"

lemma length_update_first [simp]: "length (update_first P f xs) = length xs"
  by (induction xs) auto

lemma map_update_first: "(\<And>x. P x \<Longrightarrow> g (f x) = g x) \<Longrightarrow> map g (update_first P f xs) = map g xs"
  by (induction xs) auto

lemma set_update_first: "set (update_first P f xs) \<subseteq> set xs \<union> f ` {x \<in> set xs. P x}"
  by (induction xs) auto

lemma update_first_hit: "\<exists>x \<in> set xs. P x \<Longrightarrow> \<exists>x \<in> set xs. P x \<and> f x \<in> set (update_first P f xs)"
  by (induction xs) auto

text \<open>\<open>Iterator::min_by_key\<close>: the first element with the least key.\<close>

fun min_by_key :: "('a \<Rightarrow> 'b::linorder) \<Rightarrow> 'a list \<Rightarrow> 'a option" where
  "min_by_key k [] = None"
| "min_by_key k (x # xs) = (case min_by_key k xs of None \<Rightarrow> Some x | Some y \<Rightarrow> if k x \<le> k y then Some x else Some y)"

lemma min_by_key_None [simp]: "min_by_key k xs = None \<longleftrightarrow> xs = []"
  by (cases xs) (auto split: option.splits)

lemma min_by_key_Some: "min_by_key k xs = Some x \<Longrightarrow> x \<in> set xs \<and> (\<forall>y \<in> set xs. k x \<le> k y)"
  by (induction xs arbitrary: x) (fastforce split: option.splits if_splits)+

section \<open>Keyed containers\<close>

type_synonym ('k, 'v) tree = "('k \<times> 'v) list"

fun tree_insert :: "'k::linorder \<Rightarrow> 'v \<Rightarrow> ('k, 'v) tree \<Rightarrow> ('k, 'v) tree" where
  "tree_insert k v [] = [(k, v)]"
| "tree_insert k v ((k', v') # t) =
     (if k < k' then (k, v) # (k', v') # t
      else if k = k' then (k, v) # t
      else (k', v') # tree_insert k v t)"

definition tree_get :: "('k, 'v) tree \<Rightarrow> 'k \<Rightarrow> 'v option" where
  "tree_get t k = map_of t k"

definition tree_remove :: "'k \<Rightarrow> ('k, 'v) tree \<Rightarrow> ('k, 'v) tree" where
  "tree_remove k t = filter (\<lambda>e. fst e \<noteq> k) t"

definition tree_keys :: "('k, 'v) tree \<Rightarrow> 'k set" where
  "tree_keys t = fst ` set t"

definition tree_values :: "('k, 'v) tree \<Rightarrow> 'v list" where
  "tree_values t = map snd t"

definition tree_wf :: "('k::linorder, 'v) tree \<Rightarrow> bool" where
  "tree_wf t = sorted_wrt (<) (map fst t)"

lemma tree_get_Nil [tree_simps]: "tree_get [] k = None"
  by (simp add: tree_get_def)

lemma tree_get_Cons [tree_simps]:
  "tree_get ((k', v) # t) k = (if k = k' then Some v else tree_get t k)"
  by (simp add: tree_get_def)

lemma tree_get_insert [tree_simps]:
  "tree_get (tree_insert k v t) k' = (if k' = k then Some v else tree_get t k')"
  by (induction k v t rule: tree_insert.induct) (auto simp: tree_get_def)

lemma tree_get_remove [tree_simps]:
  "tree_get (tree_remove k t) k' = (if k' = k then None else tree_get t k')"
  by (induction t) (auto simp: tree_get_def tree_remove_def)

lemma tree_get_None_iff: "tree_get t k = None \<longleftrightarrow> k \<notin> tree_keys t"
  by (simp add: tree_get_def tree_keys_def map_of_eq_None_iff)

lemma tree_get_SomeD: "tree_get t k = Some v \<Longrightarrow> (k, v) \<in> set t"
  by (simp add: tree_get_def map_of_SomeD)

lemma tree_keys_insert [tree_simps]: "tree_keys (tree_insert k v t) = insert k (tree_keys t)"
  by (induction k v t rule: tree_insert.induct) (auto simp: tree_keys_def)

lemma tree_keys_remove [tree_simps]: "tree_keys (tree_remove k t) = tree_keys t - {k}"
  by (auto simp: tree_keys_def tree_remove_def)

lemma finite_tree_keys [simp]: "finite (tree_keys t)"
  by (simp add: tree_keys_def)

lemma tree_wf_Nil [simp]: "tree_wf []"
  by (simp add: tree_wf_def)

lemma tree_wf_Cons: "tree_wf ((k, v) # t) \<longleftrightarrow> (\<forall>k' \<in> tree_keys t. k < k') \<and> tree_wf t"
  by (auto simp: tree_wf_def tree_keys_def)

lemma tree_wf_insert [intro]: "tree_wf t \<Longrightarrow> tree_wf (tree_insert k v t)"
  by (induction k v t rule: tree_insert.induct)
    (auto simp: tree_wf_Cons tree_simps, auto simp: tree_keys_def)

lemma tree_wf_filter [intro]: "tree_wf t \<Longrightarrow> tree_wf (filter P t)"
  by (auto simp: tree_wf_def sorted_wrt_map intro: sorted_wrt_filter)

lemma tree_wf_remove [intro]: "tree_wf t \<Longrightarrow> tree_wf (tree_remove k t)"
  unfolding tree_remove_def by (rule tree_wf_filter)

lemma tree_wf_distinct: "tree_wf t \<Longrightarrow> distinct (map fst t)"
  unfolding tree_wf_def by (simp add: strict_sorted_iff)

lemma tree_get_Some_iff: "tree_wf t \<Longrightarrow> tree_get t k = Some v \<longleftrightarrow> (k, v) \<in> set t"
  by (simp add: tree_get_def tree_wf_distinct map_of_eq_Some_iff)

lemma length_tree: "tree_wf t \<Longrightarrow> length t = card (tree_keys t)"
  using distinct_card [OF tree_wf_distinct, of t] by (simp add: tree_keys_def)

lemma length_tree_insert [tree_simps]:
  "tree_wf t \<Longrightarrow> length (tree_insert k v t) = (if k \<in> tree_keys t then length t else Suc (length t))"
  by (simp add: length_tree tree_wf_insert tree_keys_insert card_insert_if)

lemma length_tree_insert_le: "length (tree_insert k v t) \<le> Suc (length t)"
  by (induction k v t rule: tree_insert.induct) auto

lemma set_tree_insert_subset: "set (tree_insert k v t) \<subseteq> insert (k, v) (set t)"
  by (induction k v t rule: tree_insert.induct) auto

lemma tree_insert_id: "tree_wf t \<Longrightarrow> tree_get t k = Some v \<Longrightarrow> tree_insert k v t = t"
  by (induction k v t rule: tree_insert.induct)
    (force simp: tree_wf_Cons tree_get_def tree_keys_def dest: map_of_SomeD)+

lemma tree_eqI:
  assumes "tree_wf s" "tree_wf t" "\<And>k. tree_get s k = tree_get t k"
  shows "s = t"
proof -
  have "set s = set t"
    using assms by (auto simp: set_eq_iff simp flip: tree_get_Some_iff)
  moreover have "sorted (map fst s)" "sorted (map fst t)" "distinct (map fst s)" "distinct (map fst t)"
    using assms(1,2) by (simp_all add: tree_wf_def strict_sorted_iff)
  ultimately show ?thesis
    using map_sorted_distinct_set_unique [of fst s t] by (simp add: distinct_map)
qed

lemma tree_get_filter:
  assumes "tree_wf t"
  shows "tree_get (filter P t) k = (case tree_get t k of None \<Rightarrow> None | Some v \<Rightarrow> if P (k, v) then Some v else None)"
proof -
  have *: "tree_get (filter P t) k = Some v \<longleftrightarrow> tree_get t k = Some v \<and> P (k, v)" for v
    using assms by (auto simp: tree_get_Some_iff tree_wf_filter)
  have **: "tree_get (filter P t) k = None" if "\<forall>v. \<not> (tree_get t k = Some v \<and> P (k, v))"
    using that * by (metis option.exhaust)
  show ?thesis
  proof (cases "tree_get t k")
    case (Some v)
    with * [of v] ** show ?thesis by simp
  qed (simp add: **)
qed

section \<open>The interface of a keyed container\<close>

text \<open>
  What the clients of a container (the chain store's trees, the mempool, the registries) rely
  on: what a lookup returns after an insertion and after a removal. The consequences for whole
  loops of insertions and removals are proved once, here.
\<close>

locale kv_container =
  fixes get :: "'t \<Rightarrow> 'k \<Rightarrow> 'v option"
    and ins :: "'k \<Rightarrow> 'v \<Rightarrow> 't \<Rightarrow> 't"
    and rem :: "'k \<Rightarrow> 't \<Rightarrow> 't"
  assumes get_ins: "get (ins k v t) k' = (if k' = k then Some v else get t k')"
    and get_rem: "get (rem k t) k' = (if k' = k then None else get t k')"
begin

lemma get_fold_rem: "get (fold rem ks t) k = (if k \<in> set ks then None else get t k)"
  by (induction ks arbitrary: t) (auto simp: get_rem)

lemma get_fold_ins:
  "get (fold (\<lambda>x. ins (key x) (val x)) xs t) k =
     (case map_of (rev (map (\<lambda>x. (key x, val x)) xs)) k of Some v \<Rightarrow> Some v | None \<Rightarrow> get t k)"
proof (induction xs arbitrary: t)
  case (Cons x xs)
  then show ?case
    by (cases "map_of (rev (map (\<lambda>x. (key x, val x)) xs)) k") (auto simp: get_ins map_add_def)
qed simp

lemma get_fold_ins_distinct:
  assumes "distinct (map key xs)" "x \<in> set xs"
  shows "get (fold (\<lambda>x. ins (key x) (val x)) xs t) (key x) = Some (val x)"
  using assms
proof (induction xs arbitrary: t)
  case (Cons y xs)
  show ?case
  proof (cases "x = y")
    case True
    have "get (fold (\<lambda>x. ins (key x) (val x)) xs u) (key y) = get u (key y)" for u
      using Cons.prems(1) by (induction xs arbitrary: u) (auto simp: get_ins)
    with True show ?thesis by (simp add: get_ins)
  qed (use Cons in auto)
qed simp

lemma get_fold_ins_other:
  "k \<notin> key ` set xs \<Longrightarrow> get (fold (\<lambda>x. ins (key x) (val x)) xs t) k = get t k"
  by (induction xs arbitrary: t) (auto simp: get_ins)

end

interpretation tree: kv_container tree_get tree_insert tree_remove
  by unfold_locales (simp_all add: tree_simps)

section \<open>Iteration order and selection\<close>

text \<open>What is known of the order in which a hash map yields its entries: it yields each of them once.\<close>

definition iteration_order :: "('a list \<Rightarrow> 'a list) \<Rightarrow> bool" where
  "iteration_order order \<longleftrightarrow> (\<forall>xs. mset (order xs) = mset xs)"

lemma iteration_order_set: "iteration_order order \<Longrightarrow> set (order xs) = set xs"
  by (intro mset_eq_setD) (simp add: iteration_order_def)

lemma iteration_order_id [simp]: "iteration_order (\<lambda>xs. xs)"
  by (simp add: iteration_order_def)

text \<open>Taking a prefix of a sorted list leaves out nothing smaller than what it takes.\<close>

lemma take_sort_key_least:
  assumes "x \<in> set xs" "x \<notin> set (take n (sort_key f xs))" "y \<in> set (take n (sort_key f xs))"
  shows "f y \<le> f x"
proof -
  let ?s = "sort_key f xs"
  have "sorted_wrt (\<lambda>a b. f a \<le> f b) (take n ?s @ drop n ?s)"
    using sorted_sort_key [of f xs] by (simp add: sorted_wrt_map)
  moreover have "x \<in> set (drop n ?s)"
    using assms(1,2) by (metis UnE append_take_drop_id set_append set_sort)
  ultimately show ?thesis using assms(3) unfolding sorted_wrt_append by blast
qed

section \<open>Comparing IEEE-754 doubles by their bits\<close>

type_synonym f64 = "64 word"

definition f64_is_nan :: "f64 \<Rightarrow> bool" where
  "f64_is_nan b = (0x7FF0000000000000 < (take_bit 63 b :: 64 word))"

definition f64_is_finite :: "f64 \<Rightarrow> bool" where
  "f64_is_finite b = ((take_bit 63 b :: 64 word) < 0x7FF0000000000000)"

definition f64_key :: "f64 \<Rightarrow> int" where
  "f64_key b = (if bit b 63 then - uint (take_bit 63 b :: 64 word) else uint (take_bit 63 b :: 64 word))"

definition f64_ge :: "f64 \<Rightarrow> f64 \<Rightarrow> bool" where
  "f64_ge a b = (\<not> f64_is_nan a \<and> \<not> f64_is_nan b \<and> f64_key b \<le> f64_key a)"

definition f64_lt :: "f64 \<Rightarrow> f64 \<Rightarrow> bool" where
  "f64_lt a b = (\<not> f64_is_nan a \<and> \<not> f64_is_nan b \<and> f64_key a < f64_key b)"

lemma f64_ge_trans: "f64_ge a b \<Longrightarrow> f64_ge b c \<Longrightarrow> f64_ge a c"
  by (auto simp: f64_ge_def)

lemma f64_ge_or_lt: "\<not> f64_is_nan a \<Longrightarrow> \<not> f64_is_nan b \<Longrightarrow> f64_ge a b \<longleftrightarrow> \<not> f64_lt a b"
  by (auto simp: f64_ge_def f64_lt_def)

end
