(* ===== verification/RustStr.thy ===== *)
theory RustStr
  imports Prelude
begin

text \<open>
  The string operations of Rust's standard library that the code uses, on the UTF-8 bytes of a
  string: decimal formatting, ASCII case folding, trimming of Unicode white space, searching,
  replacing, splitting, and slicing (which panics off a character boundary).
\<close>

section \<open>Decimal formatting\<close>

definition digit_char :: "nat \<Rightarrow> char" where
  "digit_char d = char_of (48 + d)"

text \<open>\<open>format!("{n}")\<close> of an unsigned integer.\<close>

fun dec :: "nat \<Rightarrow> string" where
  "dec n = (if n < 10 then [digit_char n] else dec (n div 10) @ [digit_char (n mod 10)])"

declare dec.simps [simp del]

lemma digit_char_inj: "digit_char a = digit_char b \<Longrightarrow> a < 10 \<Longrightarrow> b < 10 \<Longrightarrow> a = b"
  unfolding digit_char_def
  by (drule arg_cong [where f = "of_char :: char \<Rightarrow> nat"]) simp

lemma dec_neq_Nil: "dec n \<noteq> []"
  by (subst dec.simps) simp

lemma dec_length_1_iff: "length (dec n) = 1 \<longleftrightarrow> n < 10"
  by (subst dec.simps) (auto simp: dec_neq_Nil)

lemma dec_inj: "dec m = dec n \<Longrightarrow> m = n"
proof (induction m arbitrary: n rule: dec.induct)
  case (1 m)
  show ?case
  proof (cases "m < 10")
    case True
    then have "n < 10" using dec_length_1_iff [of m] dec_length_1_iff [of n] "1.prems" by simp
    with True "1.prems" show ?thesis
      by (simp add: dec.simps [of m] dec.simps [of n] digit_char_inj)
  next
    case False
    then have n: "\<not> n < 10" using dec_length_1_iff [of m] dec_length_1_iff [of n] "1.prems" by simp
    from "1.prems" False n have "dec (m div 10) = dec (n div 10)"
      and "digit_char (m mod 10) = digit_char (n mod 10)"
      by (simp_all add: dec.simps [of m] dec.simps [of n])
    then have "m div 10 = n div 10" "m mod 10 = n mod 10"
      using "1.IH" [OF False] digit_char_inj by simp_all
    then show ?thesis by (metis div_mult_mod_eq)
  qed
qed

abbreviation dec64 :: "u64 \<Rightarrow> string" where
  "dec64 w \<equiv> dec (unat w)"

section \<open>Searching and replacing\<close>

definition starts_with :: "string \<Rightarrow> string \<Rightarrow> bool" where
  "starts_with s p = (take (length p) s = p)"

definition ends_with :: "string \<Rightarrow> string \<Rightarrow> bool" where
  "ends_with s p = (length p \<le> length s \<and> drop (length s - length p) s = p)"

fun str_contains :: "string \<Rightarrow> string \<Rightarrow> bool" where
  "str_contains [] p = (p = [])"
| "str_contains (c # s) p = (starts_with (c # s) p \<or> str_contains s p)"

text \<open>\<open>str::replace\<close> with a non-empty pattern: matches are found from the left and do not overlap.\<close>

function str_replace :: "string \<Rightarrow> string \<Rightarrow> string \<Rightarrow> string" where
  "str_replace pat rep s =
     (if s = [] \<or> pat = [] then s
      else if starts_with s pat then rep @ str_replace pat rep (drop (length pat) s)
      else hd s # str_replace pat rep (tl s))"
  by pat_completeness auto
termination
  by (relation "measure (\<lambda>(pat, rep, s). length s)") auto

declare str_replace.simps [simp del]

lemma starts_with_append [simp]: "starts_with (p @ s) p"
  by (simp add: starts_with_def)

lemma starts_with_Nil [simp]: "starts_with s []"
  by (simp add: starts_with_def)

lemma starts_with_iff: "starts_with s p \<longleftrightarrow> (\<exists>t. s = p @ t)"
  by (metis append_eq_conv_conj append_take_drop_id starts_with_def)

lemma ends_with_iff: "ends_with s p \<longleftrightarrow> (\<exists>t. s = t @ p)"
  unfolding ends_with_def
  by (metis append_eq_conv_conj append_take_drop_id diff_diff_cancel length_append length_drop
      le_add2 add_diff_cancel_right')

lemma str_contains_iff: "str_contains s p \<longleftrightarrow> (\<exists>u v. s = u @ p @ v)"
proof (induction s)
  case (Cons c s)
  show ?case
  proof
    assume "str_contains (c # s) p"
    then show "\<exists>u v. c # s = u @ p @ v"
      using Cons by (auto simp: starts_with_iff) (metis append_Cons append_Nil)+
  next
    assume "\<exists>u v. c # s = u @ p @ v"
    then show "str_contains (c # s) p"
      using Cons by (auto simp: starts_with_iff Cons_eq_append_conv)
  qed
qed simp

section \<open>ASCII case and white space\<close>

definition ascii_lower :: "char \<Rightarrow> char" where
  "ascii_lower c = (if 65 \<le> (of_char c :: nat) \<and> (of_char c :: nat) \<le> 90 then char_of ((of_char c :: nat) + 32) else c)"

definition to_ascii_lowercase :: "string \<Rightarrow> string" where
  "to_ascii_lowercase s = map ascii_lower s"

definition eq_ignore_ascii_case :: "string \<Rightarrow> string \<Rightarrow> bool" where
  "eq_ignore_ascii_case a b = (to_ascii_lowercase a = to_ascii_lowercase b)"

lemma ascii_lower_idem [simp]: "ascii_lower (ascii_lower c) = ascii_lower c"
  by (auto simp: ascii_lower_def)

lemma to_ascii_lowercase_idem [simp]: "to_ascii_lowercase (to_ascii_lowercase s) = to_ascii_lowercase s"
  by (simp add: to_ascii_lowercase_def)

lemma length_to_ascii_lowercase [simp]: "length (to_ascii_lowercase s) = length s"
  by (simp add: to_ascii_lowercase_def)

text \<open>The UTF-8 encodings of the code points that \<open>char::is_whitespace\<close> accepts.\<close>

definition white_space :: "string list" where
  "white_space =
     [[CHR 0x09], [CHR 0x0A], [CHR 0x0B], [CHR 0x0C], [CHR 0x0D], [CHR 0x20],
      [CHR 0xC2, CHR 0x85], [CHR 0xC2, CHR 0xA0], [CHR 0xE1, CHR 0x9A, CHR 0x80],
      [CHR 0xE2, CHR 0x80, CHR 0x80], [CHR 0xE2, CHR 0x80, CHR 0x81],
      [CHR 0xE2, CHR 0x80, CHR 0x82], [CHR 0xE2, CHR 0x80, CHR 0x83],
      [CHR 0xE2, CHR 0x80, CHR 0x84], [CHR 0xE2, CHR 0x80, CHR 0x85],
      [CHR 0xE2, CHR 0x80, CHR 0x86], [CHR 0xE2, CHR 0x80, CHR 0x87],
      [CHR 0xE2, CHR 0x80, CHR 0x88], [CHR 0xE2, CHR 0x80, CHR 0x89],
      [CHR 0xE2, CHR 0x80, CHR 0x8A], [CHR 0xE2, CHR 0x80, CHR 0xA8],
      [CHR 0xE2, CHR 0x80, CHR 0xA9], [CHR 0xE2, CHR 0x80, CHR 0xAF],
      [CHR 0xE2, CHR 0x81, CHR 0x9F], [CHR 0xE3, CHR 0x80, CHR 0x80]]"

function strip_prefixes :: "string list \<Rightarrow> string \<Rightarrow> string" where
  "strip_prefixes ws s =
     (case find (\<lambda>w. w \<noteq> [] \<and> starts_with s w) ws of
        None \<Rightarrow> s
      | Some w \<Rightarrow> strip_prefixes ws (drop (length w) s))"
  by pat_completeness auto
termination
  by (relation "measure (\<lambda>(ws, s). length s)") (auto simp: find_Some_iff starts_with_iff)

declare strip_prefixes.simps [simp del]

definition trim_start :: "string \<Rightarrow> string" where
  "trim_start s = strip_prefixes white_space s"

definition trim_end :: "string \<Rightarrow> string" where
  "trim_end s = rev (strip_prefixes (map rev white_space) (rev s))"

definition trim :: "string \<Rightarrow> string" where
  "trim s = trim_end (trim_start s)"

lemma strip_prefixes_Nil [simp]: "strip_prefixes ws [] = []"
proof -
  have "find (\<lambda>w. w \<noteq> [] \<and> starts_with [] w) ws = None"
    by (auto simp: find_None_iff starts_with_def)
  then show ?thesis by (subst strip_prefixes.simps) simp
qed

lemma length_strip_prefixes: "length (strip_prefixes ws s) \<le> length s"
proof (induction ws s rule: strip_prefixes.induct)
  case (1 ws s)
  then show ?case
    by (subst strip_prefixes.simps) (force split: option.split)
qed

lemma trim_Nil [simp]: "trim [] = []"
  by (simp add: trim_def trim_start_def trim_end_def)

lemma length_trim: "length (trim s) \<le> length s"
  unfolding trim_def trim_start_def trim_end_def
  by (metis length_rev length_strip_prefixes order_trans)

section \<open>Slicing\<close>

text \<open>
  \<open>&s[..n]\<close> panics when \<open>n\<close> is past the end or inside a multi-byte character, that is, when the
  byte at \<open>n\<close> is a UTF-8 continuation byte.
\<close>

definition is_char_boundary :: "string \<Rightarrow> nat \<Rightarrow> bool" where
  "is_char_boundary s n =
     (n = 0 \<or> n = length s \<or>
      n < length s \<and> \<not> (0x80 \<le> (of_char (s ! n) :: nat) \<and> (of_char (s ! n) :: nat) < 0xC0))"

definition str_slice_to :: "string \<Rightarrow> nat \<Rightarrow> (string, 'e) res" where
  "str_slice_to s n = (if is_char_boundary s n then Ok (take n s) else Panic)"

lemma str_slice_to_short: "length s < n \<Longrightarrow> str_slice_to s n = Panic"
  by (auto simp: str_slice_to_def is_char_boundary_def)

lemma str_slice_to_not_Err: "str_slice_to s n \<noteq> Err e"
  by (simp add: str_slice_to_def)

section \<open>Words and lossy decoding\<close>

text \<open>\<open>str::split_whitespace\<close>: the non-empty pieces between white space.\<close>

function split_ws :: "string \<Rightarrow> string \<Rightarrow> string list" where
  "split_ws w [] = [w]"
| "split_ws w (c # s) =
     (case find (\<lambda>p. p \<noteq> [] \<and> starts_with (c # s) p) white_space of
        None \<Rightarrow> split_ws (w @ [c]) s
      | Some p \<Rightarrow> w # split_ws [] (drop (length p) (c # s)))"
  by pat_completeness auto
termination
  by (relation "measure (\<lambda>(w, s). length s)") (auto simp: find_Some_iff starts_with_iff)

definition split_whitespace :: "string \<Rightarrow> string list" where
  "split_whitespace s = filter (\<lambda>w. w \<noteq> []) (split_ws [] s)"

text \<open>
  \<open>String::from_utf8_lossy\<close>: \<open>utf8_next\<close> tells whether the bytes start with an encoded character, and how many bytes the character,
  or else the longest part of one, takes. Each such part is replaced by U+FFFD.
\<close>

definition byte_at :: "bytes \<Rightarrow> nat \<Rightarrow> nat" where
  "byte_at s i = (if i < length s then of_char (s ! i) else 0)"

definition utf8_next :: "bytes \<Rightarrow> bool \<times> nat" where
  "utf8_next s =
     (let b = byte_at s; within = (\<lambda>i lo hi. lo \<le> b i \<and> b i \<le> hi); continues = (\<lambda>i. within i 0x80 0xBF)
      in if b 0 < 0x80 then (True, 1)
         else if within 0 0xC2 0xDF then (if continues 1 then (True, 2) else (False, 1))
         else if within 0 0xE0 0xEF then
           (if \<not> (b 0 = 0xE0 \<and> within 1 0xA0 0xBF \<or> b 0 = 0xED \<and> within 1 0x80 0x9F \<or>
                   b 0 \<noteq> 0xE0 \<and> b 0 \<noteq> 0xED \<and> continues 1) then (False, 1)
            else if continues 2 then (True, 3) else (False, 2))
         else if within 0 0xF0 0xF4 then
           (if \<not> (b 0 = 0xF0 \<and> within 1 0x90 0xBF \<or> b 0 = 0xF4 \<and> within 1 0x80 0x8F \<or>
                   b 0 \<noteq> 0xF0 \<and> b 0 \<noteq> 0xF4 \<and> continues 1) then (False, 1)
            else if \<not> continues 2 then (False, 2)
            else if continues 3 then (True, 4) else (False, 3))
         else (False, 1))"

lemma utf8_next_pos: "0 < snd (utf8_next s)"
  unfolding utf8_next_def Let_def by (simp split: if_split)

function from_utf8_lossy :: "bytes \<Rightarrow> string" where
  "from_utf8_lossy s =
     (if s = [] then []
      else (if fst (utf8_next s) then take (snd (utf8_next s)) s else [CHR 0xEF, CHR 0xBF, CHR 0xBD])
             @ from_utf8_lossy (drop (snd (utf8_next s)) s))"
  by pat_completeness auto
termination
  by (relation "measure length") (auto simp: utf8_next_pos)

declare from_utf8_lossy.simps [simp del]

lemma from_utf8_lossy_ascii: "list_all (\<lambda>c. (of_char c :: nat) < 0x80) s \<Longrightarrow> from_utf8_lossy s = s"
proof (induction s)
  case Nil
  show ?case by (simp add: from_utf8_lossy.simps)
next
  case (Cons c s)
  then have "utf8_next (c # s) = (True, 1)" by (simp add: utf8_next_def byte_at_def)
  with Cons show ?case by (simp add: from_utf8_lossy.simps [of "c # s"])
qed

text \<open>\<open>format!("{n}")\<close> of a signed integer.\<close>

definition dec_int :: "int \<Rightarrow> string" where
  "dec_int i = (if i < 0 then ''-'' @ dec (nat (- i)) else dec (nat i))"

section \<open>Little-endian bytes\<close>

fun le_bytes :: "nat \<Rightarrow> nat \<Rightarrow> bytes" where
  "le_bytes 0 n = []"
| "le_bytes (Suc k) n = char_of (n mod 256) # le_bytes k (n div 256)"

definition le64 :: "u64 \<Rightarrow> bytes" where
  "le64 w = le_bytes 8 (unat w)"

end
