(* ===== verification/Crypto.thy ===== *)
theory Crypto
  imports RustStr
begin

text \<open>
  \<^verbatim>\<open>src/src/crypto.rs\<close>: addresses, signing messages and signatures. The hash functions, the
  hexadecimal codec and Ed25519 come from third-party crates, so they are the fields of a record
  \<open>primitives\<close> that every definition using them takes as an argument. What a theorem needs of
  them is one of the named predicates below.
\<close>

record primitives =
  blake3 :: "bytes \<Rightarrow> bytes"
  sha256 :: "bytes \<Rightarrow> bytes"
  keccak256 :: "bytes \<Rightarrow> bytes"
  hex_encode :: "bytes \<Rightarrow> string"
  hex_decode :: "string \<Rightarrow> bytes option"
  ed25519_public :: "bytes \<Rightarrow> bytes"
  ed25519_key_ok :: "bytes \<Rightarrow> bool"
  ed25519_sign :: "bytes \<Rightarrow> bytes \<Rightarrow> bytes"
  ed25519_verify :: "bytes \<Rightarrow> bytes \<Rightarrow> bytes \<Rightarrow> bool"

section \<open>Documented behaviour of the crates\<close>

definition hex_codec :: "primitives \<Rightarrow> bool" where
  "hex_codec p \<longleftrightarrow>
     (\<forall>x. hex_decode p (hex_encode p x) = Some x \<and> length (hex_encode p x) = 2 * length x \<and>
          (\<forall>c \<in> set (hex_encode p x). (of_char c :: nat) < 128))"

definition sha256_size :: "primitives \<Rightarrow> bool" where
  "sha256_size p \<longleftrightarrow> (\<forall>x. length (sha256 p x) = 32)"

definition blake3_size :: "primitives \<Rightarrow> bool" where
  "blake3_size p \<longleftrightarrow> (\<forall>x. length (blake3 p x) = 32)"

definition ed25519_scheme :: "primitives \<Rightarrow> bool" where
  "ed25519_scheme p \<longleftrightarrow>
     (\<forall>sk m. length sk = 32 \<longrightarrow>
        length (ed25519_public p sk) = 32 \<and> length (ed25519_sign p sk m) = 64 \<and>
        ed25519_key_ok p (ed25519_public p sk) \<and>
        ed25519_verify p (ed25519_public p sk) m (ed25519_sign p sk m))"

section \<open>Wallets\<close>

record wallet =
  w_address :: string
  w_signing_key_hex :: string
  w_verifying_key_hex :: string

text \<open>\<open>&hex_str[..37]\<close> panics on a digest shorter than 37 hexadecimal digits.\<close>

definition derive_address :: "primitives \<Rightarrow> bytes \<Rightarrow> (string, 'e) res" where
  "derive_address p pubkey =
     (let h1 = sha256 p pubkey; h2 = sha256 p h1; hex_str = hex_encode p h2
      in res_bind (str_slice_to hex_str 37) (\<lambda>d. Ok (''ARLPh'' @ d)))"

text \<open>The bytes drawn by \<open>SigningKey::generate\<close> from the operating system are the argument \<open>sk\<close>.\<close>

definition wallet_generate :: "primitives \<Rightarrow> bytes \<Rightarrow> (wallet, 'e) res" where
  "wallet_generate p sk =
     (let vk = ed25519_public p sk
      in res_bind (derive_address p vk)
           (\<lambda>addr. Ok \<lparr>w_address = addr, w_signing_key_hex = hex_encode p sk,
                       w_verifying_key_hex = hex_encode p vk\<rparr>))"

datatype sign_error = Bad_hex | Bad_key_length

definition wallet_sign :: "primitives \<Rightarrow> wallet \<Rightarrow> bytes \<Rightarrow> (string, sign_error) res" where
  "wallet_sign p w message =
     (case hex_decode p (w_signing_key_hex w) of
        None \<Rightarrow> Err Bad_hex
      | Some bs \<Rightarrow>
          if length bs \<noteq> 32 then Err Bad_key_length
          else Ok (hex_encode p (ed25519_sign p bs message)))"

section \<open>Messages and verification\<close>

definition tx_sign_preimage ::
    "primitives \<Rightarrow> string \<Rightarrow> string \<Rightarrow> u64 \<Rightarrow> u64 \<Rightarrow> u64 \<Rightarrow> u64 \<Rightarrow> string option \<Rightarrow> string" where
  "tx_sign_preimage p fr to amount fee nonce ts data =
     (let data_hash = (case data of None \<Rightarrow> [] | Some payload \<Rightarrow> hex_encode p (sha256 p payload))
      in fr @ to @ dec64 amount @ dec64 fee @ dec64 nonce @ dec64 ts @ data_hash)"

definition tx_sign_msg ::
    "primitives \<Rightarrow> string \<Rightarrow> string \<Rightarrow> u64 \<Rightarrow> u64 \<Rightarrow> u64 \<Rightarrow> u64 \<Rightarrow> string option \<Rightarrow> bytes" where
  "tx_sign_msg p fr to amount fee nonce ts data =
     sha256 p (tx_sign_preimage p fr to amount fee nonce ts data)"

definition verify_signature :: "primitives \<Rightarrow> string \<Rightarrow> string \<Rightarrow> bytes \<Rightarrow> bool" where
  "verify_signature p pubkey_hex sig_hex message =
     (case hex_decode p pubkey_hex of
        None \<Rightarrow> False
      | Some key_bytes \<Rightarrow>
          if length key_bytes \<noteq> 32 then False
          else if \<not> ed25519_key_ok p key_bytes then False
          else (case hex_decode p sig_hex of
                  None \<Rightarrow> False
                | Some sig_bytes \<Rightarrow>
                    if length sig_bytes \<noteq> 64 then False
                    else ed25519_verify p key_bytes message sig_bytes))"

definition verify_tx_sig :: "primitives \<Rightarrow> string \<Rightarrow> string \<Rightarrow> bytes \<Rightarrow> bool" where
  "verify_tx_sig p pubkey_hex sig_hex message = verify_signature p pubkey_hex sig_hex message"

section \<open>Facts\<close>

lemma hex_digest_slice:
  assumes "hex_codec p" "length d = 32" "n < 64"
  shows "str_slice_to (hex_encode p d) n = Ok (take n (hex_encode p d))"
proof -
  let ?h = "hex_encode p d"
  have len: "length ?h = 64" using assms by (simp add: hex_codec_def)
  then have "?h ! n \<in> set ?h" using assms(3) by (intro nth_mem) simp
  then have "(of_char (?h ! n) :: nat) < 128" using assms(1) by (simp add: hex_codec_def)
  with len assms(3) show ?thesis by (simp add: str_slice_to_def is_char_boundary_def)
qed

lemma derive_address_ok:
  assumes "hex_codec p" "sha256_size p"
  shows "derive_address p pk = Ok (''ARLPh'' @ take 37 (hex_encode p (sha256 p (sha256 p pk))))"
  using assms by (simp add: derive_address_def Let_def sha256_size_def hex_digest_slice)

lemma wallet_generate_fields:
  assumes "wallet_generate p sk = (Ok w :: (wallet, 'e) res)"
  shows "w_signing_key_hex w = hex_encode p sk"
    "w_verifying_key_hex w = hex_encode p (ed25519_public p sk)"
    "derive_address p (ed25519_public p sk) = (Ok (w_address w) :: (string, 'e) res)"
  using assms by (auto simp: wallet_generate_def Let_def res_simps)

lemma sign_verify_roundtrip:
  assumes "hex_codec p" "ed25519_scheme p" "length sk = 32" "wallet_generate p sk = Ok w"
  shows "\<exists>sig. wallet_sign p w m = Ok sig \<and> verify_signature p (w_verifying_key_hex w) sig m"
  using assms(1-3) wallet_generate_fields [OF assms(4)]
  by (simp add: wallet_sign_def verify_signature_def hex_codec_def ed25519_scheme_def)

section \<open>A concrete instance\<close>

text \<open>
  Functions with the documented behaviour, so that facts about the parameters can be applied to
  concrete inputs: hexadecimal as the hex crate prints it, digests and signatures that only have
  the right length.
\<close>

definition nibble :: "nat \<Rightarrow> char" where
  "nibble n = char_of (if n < 10 then n + 48 else n + 87)"

definition unnibble :: "char \<Rightarrow> nat" where
  "unnibble c = (let n = of_char c in if n < 58 then n - 48 else n - 87)"

fun sample_hex_encode :: "bytes \<Rightarrow> string" where
  "sample_hex_encode [] = []"
| "sample_hex_encode (c # cs) = nibble (of_char c div 16) # nibble (of_char c mod 16) # sample_hex_encode cs"

fun sample_hex_decode :: "string \<Rightarrow> bytes option" where
  "sample_hex_decode [] = Some []"
| "sample_hex_decode [c] = None"
| "sample_hex_decode (a # b # cs) =
     map_option (\<lambda>bs. char_of (16 * unnibble a + unnibble b) # bs) (sample_hex_decode cs)"

definition sample_digest :: "bytes \<Rightarrow> bytes" where
  "sample_digest x = take 32 (x @ replicate 32 (CHR 0x00))"

definition sample_primitives :: primitives where
  "sample_primitives =
     \<lparr>blake3 = sample_digest, sha256 = sample_digest, keccak256 = sample_digest,
      hex_encode = sample_hex_encode, hex_decode = sample_hex_decode,
      ed25519_public = (\<lambda>sk. sk), ed25519_key_ok = (\<lambda>_. True),
      ed25519_sign = (\<lambda>sk m. replicate 64 (CHR 0x00)), ed25519_verify = (\<lambda>pk m s. True)\<rparr>"

lemma unnibble_nibble: "n < 16 \<Longrightarrow> unnibble (nibble n) = n"
  by (auto simp: unnibble_def nibble_def Let_def)

lemma nibble_ascii: "n < 16 \<Longrightarrow> (of_char (nibble n) :: nat) < 128"
  by (auto simp: nibble_def)

lemma sample_hex_roundtrip: "sample_hex_decode (sample_hex_encode x) = Some x"
proof (induction x)
  case (Cons c cs)
  have "of_char c div 16 < (16 :: nat)" using nat_of_char_less_256 [of c] by linarith
  with Cons show ?case by (simp add: unnibble_nibble)
qed simp

lemma sample_hex_shape:
  "length (sample_hex_encode x) = 2 * length x \<and>
   (\<forall>c \<in> set (sample_hex_encode x). (of_char c :: nat) < 128)"
proof (induction x)
  case (Cons c cs)
  have "of_char c div 16 < (16 :: nat)" using nat_of_char_less_256 [of c] by linarith
  with Cons show ?case by (simp add: nibble_ascii)
qed simp

lemma sample_primitives_ok:
  "hex_codec sample_primitives" "sha256_size sample_primitives" "ed25519_scheme sample_primitives"
  "blake3_size sample_primitives"
  by (simp_all add: hex_codec_def sha256_size_def blake3_size_def ed25519_scheme_def sample_primitives_def
      sample_hex_roundtrip sample_hex_shape sample_digest_def min_def)

end
