(* ===== verification/Config.thy ===== *)
theory Config
  imports RustStr
begin

text \<open>
  \<^verbatim>\<open>src/src/config.rs\<close>, module \<open>genesis\<close>: the tokenomics constants, the founder's vesting schedule
  and the block reward. All amounts are \<open>u64\<close> base units.
\<close>

definition NETWORK_MAGIC :: string where "NETWORK_MAGIC = ''AROBI1''"
definition TIMESTAMP_MS :: u64 where "TIMESTAMP_MS = 1742611200000"
definition DECIMAL_FACTOR :: u64 where "DECIMAL_FACTOR = 100000000"
definition TOTAL_SUPPLY :: u64 where "TOTAL_SUPPLY = 24000000000 * DECIMAL_FACTOR"
definition FOUNDER_GENESIS_ALLOCATION :: u64 where
  "FOUNDER_GENESIS_ALLOCATION = 500000000 * DECIMAL_FACTOR"
definition MISSION_TREASURY_ALLOCATION :: u64 where
  "MISSION_TREASURY_ALLOCATION = 4000000000 * DECIMAL_FACTOR"
definition PUBLIC_POOL_ALLOCATION :: u64 where
  "PUBLIC_POOL_ALLOCATION = 15000000000 * DECIMAL_FACTOR"
definition NODE_OPS_POOL_ALLOCATION :: u64 where
  "NODE_OPS_POOL_ALLOCATION = 2500000000 * DECIMAL_FACTOR"
definition FOUNDER_VESTING_TOTAL :: u64 where
  "FOUNDER_VESTING_TOTAL = 2000000000 * DECIMAL_FACTOR"
definition FOUNDER_VESTING_MONTHS :: u64 where "FOUNDER_VESTING_MONTHS = 96"
definition FOUNDER_VESTING_START_MS :: u64 where "FOUNDER_VESTING_START_MS = TIMESTAMP_MS"
definition VESTING_MONTH_MS :: u64 where "VESTING_MONTH_MS = 30 * 24 * 60 * 60 * 1000"
definition FOUNDER_ADDRESS :: string where
  "FOUNDER_ADDRESS = ''ARLPhd4b4f0782999f272dbd3e943835412dc13448''"
definition MISSION_TREASURY_ADDRESS :: string where
  "MISSION_TREASURY_ADDRESS = ''ARLPhd79954b2219b64cad9742dea7014e2e6156d2''"
definition PUBLIC_POOL_ADDRESS :: string where
  "PUBLIC_POOL_ADDRESS = ''PUBLICP00L00000000000000000000000000000000000''"
definition NODE_OPS_POOL_ADDRESS :: string where
  "NODE_OPS_POOL_ADDRESS = ''NODEOP00L000000000000000000000000000000000000''"
definition HALVING_PERIOD_BLOCKS :: u64 where "HALVING_PERIOD_BLOCKS = 1051920"
definition MAX_HALVING_EXPONENT :: u64 where "MAX_HALVING_EXPONENT = 10"
definition BLOCK_REWARD_BASE :: u64 where "BLOCK_REWARD_BASE = 59514700000"
definition MAX_TXS_PER_BLOCK :: nat where "MAX_TXS_PER_BLOCK = 500"
definition MIN_FEE :: u64 where "MIN_FEE = 1000"
definition CHUNK_SIZE :: nat where "CHUNK_SIZE = 256 * 1024"

lemmas genesis_constants =
  TIMESTAMP_MS_def DECIMAL_FACTOR_def TOTAL_SUPPLY_def FOUNDER_GENESIS_ALLOCATION_def
  MISSION_TREASURY_ALLOCATION_def PUBLIC_POOL_ALLOCATION_def NODE_OPS_POOL_ALLOCATION_def
  FOUNDER_VESTING_TOTAL_def FOUNDER_VESTING_MONTHS_def FOUNDER_VESTING_START_MS_def
  VESTING_MONTH_MS_def HALVING_PERIOD_BLOCKS_def MAX_HALVING_EXPONENT_def BLOCK_REWARD_BASE_def
  MIN_FEE_def

lemmas genesis_addresses =
  FOUNDER_ADDRESS_def MISSION_TREASURY_ADDRESS_def PUBLIC_POOL_ADDRESS_def NODE_OPS_POOL_ADDRESS_def

section \<open>Founder vesting\<close>

definition founder_vested :: "u64 \<Rightarrow> u64" where
  "founder_vested timestamp_ms =
     (if timestamp_ms < FOUNDER_VESTING_START_MS then 0
      else let elapsed = timestamp_ms - FOUNDER_VESTING_START_MS;
               months_elapsed = elapsed div VESTING_MONTH_MS;
               months_vested = min months_elapsed FOUNDER_VESTING_MONTHS
           in FOUNDER_VESTING_TOTAL div FOUNDER_VESTING_MONTHS * months_vested)"

definition founder_total_balance :: "u64 \<Rightarrow> u64" where
  "founder_total_balance timestamp_ms = FOUNDER_GENESIS_ALLOCATION + founder_vested timestamp_ms"

text \<open>The number of whole months since genesis, capped, as a natural number.\<close>

definition months_vested :: "nat \<Rightarrow> nat" where
  "months_vested ts = min 96 ((ts - 1742611200000) div 2592000000)"

lemma unat_min: "unat (min a b) = min (unat a) (unat (b :: 'a::len word))"
  by (simp add: min_def word_le_nat_alt)

lemma founder_vested_exact:
  "unat (founder_vested ts) = 2083333333333333 * months_vested (unat ts)"
proof (cases "ts < FOUNDER_VESTING_START_MS")
  case True
  then show ?thesis
    by (simp add: founder_vested_def months_vested_def genesis_constants word_less_nat_alt)
next
  case False
  let ?m = "min ((ts - FOUNDER_VESTING_START_MS) div VESTING_MONTH_MS) FOUNDER_VESTING_MONTHS"
  have sub: "unat (ts - FOUNDER_VESTING_START_MS) = unat ts - 1742611200000"
    using False by (subst unat_sub_no_wrap) (simp_all add: genesis_constants not_less word_le_nat_alt)
  have m: "unat ?m = months_vested (unat ts)"
    using sub by (simp add: unat_min unat_div months_vested_def genesis_constants min.commute)
  have k: "unat (FOUNDER_VESTING_TOTAL div FOUNDER_VESTING_MONTHS) = 2083333333333333"
    by (simp add: unat_div genesis_constants)
  have "months_vested (unat ts) \<le> 96" by (simp add: months_vested_def)
  then have "unat (FOUNDER_VESTING_TOTAL div FOUNDER_VESTING_MONTHS * ?m)
      = 2083333333333333 * months_vested (unat ts)"
    using m k by (simp add: unat_word_ariths)
  with False show ?thesis by (simp add: founder_vested_def Let_def)
qed

lemma months_vested_mono: "a \<le> b \<Longrightarrow> months_vested a \<le> months_vested b"
  by (auto simp: months_vested_def intro: div_le_mono min.mono)

lemma founder_total_balance_exact:
  "unat (founder_total_balance ts) = 50000000000000000 + 2083333333333333 * months_vested (unat ts)"
proof -
  have "months_vested (unat ts) \<le> 96" by (simp add: months_vested_def)
  then show ?thesis
    unfolding founder_total_balance_def
    by (subst unat_add_no_wrap) (simp_all add: founder_vested_exact genesis_constants)
qed

section \<open>Block reward\<close>

definition halving_exp :: "u64 \<Rightarrow> u64" where
  "halving_exp chain_height =
     (let exp = chain_height div HALVING_PERIOD_BLOCKS in min exp MAX_HALVING_EXPONENT)"

definition current_block_reward :: "u64 \<Rightarrow> u64 \<Rightarrow> u64" where
  "current_block_reward chain_height pool_balance_raw =
     (let exp = halving_exp chain_height;
          halving_divisor = push_bit (unat (min exp 60)) (1 :: u64);
          reward = BLOCK_REWARD_BASE div halving_divisor
      in min reward pool_balance_raw)"

definition halvings :: "nat \<Rightarrow> nat" where
  "halvings h = min 10 (h div 1051920)"

lemma halving_exp_exact: "unat (halving_exp h) = halvings (unat h)"
  by (simp add: halving_exp_def halvings_def Let_def unat_min unat_div genesis_constants min.commute)

lemma current_block_reward_exact:
  "unat (current_block_reward h pool) = min (59514700000 div 2 ^ halvings (unat h)) (unat pool)"
proof -
  have le: "halvings (unat h) \<le> 10" by (simp add: halvings_def)
  have e: "unat (min (halving_exp h) 60) = halvings (unat h)"
    using le by (simp add: unat_min halving_exp_exact)
  have "(2 :: nat) ^ halvings (unat h) \<le> 2 ^ 10" using le by (intro power_increasing) auto
  then have "unat (of_nat (2 ^ halvings (unat h)) :: u64) = 2 ^ halvings (unat h)"
    by (subst unat_of_nat) (simp add: take_bit_nat_eq_self)
  then have d: "unat (push_bit (halvings (unat h)) (1 :: u64)) = 2 ^ halvings (unat h)"
    by (simp add: push_bit_eq_mult)
  have "current_block_reward h pool =
      min (BLOCK_REWARD_BASE div push_bit (halvings (unat h)) (1 :: u64)) pool"
    by (simp only: current_block_reward_def Let_def e)
  then show ?thesis by (simp only: unat_min unat_div d) (simp add: BLOCK_REWARD_BASE_def)
qed

section \<open>The emission of the node operators pool\<close>

text \<open>
  The balance of the node operators pool when every block from height 1 on pays the reward that
  \<open>produce_block\<close> computes for it and nothing else leaves the pool.
\<close>

fun pool_after :: "nat \<Rightarrow> u64" where
  "pool_after 0 = NODE_OPS_POOL_ALLOCATION"
| "pool_after (Suc h) = pool_after h - current_block_reward (of_nat (Suc h)) (pool_after h)"

definition scheduled :: "nat \<Rightarrow> nat" where
  "scheduled h = (\<Sum>i = 1..h. 59514700000 div 2 ^ halvings i)"

lemma pool_after_exact:
  "h < 2 ^ 64 \<Longrightarrow> unat (pool_after h) = 250000000000000000 - scheduled h"
proof (induction h)
  case 0
  then show ?case by (simp add: scheduled_def genesis_constants)
next
  case (Suc h)
  let ?r = "59514700000 div 2 ^ halvings (Suc h)"
  have u: "unat (of_nat (Suc h) :: u64) = Suc h"
    using Suc.prems by (subst unat_of_nat) (simp add: take_bit_nat_eq_self)
  have r: "unat (current_block_reward (of_nat (Suc h)) (pool_after h)) = min ?r (unat (pool_after h))"
    by (simp only: current_block_reward_exact u)
  have "unat (pool_after (Suc h)) = unat (pool_after h) - min ?r (unat (pool_after h))"
    using r by (simp add: unat_sub_no_wrap)
  then show ?case using Suc by (simp add: scheduled_def)
qed

text \<open>The rewards of ten whole halving periods, period by period.\<close>

lemma scheduled_periods:
  assumes "n \<le> 10" "h < n * 1051920"
  shows "scheduled h \<le> (\<Sum>e < n. 1051920 * (59514700000 div 2 ^ e))"
proof -
  let ?f = "\<lambda>i. 59514700000 div 2 ^ halvings i :: nat"
  have blockwise: "sum ?f {e * 1051920 ..< e * 1051920 + 1051920} = 1051920 * (59514700000 div 2 ^ e)"
    if "e < n" for e
  proof -
    have "halvings i = e" if "i \<in> {e * 1051920 ..< e * 1051920 + 1051920}" for i
    proof -
      have "i div 1051920 = e" using that by (intro div_nat_eqI) auto
      with \<open>e < n\<close> assms(1) show ?thesis by (simp add: halvings_def)
    qed
    then have "sum ?f {e * 1051920 ..< e * 1051920 + 1051920}
        = sum (\<lambda>i. 59514700000 div 2 ^ e) {e * 1051920 ..< e * 1051920 + 1051920}"
      by (intro sum.cong) auto
    then show ?thesis by simp
  qed
  have "scheduled h \<le> sum ?f {..< n * 1051920}"
    unfolding scheduled_def using assms(2) by (intro sum_mono2) auto
  also have "\<dots> = (\<Sum>e < n. sum ?f {e * 1051920 ..< e * 1051920 + 1051920})"
    by (rule sum.nat_group [symmetric])
  also have "\<dots> = (\<Sum>e < n. 1051920 * (59514700000 div 2 ^ e))"
    using blockwise by (intro sum.cong) auto
  finally show ?thesis .
qed

lemma twenty_year_schedule:
  assumes "h < 10519200"
  shows "scheduled h \<le> 125087131634320080"
proof -
  have "scheduled h \<le> (\<Sum>e < 10. 1051920 * (59514700000 div 2 ^ e))"
    using assms by (intro scheduled_periods) auto
  also have "\<dots> \<le> 125087131634320080"
    by (simp add: lessThan_nat_numeral lessThan_Suc)
  finally show ?thesis .
qed

section \<open>Properties\<close>

text \<open>
  The founder's vesting: what may be spent never falls as time passes, starts at the immediate
  allocation, and stays below the immediate allocation plus the vesting total, which the rounded
  monthly portions never reach: at most that total less 32 units.
\<close>

lemma founder_vesting_bounds:
  assumes "t \<le> t'"
  shows "founder_total_balance t \<le> founder_total_balance t' \<and>
    FOUNDER_GENESIS_ALLOCATION \<le> founder_total_balance t \<and>
    unat (founder_total_balance t') \<le> unat FOUNDER_GENESIS_ALLOCATION + unat FOUNDER_VESTING_TOTAL - 32 \<and>
    (t < FOUNDER_VESTING_START_MS \<longrightarrow> founder_total_balance t = FOUNDER_GENESIS_ALLOCATION)"
proof -
  have "months_vested (unat t) \<le> months_vested (unat t')"
    using assms by (intro months_vested_mono) (simp add: word_le_nat_alt)
  moreover have "months_vested (unat t') \<le> 96" by (simp add: months_vested_def)
  ultimately show ?thesis
    by (simp add: word_le_nat_alt founder_total_balance_exact genesis_constants)
       (simp add: founder_total_balance_def founder_vested_def genesis_constants)
qed

lemma founder_vesting_bounds_sample:
  "founder_total_balance 0 \<le> founder_total_balance 1742611200000 \<and> founder_total_balance 0 = FOUNDER_GENESIS_ALLOCATION"
  using founder_vesting_bounds [of 0 1742611200000] by (auto simp: FOUNDER_VESTING_START_MS_def TIMESTAMP_MS_def)

text \<open>
  The node operators pool outlives its schedule: after ten halving periods of paying every block its
  reward, more than 1.249 billion of its 2.5 billion AURA are still there. The comments on the constants
  say that the pool is exhausted after 20 years.
\<close>

lemma pool_not_exhausted:
  assumes "h < 10519200"
  shows "124912868365679920 \<le> unat (pool_after h)"
  using pool_after_exact [of h] twenty_year_schedule [OF assms] assms by simp

lemma pool_not_exhausted_sample: "124912868365679920 \<le> unat (pool_after 10519199)"
  using pool_not_exhausted [of 10519199] by simp

end
