(* ===== verification/Block.thy ===== *)
theory Block
  imports Crypto Config
begin

text \<open>
  \<^verbatim>\<open>src/src/block.rs\<close>: transactions, their identifiers and stateless checks, blocks, their hashes,
  and the genesis block.
\<close>

section \<open>Transactions\<close>

record transaction =
  tx_id :: string
  tx_from :: string
  tx_to :: string
  tx_amount :: u64
  tx_fee :: u64
  tx_nonce :: u64
  tx_data :: "string option"
  tx_signature :: string
  tx_public_key :: string
  tx_timestamp :: u64

definition is_consensus_pool_address :: "string \<Rightarrow> bool" where
  "is_consensus_pool_address addr = (starts_with addr ''PUBLICP00L'' \<or> starts_with addr ''NODEOP00L'')"

definition compute_id ::
    "primitives \<Rightarrow> string \<Rightarrow> string \<Rightarrow> u64 \<Rightarrow> u64 \<Rightarrow> u64 \<Rightarrow> u64 \<Rightarrow> string option \<Rightarrow> string" where
  "compute_id p fr to amount fee nonce ts data =
     (let data_hash = (case data of None \<Rightarrow> [] | Some payload \<Rightarrow> hex_encode p (blake3 p payload));
          signing_data = fr @ to @ dec64 amount @ dec64 fee @ dec64 nonce @ dec64 ts @ data_hash
      in hex_encode p (blake3 p signing_data))"

definition has_expected_id :: "primitives \<Rightarrow> transaction \<Rightarrow> bool" where
  "has_expected_id p tx =
     (tx_id tx = compute_id p (tx_from tx) (tx_to tx) (tx_amount tx) (tx_fee tx) (tx_nonce tx)
                   (tx_timestamp tx) (tx_data tx))"

definition verify_sig :: "primitives \<Rightarrow> transaction \<Rightarrow> bool" where
  "verify_sig p tx =
     (if tx_from tx = ''GENESIS'' \<or> is_consensus_pool_address (tx_from tx) then True
      else verify_tx_sig p (tx_public_key tx) (tx_signature tx)
             (tx_sign_msg p (tx_from tx) (tx_to tx) (tx_amount tx) (tx_fee tx) (tx_nonce tx)
                (tx_timestamp tx) (tx_data tx)))"

datatype tx_error =
    Pool_to_pool
  | Id_mismatch
  | Empty_address
  | Send_to_self
  | Zero_amount
  | Fee_below_minimum
  | Data_too_long
  | Invalid_signature

definition validate_basic :: "primitives \<Rightarrow> transaction \<Rightarrow> (unit, tx_error) res" where
  "validate_basic p tx =
     (if tx_from tx = ''GENESIS'' then Ok ()
      else if is_consensus_pool_address (tx_from tx) then
        (if is_consensus_pool_address (tx_to tx) then Err Pool_to_pool
         else if \<not> has_expected_id p tx then Err Id_mismatch
         else Ok ())
      else if tx_from tx = [] \<or> tx_to tx = [] then Err Empty_address
      else if tx_from tx = tx_to tx \<and> \<not> (tx_amount tx = 0 \<and> tx_data tx \<noteq> None) then Err Send_to_self
      else if tx_amount tx = 0 \<and> tx_data tx = None then Err Zero_amount
      else if tx_fee tx < MIN_FEE then Err Fee_below_minimum
      else if (case tx_data tx of None \<Rightarrow> False | Some d \<Rightarrow> 512 < length d) then Err Data_too_long
      else if \<not> has_expected_id p tx then Err Id_mismatch
      else if \<not> verify_sig p tx then Err Invalid_signature
      else Ok ())"

text \<open>A transaction that is neither a mint nor a pool emission.\<close>

definition is_user_tx :: "transaction \<Rightarrow> bool" where
  "is_user_tx tx = (tx_from tx \<noteq> ''GENESIS'' \<and> \<not> is_consensus_pool_address (tx_from tx))"

lemma validate_basic_no_panic: "validate_basic p tx \<noteq> Panic"
  by (simp add: validate_basic_def)

lemma validate_basic_user_ok_iff:
  assumes "is_user_tx tx"
  shows "validate_basic p tx = Ok () \<longleftrightarrow>
    tx_from tx \<noteq> [] \<and> tx_to tx \<noteq> [] \<and>
    (tx_from tx = tx_to tx \<longrightarrow> tx_amount tx = 0) \<and>
    (tx_amount tx = 0 \<longrightarrow> tx_data tx \<noteq> None) \<and>
    MIN_FEE \<le> tx_fee tx \<and>
    (\<forall>d. tx_data tx = Some d \<longrightarrow> length d \<le> 512) \<and>
    has_expected_id p tx \<and>
    verify_tx_sig p (tx_public_key tx) (tx_signature tx)
      (tx_sign_msg p (tx_from tx) (tx_to tx) (tx_amount tx) (tx_fee tx) (tx_nonce tx)
         (tx_timestamp tx) (tx_data tx))"
proof (cases "tx_data tx")
  case None
  with assms show ?thesis
    by (auto simp: validate_basic_def is_user_tx_def verify_sig_def)
next
  case (Some d)
  with assms show ?thesis
    by (auto simp: validate_basic_def is_user_tx_def verify_sig_def)
qed

lemma validate_basic_pool_ok_iff:
  assumes "is_consensus_pool_address (tx_from tx)"
  shows "validate_basic p tx = Ok () \<longleftrightarrow>
    \<not> is_consensus_pool_address (tx_to tx) \<and> has_expected_id p tx"
proof -
  have "tx_from tx \<noteq> ''GENESIS''"
    using assms by (auto simp: is_consensus_pool_address_def starts_with_def)
  with assms show ?thesis by (simp add: validate_basic_def)
qed

section \<open>Blocks\<close>

record intelligence_proof =
  ip_challenge_bytes :: bytes
  ip_solution_bytes :: bytes
  ip_computation_hash :: string
  ip_intelligence_score :: f64

record block =
  b_height :: u64
  b_hash :: string
  b_prev_hash :: string
  b_timestamp :: u64
  b_transactions :: "transaction list"
  b_merkle_root :: string
  b_validator :: string
  b_validator_signature :: string
  b_nonce :: u64
  b_intelligence_proof :: "intelligence_proof option"

definition zeros64 :: string where
  "zeros64 = replicate 64 (CHR ''0'')"

definition block_compute_hash ::
    "primitives \<Rightarrow> u64 \<Rightarrow> string \<Rightarrow> u64 \<Rightarrow> string \<Rightarrow> u64 \<Rightarrow> string \<Rightarrow> string option \<Rightarrow> string" where
  "block_compute_hash p height prev_hash ts merkle_root nonce validator proof_hash =
     (let data = dec64 height @ prev_hash @ dec64 ts @ merkle_root @ dec64 nonce @ validator;
          data' = (case proof_hash of None \<Rightarrow> data | Some ph \<Rightarrow> data @ ph)
      in hex_encode p (blake3 p data'))"

fun str_join :: "string \<Rightarrow> string list \<Rightarrow> string" where
  "str_join sep [] = []"
| "str_join sep [x] = x"
| "str_join sep (x # y # xs) = x @ sep @ str_join sep (y # xs)"

definition compute_merkle_root :: "primitives \<Rightarrow> transaction list \<Rightarrow> string" where
  "compute_merkle_root p txs =
     (if txs = [] then zeros64
      else let ids = map tx_id txs; combined = str_join ''|'' ids
           in hex_encode p (blake3 p combined))"

definition verify_hash :: "primitives \<Rightarrow> block \<Rightarrow> bool" where
  "verify_hash p b =
     (let proof_hash = map_option ip_computation_hash (b_intelligence_proof b);
          expected = block_compute_hash p (b_height b) (b_prev_hash b) (b_timestamp b)
                       (b_merkle_root b) (b_nonce b) (b_validator b) proof_hash
      in b_hash b = expected)"

text \<open>Joining with a separator that no part contains loses nothing.\<close>

lemma str_join_Cons: "xs \<noteq> [] \<Longrightarrow> str_join sep (x # xs) = x @ sep @ str_join sep xs"
  by (cases xs) auto

lemma append_sep_eq:
  "x @ c # u = y @ c # v \<Longrightarrow> c \<notin> set x \<Longrightarrow> c \<notin> set y \<Longrightarrow> x = y \<and> u = v"
proof (induction x arbitrary: y)
  case Nil
  then show ?case by (cases y) auto
next
  case (Cons a x)
  then show ?case by (cases y) auto
qed

lemma str_join_inj:
  assumes "str_join [c] xs = str_join [c] ys" "xs \<noteq> []" "ys \<noteq> []"
    "\<forall>x \<in> set xs. c \<notin> set x" "\<forall>y \<in> set ys. c \<notin> set y"
  shows "xs = ys"
  using assms
proof (induction xs arbitrary: ys)
  case (Cons x xs)
  from Cons.prems(3) obtain y ys' where ys: "ys = y # ys'" by (cases ys) auto
  have hasc: "c \<in> set (z @ [c] @ w)" for z w by simp
  consider "xs = []" "ys' = []" | "xs = []" "ys' \<noteq> []" | "xs \<noteq> []" "ys' = []" | "xs \<noteq> []" "ys' \<noteq> []"
    by auto
  then show ?case
  proof cases
    case 1
    then show ?thesis using Cons.prems ys by simp
  next
    case 2
    then have "x = y @ [c] @ str_join [c] ys'" using Cons.prems(1) ys by (simp add: str_join_Cons)
    then show ?thesis using Cons.prems(4) hasc by auto
  next
    case 3
    then have "y = x @ [c] @ str_join [c] xs" using Cons.prems(1) ys by (simp add: str_join_Cons)
    then show ?thesis using Cons.prems(5) ys hasc by auto
  next
    case 4
    then have "x @ c # str_join [c] xs = y @ c # str_join [c] ys'"
      using Cons.prems(1) ys by (simp add: str_join_Cons)
    then have "x = y" "str_join [c] xs = str_join [c] ys'"
      using append_sep_eq Cons.prems(4,5) ys by (metis list.set_intros(1))+
    then show ?thesis using Cons.IH [of ys'] Cons.prems(4,5) 4 ys by simp
  qed
qed simp

section \<open>The genesis block\<close>

definition em_dash :: string where
  "em_dash = [CHR 0xE2, CHR 0x80, CHR 0x94]"

definition gtx :: "string \<Rightarrow> string \<Rightarrow> u64 \<Rightarrow> string \<Rightarrow> transaction" where
  "gtx i to amount data =
     \<lparr>tx_id = i, tx_from = ''GENESIS'', tx_to = to, tx_amount = amount, tx_fee = 0, tx_nonce = 0,
      tx_data = Some data, tx_signature = ''GENESIS'', tx_public_key = ''GENESIS'',
      tx_timestamp = TIMESTAMP_MS\<rparr>"

definition genesis_txs :: "transaction list" where
  "genesis_txs =
     [gtx ''GENESIS00000000000000000000000000000001'' FOUNDER_ADDRESS FOUNDER_GENESIS_ALLOCATION
        (''Founder Genesis '' @ em_dash @ '' Arobi Network v3.2.0. 500M AURA immediate allocation. Vesting: 2B AURA over 8 years via consensus.''),
      gtx ''GENESIS00000000000000000000000000000002'' MISSION_TREASURY_ADDRESS MISSION_TREASURY_ALLOCATION
        (''Mission Treasury Genesis '' @ em_dash @ '' 4B AURA for Arobi ecosystem governance and operations.''),
      gtx ''GENESIS00000000000000000000000000000003'' PUBLIC_POOL_ADDRESS PUBLIC_POOL_ALLOCATION
        (''PUBLIC POOL (DEX) '' @ em_dash @ '' 15B AURA for DEX liquidity and governance-approved bridge contracts. Governance multisig required for all withdrawals. NO node runner rewards from this pool.''),
      gtx ''GENESIS00000000000000000000000000000004'' NODE_OPS_POOL_ADDRESS NODE_OPS_POOL_ALLOCATION
        (''NODE OPS POOL '' @ em_dash @ '' 2.5B AURA for PoI node runner rewards. 20-year halving emission (BASE: ~595 AURA/block at Y1-2, halves every 2 years). Pool empty = rewards stop. NO private key '' @ em_dash @ '' consensus only.'')]"

definition genesis_block :: "primitives \<Rightarrow> block" where
  "genesis_block p =
     (let txs = genesis_txs;
          merkle_root = compute_merkle_root p txs;
          hash = block_compute_hash p 0 zeros64 TIMESTAMP_MS merkle_root 0 ''GENESIS'' None
      in \<lparr>b_height = 0, b_hash = hash, b_prev_hash = zeros64, b_timestamp = TIMESTAMP_MS,
          b_transactions = txs, b_merkle_root = merkle_root, b_validator = ''GENESIS'',
          b_validator_signature = ''GENESIS'', b_nonce = 0, b_intelligence_proof = None\<rparr>)"

lemma genesis_block_fields [simp]:
  "b_height (genesis_block p) = 0" "b_transactions (genesis_block p) = genesis_txs"
  "b_prev_hash (genesis_block p) = zeros64"
  by (simp_all add: genesis_block_def Let_def)

lemma genesis_block_verify_hash: "verify_hash p (genesis_block p)"
  by (simp add: verify_hash_def genesis_block_def Let_def)

section \<open>Properties\<close>

text \<open>
  A transfer signed by its wallet is accepted: with the documented behaviour of the hexadecimal and
  Ed25519 crates, a transaction whose id and signature are made the way the code makes them, by a wallet
  generated from a key, passes the stateless checks, provided it has a recipient other than the sender,
  an amount, the minimum fee and a memo of at most 512 bytes.
\<close>

lemma wallet_transfer_accepted:
  assumes "hex_codec p" "sha256_size p" "ed25519_scheme p" "length sk = 32" "wallet_generate p sk = Ok w"
    "wallet_sign p w (tx_sign_msg p (w_address w) to amount fee nonce ts data) = Ok sig"
    "to \<noteq> []" "to \<noteq> w_address w" "amount \<noteq> 0" "MIN_FEE \<le> fee" "\<forall>d. data = Some d \<longrightarrow> length d \<le> 512"
  shows "validate_basic p
    \<lparr>tx_id = compute_id p (w_address w) to amount fee nonce ts data, tx_from = w_address w, tx_to = to,
     tx_amount = amount, tx_fee = fee, tx_nonce = nonce, tx_data = data, tx_signature = sig,
     tx_public_key = w_verifying_key_hex w, tx_timestamp = ts\<rparr> = Ok ()"
proof -
  have addr: "w_address w = ''ARLPh'' @ take 37 (hex_encode p (sha256 p (sha256 p (ed25519_public p sk))))"
    using wallet_generate_fields(3) [OF assms(5)] by (auto simp: derive_address_ok [OF assms(1,2)])
  then have user: "w_address w \<noteq> ''GENESIS''" "\<not> is_consensus_pool_address (w_address w)" "w_address w \<noteq> []"
    by (auto simp: is_consensus_pool_address_def starts_with_def)
  have "verify_signature p (w_verifying_key_hex w) sig (tx_sign_msg p (w_address w) to amount fee nonce ts data)"
    using sign_verify_roundtrip [OF assms(1,3,4,5), of "tx_sign_msg p (w_address w) to amount fee nonce ts data"]
      assms(6) by auto
  then show ?thesis
    using user assms(7-11)
    by (subst validate_basic_user_ok_iff) (auto simp: is_user_tx_def has_expected_id_def verify_tx_sig_def)
qed

lemma wallet_transfer_accepted_sample:
  "\<exists>w sig. wallet_generate sample_primitives (replicate 32 (CHR 0x00)) = (Ok w :: (wallet, sign_error) res) \<and>
     validate_basic sample_primitives
       \<lparr>tx_id = compute_id sample_primitives (w_address w) ''ARLPhb'' 5 1000 0 9 None, tx_from = w_address w, tx_to = ''ARLPhb'',
        tx_amount = 5, tx_fee = 1000, tx_nonce = 0, tx_data = None, tx_signature = sig,
        tx_public_key = w_verifying_key_hex w, tx_timestamp = 9\<rparr> = Ok ()"
proof -
  note ok = sample_primitives_ok(1,2,3)
  let ?sk = "replicate 32 (CHR 0x00)"
  obtain w where w: "wallet_generate sample_primitives ?sk = (Ok w :: (wallet, sign_error) res)"
    by (simp add: wallet_generate_def Let_def derive_address_ok [OF ok(1,2)])
  have "w_address w = ''ARLPh'' @ take 37 (hex_encode sample_primitives (sha256 sample_primitives (sha256 sample_primitives (ed25519_public sample_primitives ?sk))))"
    using wallet_generate_fields(3) [OF w] by (auto simp: derive_address_ok [OF ok(1,2)])
  then have "length (w_address w) = 42" using ok(1,2) by (simp add: hex_codec_def sha256_size_def)
  then have "''ARLPhb'' \<noteq> w_address w" by (auto dest: arg_cong [where f = length])
  moreover obtain sig where "wallet_sign sample_primitives w
      (tx_sign_msg sample_primitives (w_address w) ''ARLPhb'' 5 1000 0 9 None) = Ok sig"
    using sign_verify_roundtrip [OF ok(1,3) _ w] by auto
  ultimately show ?thesis
    using wallet_transfer_accepted [OF ok _ w, of "''ARLPhb''" 5 1000 0 9 None sig] w
    by (auto simp: MIN_FEE_def)
qed

text \<open>
  The Merkle root binds the transactions: two non-empty lists of transactions with the same root have
  the same ids in the same order, unless they exhibit a BLAKE3 collision (ids do not contain the separator).
\<close>

lemma merkle_root_binds_ids:
  assumes "hex_codec p" "txs \<noteq> []" "txs' \<noteq> []" "\<forall>tx \<in> set (txs @ txs'). CHR ''|'' \<notin> set (tx_id tx)"
    "compute_merkle_root p txs = compute_merkle_root p txs'"
  shows "map tx_id txs = map tx_id txs' \<or> (\<exists>u v. u \<noteq> v \<and> blake3 p u = blake3 p v)"
proof (cases "\<exists>u v. u \<noteq> v \<and> blake3 p u = blake3 p v")
  case False
  have "hex_encode p x = hex_encode p y \<Longrightarrow> x = y" for x y
    using assms(1) unfolding hex_codec_def by (metis option.inject)
  then have "str_join ''|'' (map tx_id txs) = str_join ''|'' (map tx_id txs')"
    using assms(2,3,5) False by (auto simp: compute_merkle_root_def)
  then show ?thesis using str_join_inj assms(2-4) by auto
qed simp

lemma merkle_root_binds_ids_sample:
  "map tx_id genesis_txs = map tx_id genesis_txs \<or>
   (\<exists>u v. u \<noteq> v \<and> blake3 sample_primitives u = blake3 sample_primitives v)"
  using merkle_root_binds_ids [OF sample_primitives_ok(1), of genesis_txs genesis_txs]
  by (simp add: genesis_txs_def gtx_def)

text \<open>
  The signed message and the id run the decimal fields together without a separator, so different
  transfers share them: an amount of 1 with fee 11000 and an amount of 11 with fee 1000 have the same id
  and the same signed bytes, and a signature for one is a signature for the other.
\<close>

lemma message_ambiguous:
  "tx_sign_msg p fr to 1 11000 nonce ts data = tx_sign_msg p fr to 11 1000 nonce ts data \<and>
   compute_id p fr to 1 11000 nonce ts data = compute_id p fr to 11 1000 nonce ts data"
proof -
  have "dec 1 @ dec 11000 = dec 11 @ dec 1000" by (simp add: dec.simps)
  then have "dec 1 @ dec 11000 @ z = dec 11 @ dec 1000 @ z" for z by (metis append_assoc)
  then have eq: "dec (Suc 0) @ dec 11000 @ z = dec 11 @ dec 1000 @ z" for z by simp
  show ?thesis by (simp add: tx_sign_msg_def tx_sign_preimage_def compute_id_def Let_def eq)
qed

end
