(* ===== verification/ChainStore.thy ===== *)
theory ChainStore
  imports Block
begin

text \<open>
  \<^verbatim>\<open>src/src/store.rs\<close>, the chain part: the sled trees \<open>blocks\<close>, \<open>meta\<close>, \<open>balances\<close>, \<open>nonces\<close> and
  \<open>transactions\<close>, opening a store, the public reads, and \<open>apply_block\<close>. A tree holds the values its
  writers serialise; reading a value back through serde returns it. Failures of the disk are not
  modelled. Integer arithmetic wraps as in the release profile, and slicing a transaction id for
  an error message can panic.
\<close>

record chain =
  c_blocks :: "(u64, block) tree"
  c_tip_height :: "u64 option"
  c_tip_hash :: "string option"
  c_balances :: "(string, u64) tree"
  c_nonces :: "(string, u64) tree"
  c_txs :: "(string, transaction) tree"

definition empty_chain :: chain where
  "empty_chain = \<lparr>c_blocks = [], c_tip_height = None, c_tip_hash = None,
                  c_balances = [], c_nonces = [], c_txs = []\<rparr>"

section \<open>Reads\<close>

definition u64_from_tree :: "(string, u64) tree \<Rightarrow> string \<Rightarrow> u64" where
  "u64_from_tree t k = (case tree_get t k of Some b \<Rightarrow> b | None \<Rightarrow> 0)"

definition chain_height :: "chain \<Rightarrow> u64" where
  "chain_height c = (case c_tip_height c of Some h \<Rightarrow> h | None \<Rightarrow> 0)"

definition tip_hash :: "chain \<Rightarrow> string" where
  "tip_hash c = (case c_tip_hash c of Some h \<Rightarrow> h | None \<Rightarrow> zeros64)"

definition get_block :: "chain \<Rightarrow> u64 \<Rightarrow> block option" where
  "get_block c height = tree_get (c_blocks c) height"

definition get_blocks :: "chain \<Rightarrow> u64 \<Rightarrow> u64 \<Rightarrow> block list" where
  "get_blocks c fr to =
     concat (map (\<lambda>h. case tree_get (c_blocks c) (of_nat h) of Some b \<Rightarrow> [b] | None \<Rightarrow> [])
               [unat fr ..< Suc (unat to)])"

text \<open>\<open>n as u64 - 1\<close> wraps for \<open>n = 0\<close>.\<close>

definition latest_blocks :: "chain \<Rightarrow> u64 \<Rightarrow> block list" where
  "latest_blocks c n =
     (let tip = chain_height c; fr = saturating_sub tip (n - 1)
      in rev (get_blocks c fr tip))"

definition get_balance :: "chain \<Rightarrow> string \<Rightarrow> u64" where
  "get_balance c address = u64_from_tree (c_balances c) address"

definition get_nonce :: "chain \<Rightarrow> string \<Rightarrow> u64" where
  "get_nonce c address = u64_from_tree (c_nonces c) address"

definition get_transaction :: "chain \<Rightarrow> string \<Rightarrow> transaction option" where
  "get_transaction c i = tree_get (c_txs c) i"

definition tx_exists :: "chain \<Rightarrow> string \<Rightarrow> bool" where
  "tx_exists c i = (tree_get (c_txs c) i \<noteq> None)"

section \<open>Writes\<close>

definition set_balance_raw :: "string \<Rightarrow> u64 \<Rightarrow> chain \<Rightarrow> chain" where
  "set_balance_raw address balance c = c\<lparr>c_balances := tree_insert address balance (c_balances c)\<rparr>"

definition set_nonce_raw :: "string \<Rightarrow> u64 \<Rightarrow> chain \<Rightarrow> chain" where
  "set_nonce_raw address nonce c = c\<lparr>c_nonces := tree_insert address nonce (c_nonces c)\<rparr>"

definition store_tx :: "transaction \<Rightarrow> chain \<Rightarrow> chain" where
  "store_tx tx c = c\<lparr>c_txs := tree_insert (tx_id tx) tx (c_txs c)\<rparr>"

definition set_tip :: "block \<Rightarrow> chain \<Rightarrow> chain" where
  "set_tip b c = c\<lparr>c_blocks := tree_insert (b_height b) b (c_blocks c),
                   c_tip_height := Some (b_height b), c_tip_hash := Some (b_hash b)\<rparr>"

definition mint_genesis_tx :: "transaction \<Rightarrow> chain \<Rightarrow> chain" where
  "mint_genesis_tx tx c =
     (let current = get_balance c (tx_to tx)
      in store_tx tx (set_balance_raw (tx_to tx) (current + tx_amount tx) c))"

definition write_genesis :: "block \<Rightarrow> chain \<Rightarrow> chain" where
  "write_genesis g c =
     fold mint_genesis_tx (b_transactions g)
       (c\<lparr>c_blocks := tree_insert 0 g (c_blocks c), c_tip_height := Some 0,
          c_tip_hash := Some (b_hash g)\<rparr>)"

definition store_open :: "primitives \<Rightarrow> chain \<Rightarrow> chain" where
  "store_open p c = (if get_block c 0 = None then write_genesis (genesis_block p) c else c)"

section \<open>Block application\<close>

datatype store_error =
    Height_mismatch u64 u64
  | Prev_hash_mismatch
  | Nonce_invalid string u64 u64
  | Insufficient_balance string u64 u64

text \<open>The validate pass keeps the nonces and debits of the block so far.\<close>

type_synonym in_block = "(string, u64) tree \<times> (string, u64) tree"

definition spendable_balance :: "chain \<Rightarrow> transaction \<Rightarrow> u64" where
  "spendable_balance c tx =
     (if tx_from tx = FOUNDER_ADDRESS then founder_total_balance (tx_timestamp tx)
      else get_balance c (tx_from tx))"

definition check_tx :: "chain \<Rightarrow> transaction \<Rightarrow> in_block \<Rightarrow> (in_block, store_error) res" where
  "check_tx c tx st =
     (let (nonces, debits) = st in
      if tx_from tx = ''GENESIS'' \<or> is_consensus_pool_address (tx_from tx) then Ok (nonces, debits)
      else
        let expected_nonce = get_nonce c (tx_from tx) + u64_from_tree nonces (tx_from tx) in
        if tx_nonce tx \<noteq> expected_nonce then
          res_bind (str_slice_to (tx_id tx) 8) (\<lambda>i. Err (Nonce_invalid i expected_nonce (tx_nonce tx)))
        else
          let nonces' = tree_insert (tx_from tx) (u64_from_tree nonces (tx_from tx) + 1) nonces;
              total_cost = tx_amount tx + tx_fee tx;
              already_spent = u64_from_tree debits (tx_from tx)
          in
          if spendable_balance c tx < already_spent + total_cost then
            res_bind (str_slice_to (tx_id tx) 8)
              (\<lambda>i. Err (Insufficient_balance i (spendable_balance c tx) total_cost))
          else Ok (nonces', tree_insert (tx_from tx) (already_spent + total_cost) debits))"

definition apply_tx :: "string \<Rightarrow> transaction \<Rightarrow> chain \<Rightarrow> chain" where
  "apply_tx validator tx c =
     store_tx tx
      (if tx_from tx = ''GENESIS'' then
         set_balance_raw (tx_to tx) (get_balance c (tx_to tx) + tx_amount tx) c
       else if is_consensus_pool_address (tx_from tx) then
         let pool_bal = get_balance c (tx_from tx);
             c1 = set_balance_raw (tx_from tx) (saturating_sub pool_bal (tx_amount tx)) c
         in set_balance_raw (tx_to tx) (get_balance c1 (tx_to tx) + tx_amount tx) c1
       else
         let bal = get_balance c (tx_from tx);
             c1 = set_balance_raw (tx_from tx) (bal - tx_amount tx - tx_fee tx) c;
             c2 = set_nonce_raw (tx_from tx) (get_nonce c1 (tx_from tx) + 1) c1;
             c3 = (if tx_fee tx > 0 \<and> validator \<noteq> ''GENESIS''
                   then set_balance_raw validator (get_balance c2 validator + tx_fee tx) c2 else c2)
         in set_balance_raw (tx_to tx) (get_balance c3 (tx_to tx) + tx_amount tx) c3)"

definition commit_block :: "block \<Rightarrow> chain \<Rightarrow> chain" where
  "commit_block b c = set_tip b (fold (apply_tx (b_validator b)) (b_transactions b) c)"

definition apply_block :: "chain \<Rightarrow> block \<Rightarrow> (chain, store_error) res" where
  "apply_block c b =
     (let cur_height = chain_height c in
      if b_height b \<noteq> cur_height + 1 then Err (Height_mismatch (cur_height + 1) (b_height b))
      else if b_prev_hash b \<noteq> tip_hash c then Err Prev_hash_mismatch
      else res_bind (res_fold (check_tx c) (b_transactions b) ([], []))
             (\<lambda>_. Ok (commit_block b c)))"

section \<open>The shape of the writes\<close>

named_theorems chain_simps \<open>reads of the chain after a write\<close>

lemma u64_from_tree_insert [chain_simps]:
  "u64_from_tree (tree_insert k v t) k' = (if k' = k then v else u64_from_tree t k')"
  by (simp add: u64_from_tree_def tree_simps)

lemma u64_from_tree_Nil [chain_simps]: "u64_from_tree [] k = 0"
  by (simp add: u64_from_tree_def tree_simps)

lemma get_balance_writes [chain_simps]:
  "get_balance (set_balance_raw a v c) x = (if x = a then v else get_balance c x)"
  "get_balance (set_nonce_raw a n c) x = get_balance c x"
  "get_balance (store_tx tx c) x = get_balance c x"
  "get_balance (set_tip b c) x = get_balance c x"
  by (simp_all add: get_balance_def set_balance_raw_def set_nonce_raw_def store_tx_def set_tip_def
      chain_simps)

lemma get_nonce_writes [chain_simps]:
  "get_nonce (set_balance_raw a v c) x = get_nonce c x"
  "get_nonce (set_nonce_raw a n c) x = (if x = a then n else get_nonce c x)"
  "get_nonce (store_tx tx c) x = get_nonce c x"
  "get_nonce (set_tip b c) x = get_nonce c x"
  by (simp_all add: get_nonce_def set_balance_raw_def set_nonce_raw_def store_tx_def set_tip_def
      chain_simps)

lemma blocks_writes [chain_simps]:
  "c_blocks (set_balance_raw a v c) = c_blocks c" "c_blocks (set_nonce_raw a n c) = c_blocks c"
  "c_blocks (store_tx tx c) = c_blocks c"
  "c_tip_height (set_balance_raw a v c) = c_tip_height c"
  "c_tip_height (set_nonce_raw a n c) = c_tip_height c" "c_tip_height (store_tx tx c) = c_tip_height c"
  "c_tip_hash (set_balance_raw a v c) = c_tip_hash c" "c_tip_hash (set_nonce_raw a n c) = c_tip_hash c"
  "c_tip_hash (store_tx tx c) = c_tip_hash c"
  by (simp_all add: set_balance_raw_def set_nonce_raw_def store_tx_def)

lemma txs_writes [chain_simps]:
  "c_txs (set_balance_raw a v c) = c_txs c" "c_txs (set_nonce_raw a n c) = c_txs c"
  "c_txs (store_tx tx c) = tree_insert (tx_id tx) tx (c_txs c)" "c_txs (set_tip b c) = c_txs c"
  by (simp_all add: set_balance_raw_def set_nonce_raw_def store_tx_def set_tip_def)

lemma tip_writes [chain_simps]:
  "chain_height (set_tip b c) = b_height b" "tip_hash (set_tip b c) = b_hash b"
  "c_blocks (set_tip b c) = tree_insert (b_height b) b (c_blocks c)"
  by (simp_all add: set_tip_def chain_height_def tip_hash_def)

lemma apply_tx_frame [chain_simps]:
  "c_blocks (apply_tx v tx c) = c_blocks c" "c_tip_height (apply_tx v tx c) = c_tip_height c"
  "c_tip_hash (apply_tx v tx c) = c_tip_hash c"
  "c_txs (apply_tx v tx c) = tree_insert (tx_id tx) tx (c_txs c)"
  by (simp_all add: apply_tx_def Let_def chain_simps)

lemma fold_apply_tx_frame [chain_simps]:
  "c_blocks (fold (apply_tx v) txs c) = c_blocks c"
  "c_tip_height (fold (apply_tx v) txs c) = c_tip_height c"
  "c_tip_hash (fold (apply_tx v) txs c) = c_tip_hash c"
  "c_txs (fold (apply_tx v) txs c) = fold (\<lambda>tx. tree_insert (tx_id tx) tx) txs (c_txs c)"
  by (induction txs arbitrary: c) (simp_all add: chain_simps)

lemma apply_block_OkE:
  assumes "apply_block c b = Ok c'"
  obtains st where "b_height b = chain_height c + 1" "b_prev_hash b = tip_hash c"
    "res_fold (check_tx c) (b_transactions b) ([], []) = Ok st" "c' = commit_block b c"
  using assms by (auto simp: apply_block_def Let_def res_simps split: if_splits)

end
