(* ===== verification/Mempool.thy ===== *)
theory Mempool
  imports ChainStore
begin

text \<open>
  \<^verbatim>\<open>src/src/mempool.rs\<close>: the pool of pending transactions, keyed by their id. The order in which the hash
  map yields its values is not fixed by the language; it is the argument \<open>order\<close> of the operations
  that list them, and \<open>iteration_order\<close> says what is known of it. Each operation is one atomic step.
\<close>

definition MAX_SIZE :: nat where "MAX_SIZE = 10000"
definition MAX_AGE_MS :: u64 where "MAX_AGE_MS = 3600000"

type_synonym mempool = "(string, transaction) tree"

datatype mempool_error =
    Rejected tx_error
  | Mempool_full
  | Already_in_mempool
  | Already_confirmed
  | Mempool_nonce_invalid u64 u64
  | Mempool_insufficient_balance u64

definition mempool_new :: mempool where "mempool_new = []"

definition mempool_add :: "primitives \<Rightarrow> transaction \<Rightarrow> chain \<Rightarrow> mempool \<Rightarrow> (mempool, mempool_error) res" where
  "mempool_add p tx c m =
     (case validate_basic p tx of
        Err e \<Rightarrow> Err (Rejected e)
      | Panic \<Rightarrow> Panic
      | Ok _ \<Rightarrow>
          if MAX_SIZE \<le> length m then Err Mempool_full
          else if tree_get m (tx_id tx) \<noteq> None then Err Already_in_mempool
          else if tx_exists c (tx_id tx) then Err Already_confirmed
          else if tx_from tx \<noteq> ''GENESIS'' \<and> tx_nonce tx \<noteq> get_nonce c (tx_from tx) then
            Err (Mempool_nonce_invalid (get_nonce c (tx_from tx)) (tx_nonce tx))
          else if tx_from tx \<noteq> ''GENESIS'' \<and> get_balance c (tx_from tx) < tx_amount tx + tx_fee tx then
            Err (Mempool_insufficient_balance (get_balance c (tx_from tx)))
          else Ok (tree_insert (tx_id tx) tx m))"

definition take_for_block :: "(transaction list \<Rightarrow> transaction list) \<Rightarrow> nat \<Rightarrow> mempool \<Rightarrow> transaction list" where
  "take_for_block order limit m = take limit (sort_key (\<lambda>tx. - uint (tx_fee tx)) (order (tree_values m)))"

definition remove_confirmed :: "string list \<Rightarrow> mempool \<Rightarrow> mempool" where
  "remove_confirmed ids m = fold tree_remove ids m"

definition evict_expired :: "u64 \<Rightarrow> mempool \<Rightarrow> mempool" where
  "evict_expired now m = filter (\<lambda>(_, tx). saturating_sub now (tx_timestamp tx) < MAX_AGE_MS) m"

definition mempool_size :: "mempool \<Rightarrow> nat" where "mempool_size m = length m"

definition mempool_all :: "(transaction list \<Rightarrow> transaction list) \<Rightarrow> mempool \<Rightarrow> transaction list" where
  "mempool_all order m = order (tree_values m)"

section \<open>The invariant\<close>

text \<open>Bounded, keyed by the transactions' own ids, and holding nothing that the stateless checks reject.\<close>

definition mempool_ok :: "primitives \<Rightarrow> mempool \<Rightarrow> bool" where
  "mempool_ok p m \<longleftrightarrow> tree_wf m \<and> length m \<le> MAX_SIZE \<and>
     (\<forall>e \<in> set m. tx_id (snd e) = fst e \<and> validate_basic p (snd e) = Ok ())"

lemma mempool_ok_new: "mempool_ok p mempool_new"
  by (simp add: mempool_ok_def mempool_new_def)

lemma mempool_add_Ok:
  assumes "mempool_add p tx c m = Ok m'"
  shows "m' = tree_insert (tx_id tx) tx m" "validate_basic p tx = Ok ()" "length m < MAX_SIZE"
    "tree_get m (tx_id tx) = None" "\<not> tx_exists c (tx_id tx)"
    "tx_from tx \<noteq> ''GENESIS'' \<Longrightarrow> tx_nonce tx = get_nonce c (tx_from tx)"
    "tx_from tx \<noteq> ''GENESIS'' \<Longrightarrow> tx_amount tx + tx_fee tx \<le> get_balance c (tx_from tx)"
  using assms by (auto simp: mempool_add_def split: res.splits if_splits)

lemma mempool_ok_add:
  assumes "mempool_ok p m" "mempool_add p tx c m = Ok m'"
  shows "mempool_ok p m'"
proof -
  note ok = mempool_add_Ok [OF assms(2)]
  have "length m' \<le> MAX_SIZE"
    using ok(1,3) length_tree_insert_le [of "tx_id tx" tx m] by simp
  moreover have "set m' \<subseteq> insert (tx_id tx, tx) (set m)"
    unfolding ok(1) by (rule set_tree_insert_subset)
  moreover have "tree_wf m'" using assms(1) ok(1) by (simp add: mempool_ok_def tree_wf_insert)
  ultimately show ?thesis using assms(1) ok(2) unfolding mempool_ok_def by fastforce
qed

lemma mempool_ok_filter: "mempool_ok p m \<Longrightarrow> mempool_ok p (filter P m)"
  unfolding mempool_ok_def by (auto intro: le_trans [OF length_filter_le])

lemma mempool_ok_remove: "mempool_ok p m \<Longrightarrow> mempool_ok p (remove_confirmed ids m)"
  unfolding remove_confirmed_def
  by (induction ids arbitrary: m) (simp_all add: tree_remove_def mempool_ok_filter)

lemma mempool_ok_evict: "mempool_ok p m \<Longrightarrow> mempool_ok p (evict_expired now m)"
  unfolding evict_expired_def by (rule mempool_ok_filter)

lemma remove_confirmed_get:
  "tree_get (remove_confirmed ids m) i = (if i \<in> set ids then None else tree_get m i)"
  unfolding remove_confirmed_def by (rule tree.get_fold_rem)

section \<open>Selection for a block\<close>

lemma set_take_for_block:
  assumes "iteration_order order"
  shows "set (take_for_block order limit m) \<subseteq> set (tree_values m)"
proof -
  have "set (order (tree_values m)) = set (tree_values m)"
    using assms by (intro mset_eq_setD) (simp add: iteration_order_def)
  then show ?thesis
    using set_take_subset [of limit "sort_key (\<lambda>tx. - uint (tx_fee tx)) (order (tree_values m))"]
    by (simp add: take_for_block_def)
qed

lemma mempool_ids_distinct:
  assumes "mempool_ok p m"
  shows "map tx_id (tree_values m) = map fst m" "distinct (map tx_id (tree_values m))"
proof -
  show eq: "map tx_id (tree_values m) = map fst m"
    using assms by (auto simp: mempool_ok_def tree_values_def)
  show "distinct (map tx_id (tree_values m))"
    using assms unfolding eq by (simp add: mempool_ok_def tree_wf_distinct)
qed

lemma distinct_take_for_block:
  assumes "mempool_ok p m" "iteration_order order"
  shows "distinct (map tx_id (take_for_block order limit m))"
proof -
  let ?s = "sort_key (\<lambda>tx. - uint (tx_fee tx)) (order (tree_values m))"
  have "mset (map tx_id ?s) = mset (map tx_id (tree_values m))"
    using assms(2) by (simp add: iteration_order_def)
  then have "distinct (map tx_id ?s)"
    using mempool_ids_distinct(2) [OF assms(1)] by (metis mset_eq_imp_distinct_iff)
  then show ?thesis by (simp add: take_for_block_def take_map [symmetric] distinct_take)
qed

text \<open>
  Selection takes the best-paying transactions: at most \<open>limit\<close> of them, each once, in falling
  order of their fee; and when a pending transaction is left out, the limit is reached and no
  selected transaction pays less.
\<close>

lemma take_for_block_best:
  assumes "mempool_ok p m" "iteration_order order"
  shows "length (take_for_block order limit m) = min limit (length m) \<and>
    distinct (map tx_id (take_for_block order limit m)) \<and>
    sorted_wrt (\<lambda>a b. tx_fee b \<le> tx_fee a) (take_for_block order limit m) \<and>
    (\<forall>tx \<in> set (tree_values m) - set (take_for_block order limit m).
       \<forall>s \<in> set (take_for_block order limit m). tx_fee tx \<le> tx_fee s)"
proof -
  let ?key = "\<lambda>tx. - uint (tx_fee tx)"
  let ?s = "sort_key ?key (order (tree_values m))"
  have ms: "mset ?s = mset (tree_values m)" using assms(2) by (simp add: iteration_order_def)
  then have len: "length ?s = length m" by (metis size_mset length_map tree_values_def)
  have "sorted (map ?key ?s)" by (rule sorted_sort_key)
  then have srt: "sorted_wrt (\<lambda>a b. tx_fee b \<le> tx_fee a) ?s"
    by (simp add: sorted_wrt_map word_le_def)
  then have split: "sorted_wrt (\<lambda>a b. tx_fee b \<le> tx_fee a) (take limit ?s @ drop limit ?s)"
    by simp
  have "tx_fee tx \<le> tx_fee s"
    if "tx \<in> set (tree_values m)" "tx \<notin> set (take limit ?s)" "s \<in> set (take limit ?s)" for tx s
  proof -
    have "tx \<in> set ?s" using that(1) ms by (metis set_mset_mset)
    then have "tx \<in> set (drop limit ?s)" using that(2) by (metis UnE append_take_drop_id set_append)
    then show ?thesis using split that(3) unfolding sorted_wrt_append by blast
  qed
  then show ?thesis
    using split len distinct_take_for_block [OF assms, of limit]
    unfolding sorted_wrt_append take_for_block_def by (simp add: min.commute)
qed

definition sample_mempool :: mempool where
  "sample_mempool = [(''a'', gtx ''a'' ''ARLPhb'' 5 []), (''b'', (gtx ''b'' ''ARLPhc'' 6 [])\<lparr>tx_fee := 9\<rparr>)]"

lemma take_for_block_best_sample:
  "length (take_for_block (\<lambda>xs. xs) 1 sample_mempool) = 1 \<and>
   sorted_wrt (\<lambda>a b. tx_fee b \<le> tx_fee a) (take_for_block (\<lambda>xs. xs) 1 sample_mempool)"
proof -
  have "mempool_ok sample_primitives sample_mempool"
    by (simp add: mempool_ok_def sample_mempool_def tree_wf_def validate_basic_def gtx_def MAX_SIZE_def less_char_def)
  then show ?thesis
    using take_for_block_best [of sample_primitives sample_mempool "\<lambda>xs. xs" 1]
    by (simp add: iteration_order_def sample_mempool_def)
qed

end
