(* ===== verification/BalanceBook.thy ===== *)
theory BalanceBook
  imports Prelude
begin

text \<open>
  The interface between the ledger of balances and the code that moves value through it: a
  balance per account, a raw write, and the total they add up to. The effect of a debit, a
  saturating debit and a credit on the total is proved once from these laws.
\<close>

locale balance_book =
  fixes bal :: "'s \<Rightarrow> 'a \<Rightarrow> u64"
    and setb :: "'a \<Rightarrow> u64 \<Rightarrow> 's \<Rightarrow> 's"
    and total :: "'s \<Rightarrow> nat"
    and wf :: "'s \<Rightarrow> bool"
  assumes bal_set: "bal (setb a v s) x = (if x = a then v else bal s x)"
    and total_set: "wf s \<Longrightarrow> total (setb a v s) + unat (bal s a) = total s + unat v"
    and bal_le_total: "wf s \<Longrightarrow> unat (bal s a) \<le> total s"
    and wf_set: "wf s \<Longrightarrow> wf (setb a v s)"
begin

lemma credit_bal:
  assumes "wf s" "total s + unat v < 2 ^ 64"
  shows "unat (bal s a + v) = unat (bal s a) + unat v"
  using assms bal_le_total [OF assms(1), of a] by (intro unat_add_no_wrap) simp

lemma credit_total:
  assumes "wf s" "total s + unat v < 2 ^ 64"
  shows "total (setb a (bal s a + v) s) = total s + unat v"
  using total_set [OF assms(1), of a "bal s a + v"] credit_bal [OF assms, of a] by simp

lemma debit_total:
  assumes "wf s" "unat v \<le> unat (bal s a)"
  shows "total (setb a (bal s a - v) s) + unat v = total s"
  using total_set [OF assms(1), of a "bal s a - v"] assms(2) by (simp add: unat_sub_no_wrap)

lemma saturating_debit_total:
  assumes "wf s"
  shows "total (setb a (saturating_sub (bal s a) v) s) = total s - min (unat v) (unat (bal s a))"
  using total_set [OF assms, of a "saturating_sub (bal s a) v"] bal_le_total [OF assms, of a]
  by (simp add: unat_saturating_sub)

text \<open>A transfer that the source account covers keeps the total.\<close>

lemma transfer_total:
  assumes "wf s" "total s < 2 ^ 64" "unat v \<le> unat (bal s a)"
    "s1 = setb a (bal s a - v) s" "s2 = setb b (bal s1 b + v) s1"
  shows "total s2 = total s" "wf s2"
proof -
  have w1: "wf s1" using assms by (simp add: wf_set)
  have t1: "total s1 + unat v = total s" using debit_total [OF assms(1,3)] assms(4) by simp
  then have "total s1 + unat v < 2 ^ 64" using assms(2) by simp
  then have "total s2 = total s1 + unat v" using credit_total [OF w1] assms(5) by simp
  with t1 show "total s2 = total s" by simp
  show "wf s2" using w1 assms(5) by (simp add: wf_set)
qed

end

end
