(* ===== verification/ChainLedger.thy ===== *)
theory ChainLedger
  imports ChainStore BalanceBook
begin

text \<open>
  What \<open>apply_block\<close> does to the ledger: the total of all balances, the nonces, and the stored
  transactions. The chain store provides the balance-book interface, and the two passes of
  \<open>apply_block\<close> are related through the per-account sums below.
\<close>

section \<open>The chain store as a balance book\<close>

definition chain_wf :: "chain \<Rightarrow> bool" where
  "chain_wf c \<longleftrightarrow> tree_wf (c_balances c) \<and> tree_wf (c_nonces c) \<and> tree_wf (c_txs c) \<and> tree_wf (c_blocks c)"

definition total_supply :: "chain \<Rightarrow> nat" where
  "total_supply c = sum_list (map (\<lambda>e. unat (snd e)) (c_balances c))"

lemma sum_tree_insert:
  "tree_wf t \<Longrightarrow> sum_list (map (\<lambda>e. unat (snd e)) (tree_insert k v t)) + unat (u64_from_tree t k)
     = sum_list (map (\<lambda>e. unat (snd e)) t) + unat v"
proof (induction k v t rule: tree_insert.induct)
  case (1 k v)
  then show ?case by (simp add: u64_from_tree_def tree_simps)
next
  case (2 k v k' v' t)
  have "tree_get t k = None" if "k < k'"
    using that "2.prems" by (auto simp: tree_wf_Cons tree_get_None_iff)
  with 2 show ?case by (auto simp: u64_from_tree_def tree_simps tree_wf_Cons)
qed

lemma member_le_sum_tree: "unat (u64_from_tree t k) \<le> sum_list (map (\<lambda>e. unat (snd e)) t)"
  by (induction t) (auto simp: u64_from_tree_def tree_simps)

interpretation book: balance_book get_balance set_balance_raw total_supply chain_wf
proof
  show "get_balance (set_balance_raw a v s) x = (if x = a then v else get_balance s x)" for a v s x
    by (simp add: chain_simps)
  show "total_supply (set_balance_raw a v s) + unat (get_balance s a) = total_supply s + unat v"
    if "chain_wf s" for s a v
    using that sum_tree_insert [of "c_balances s" a v]
    by (simp add: total_supply_def set_balance_raw_def get_balance_def chain_wf_def)
  show "unat (get_balance s a) \<le> total_supply s" if "chain_wf s" for s a
    by (simp add: get_balance_def total_supply_def member_le_sum_tree)
  show "chain_wf (set_balance_raw a v s)" if "chain_wf s" for s a v
    using that by (auto simp: chain_wf_def set_balance_raw_def)
qed

lemma supply_frame [chain_simps]:
  "total_supply (set_nonce_raw a n c) = total_supply c" "total_supply (store_tx tx c) = total_supply c"
  "total_supply (set_tip b c) = total_supply c"
  by (simp_all add: total_supply_def set_nonce_raw_def store_tx_def set_tip_def)

lemma chain_wf_writes [simp, intro]:
  "chain_wf c \<Longrightarrow> chain_wf (set_nonce_raw a n c)" "chain_wf c \<Longrightarrow> chain_wf (store_tx tx c)"
  "chain_wf c \<Longrightarrow> chain_wf (set_tip b c)" "chain_wf c \<Longrightarrow> chain_wf (set_balance_raw a v c)"
  by (auto simp: chain_wf_def set_nonce_raw_def store_tx_def set_tip_def set_balance_raw_def)

lemma chain_wf_apply_tx: "chain_wf c \<Longrightarrow> chain_wf (apply_tx v tx c)"
  by (simp add: apply_tx_def Let_def)

lemma chain_wf_fold_apply_tx: "chain_wf c \<Longrightarrow> chain_wf (fold (apply_tx v) txs c)"
  by (induction txs arbitrary: c) (auto intro: chain_wf_apply_tx)

lemma chain_wf_apply_block: "chain_wf c \<Longrightarrow> apply_block c b = Ok c' \<Longrightarrow> chain_wf c'"
  by (auto elim!: apply_block_OkE simp: commit_block_def chain_wf_fold_apply_tx)

section \<open>Sums over the transactions of a block\<close>

definition tx_cost :: "transaction \<Rightarrow> nat" where
  "tx_cost tx = unat (tx_amount tx) + (if is_user_tx tx then unat (tx_fee tx) else 0)"

definition outgoing :: "transaction list \<Rightarrow> string \<Rightarrow> nat" where
  "outgoing txs a = sum_list (map tx_cost (filter (\<lambda>tx. tx_from tx = a) txs))"

definition user_count :: "transaction list \<Rightarrow> string \<Rightarrow> nat" where
  "user_count txs a = length (filter (\<lambda>tx. is_user_tx tx \<and> tx_from tx = a) txs)"

definition sane_tx :: "transaction \<Rightarrow> bool" where
  "sane_tx tx \<longleftrightarrow> unat (tx_amount tx) + unat (tx_fee tx) < 2 ^ 63"

lemma outgoing_simps [simp]:
  "outgoing [] a = 0"
  "outgoing (tx # txs) a = (if tx_from tx = a then tx_cost tx else 0) + outgoing txs a"
  "outgoing (xs @ ys) a = outgoing xs a + outgoing ys a"
  by (simp_all add: outgoing_def)

lemma user_count_simps [simp]:
  "user_count [] a = 0"
  "user_count (tx # txs) a = (if is_user_tx tx \<and> tx_from tx = a then 1 else 0) + user_count txs a"
  "user_count (xs @ ys) a = user_count xs a + user_count ys a"
  by (simp_all add: user_count_def)

section \<open>The write pass\<close>

text \<open>The specification of a transaction: unbounded balances, moved from account to account.\<close>

definition abs_balances :: "chain \<Rightarrow> string \<Rightarrow> int" where
  "abs_balances c a = int (unat (get_balance c a))"

definition move :: "string \<Rightarrow> int \<Rightarrow> (string \<Rightarrow> int) \<Rightarrow> string \<Rightarrow> int" where
  "move a v f = f(a := f a + v)"

definition abs_tx :: "string \<Rightarrow> transaction \<Rightarrow> (string \<Rightarrow> int) \<Rightarrow> string \<Rightarrow> int" where
  "abs_tx validator tx f =
     move (tx_to tx) (int (unat (tx_amount tx)))
       (move validator (if is_user_tx tx then int (unat (tx_fee tx)) else 0)
         (move (tx_from tx) (- int (tx_cost tx)) f))"

lemma abs_balances_set: "abs_balances (set_balance_raw a v c) = (abs_balances c)(a := int (unat v))"
  by (auto simp: abs_balances_def chain_simps)

lemma abs_balances_frame [chain_simps]:
  "abs_balances (set_nonce_raw a n c) = abs_balances c" "abs_balances (store_tx tx c) = abs_balances c"
  "abs_balances (set_tip b c) = abs_balances c"
  by (auto simp: abs_balances_def chain_simps)

lemma abs_credit:
  assumes "chain_wf c" "total_supply c + unat v < 2 ^ 64"
  shows "abs_balances (set_balance_raw a (get_balance c a + v) c) = move a (int (unat v)) (abs_balances c)"
  using book.credit_bal [OF assms, of a] by (simp add: abs_balances_set move_def) (simp add: abs_balances_def)

lemma move_0 [simp]: "move a 0 f = f"
  by (simp add: move_def)

text \<open>
  One transaction whose sender covers it keeps the total; no other account than the sender loses
  value, and the sender loses no more than the transaction costs.
\<close>

lemma apply_user_tx:
  assumes wf: "chain_wf c" and sup: "total_supply c < 2 ^ 64" and user: "is_user_tx tx"
    and cov: "tx_cost tx \<le> unat (get_balance c (tx_from tx))" and val: "validator \<noteq> ''GENESIS''"
  shows "total_supply (apply_tx validator tx c) = total_supply c"
    "unat (get_balance c a) \<le> unat (get_balance (apply_tx validator tx c) a) + (if tx_from tx = a then tx_cost tx else 0)"
    "abs_balances (apply_tx validator tx c) = abs_tx validator tx (abs_balances c)"
proof -
  let ?f = "tx_from tx"
  define c1 where "c1 = set_balance_raw ?f (get_balance c ?f - tx_amount tx - tx_fee tx) c"
  define c2 where "c2 = set_nonce_raw ?f (get_nonce c1 ?f + 1) c1"
  define c3 where "c3 = (if tx_fee tx > 0 \<and> validator \<noteq> ''GENESIS''
    then set_balance_raw validator (get_balance c2 validator + tx_fee tx) c2 else c2)"
  define c4 where "c4 = set_balance_raw (tx_to tx) (get_balance c3 (tx_to tx) + tx_amount tx) c3"
  have eq: "apply_tx validator tx c = store_tx tx c4"
    using user by (simp add: apply_tx_def is_user_tx_def Let_def c1_def c2_def c3_def c4_def)
  have cost: "unat (tx_amount tx) + unat (tx_fee tx) \<le> unat (get_balance c ?f)"
    using cov user by (simp add: tx_cost_def)
  have neg: "unat (get_balance c ?f - tx_amount tx - tx_fee tx)
      = unat (get_balance c ?f) - unat (tx_amount tx) - unat (tx_fee tx)"
    using cost by (simp add: unat_sub_no_wrap)
  have w1: "chain_wf c1" using wf by (simp add: c1_def book.wf_set)
  have s1: "total_supply c1 + unat (tx_amount tx) + unat (tx_fee tx) = total_supply c"
    using book.total_set [OF wf, of ?f "get_balance c ?f - tx_amount tx - tx_fee tx"] neg cost
    by (simp add: c1_def)
  have w2: "chain_wf c2" using w1 by (auto simp: c2_def)
  have s2: "total_supply c2 = total_supply c1" by (simp add: c2_def chain_simps)
  have fee: "total_supply c2 + unat (tx_fee tx) < 2 ^ 64" using s1 s2 sup by simp
  have w3: "chain_wf c3" using w2 by (auto simp: c3_def)
  have s3: "total_supply c3 = total_supply c2 + unat (tx_fee tx)"
    using book.credit_total [OF w2 fee] val by (auto simp: c3_def word_neq_0_conv [symmetric])
  have b3: "unat (get_balance c2 a) \<le> unat (get_balance c3 a)"
    using book.credit_bal [OF w2 fee] by (auto simp: c3_def chain_simps)
  have amt: "total_supply c3 + unat (tx_amount tx) < 2 ^ 64" using s1 s2 s3 sup by simp
  show "total_supply (apply_tx validator tx c) = total_supply c"
    using book.credit_total [OF w3 amt] s1 s2 s3 by (simp add: eq c4_def chain_simps)
  have b4: "unat (get_balance c3 a) \<le> unat (get_balance c4 a)"
    using book.credit_bal [OF w3 amt] by (auto simp: c4_def chain_simps)
  have b2: "unat (get_balance c a) \<le> unat (get_balance c2 a) + (if ?f = a then tx_cost tx else 0)"
    using neg user by (auto simp: c2_def c1_def chain_simps tx_cost_def)
  from b2 b3 b4
  show "unat (get_balance c a) \<le> unat (get_balance (apply_tx validator tx c) a) + (if ?f = a then tx_cost tx else 0)"
    by (simp add: eq chain_simps)
  have "abs_balances c1 = move ?f (- int (tx_cost tx)) (abs_balances c)"
    using neg cost user by (simp add: c1_def abs_balances_set move_def tx_cost_def)
       (simp add: abs_balances_def algebra_simps)
  moreover have "abs_balances c3 = move validator (int (unat (tx_fee tx))) (abs_balances c1)"
    using abs_credit [OF w2 fee, of validator] val
    by (auto simp: c3_def c2_def chain_simps word_neq_0_conv [symmetric])
  ultimately show "abs_balances (apply_tx validator tx c) = abs_tx validator tx (abs_balances c)"
    using abs_credit [OF w3 amt] user by (simp add: eq c4_def abs_tx_def chain_simps)
qed

lemma apply_pool_tx:
  assumes wf: "chain_wf c" and sup: "total_supply c < 2 ^ 64" and pool: "is_consensus_pool_address (tx_from tx)"
    and cov: "tx_cost tx \<le> unat (get_balance c (tx_from tx))"
  shows "total_supply (apply_tx validator tx c) = total_supply c"
    "unat (get_balance c a) \<le> unat (get_balance (apply_tx validator tx c) a) + (if tx_from tx = a then tx_cost tx else 0)"
    "abs_balances (apply_tx validator tx c) = abs_tx validator tx (abs_balances c)"
proof -
  let ?f = "tx_from tx"
  have ng: "?f \<noteq> ''GENESIS''" using pool by (auto simp: is_consensus_pool_address_def starts_with_def)
  have cost: "unat (tx_amount tx) \<le> unat (get_balance c ?f)"
    using cov by (simp add: tx_cost_def)
  define c1 where "c1 = set_balance_raw ?f (get_balance c ?f - tx_amount tx) c"
  define c2 where "c2 = set_balance_raw (tx_to tx) (get_balance c1 (tx_to tx) + tx_amount tx) c1"
  have eq: "apply_tx validator tx c = store_tx tx c2"
    using pool ng cost
    by (simp add: apply_tx_def Let_def c1_def c2_def saturating_sub_def word_le_nat_alt)
  show "total_supply (apply_tx validator tx c) = total_supply c"
    using book.transfer_total(1) [OF wf sup cost c1_def c2_def] by (simp add: eq chain_simps)
  have w1: "chain_wf c1" using wf by (simp add: c1_def book.wf_set)
  have "total_supply c1 + unat (tx_amount tx) = total_supply c"
    using book.debit_total [OF wf cost] by (simp add: c1_def)
  then have amt: "total_supply c1 + unat (tx_amount tx) < 2 ^ 64" using sup by simp
  then have "unat (get_balance c1 a) \<le> unat (get_balance c2 a)"
    using book.credit_bal [OF w1 amt] by (auto simp: c2_def chain_simps)
  moreover have "unat (get_balance c a) \<le> unat (get_balance c1 a) + (if ?f = a then tx_cost tx else 0)"
    using cost by (auto simp: c1_def chain_simps tx_cost_def unat_sub_no_wrap)
  ultimately show "unat (get_balance c a) \<le> unat (get_balance (apply_tx validator tx c) a) + (if ?f = a then tx_cost tx else 0)"
    by (simp add: eq chain_simps)
  have "\<not> is_user_tx tx" using pool by (simp add: is_user_tx_def)
  moreover have "abs_balances c1 = move ?f (- int (unat (tx_amount tx))) (abs_balances c)"
    using cost by (simp add: c1_def abs_balances_set move_def unat_sub_no_wrap)
      (simp add: abs_balances_def)
  ultimately show "abs_balances (apply_tx validator tx c) = abs_tx validator tx (abs_balances c)"
    using abs_credit [OF w1 amt] by (simp add: eq c2_def abs_tx_def tx_cost_def chain_simps)
qed

lemma write_pass_supply:
  assumes "chain_wf c" "total_supply c < 2 ^ 64" "validator \<noteq> ''GENESIS''"
    "\<forall>tx \<in> set txs. tx_from tx \<noteq> ''GENESIS''"
    "\<forall>a. outgoing txs a \<le> unat (get_balance c a)"
  shows "total_supply (fold (apply_tx validator) txs c) = total_supply c \<and>
    abs_balances (fold (apply_tx validator) txs c) = fold (abs_tx validator) txs (abs_balances c)"
  using assms
proof (induction txs arbitrary: c)
  case (Cons tx txs)
  have cov: "tx_cost tx \<le> unat (get_balance c (tx_from tx))"
    using Cons.prems(5) by (metis (full_types) outgoing_simps(2) le_add1 le_trans)
  have step: "total_supply (apply_tx validator tx c) = total_supply c \<and>
     (\<forall>a. unat (get_balance c a) \<le> unat (get_balance (apply_tx validator tx c) a)
        + (if tx_from tx = a then tx_cost tx else 0)) \<and>
     abs_balances (apply_tx validator tx c) = abs_tx validator tx (abs_balances c)"
  proof (cases "is_user_tx tx")
    case True
    then show ?thesis using apply_user_tx [OF Cons.prems(1,2) True cov Cons.prems(3)] by blast
  next
    case False
    then have "is_consensus_pool_address (tx_from tx)" using Cons.prems(4) by (simp add: is_user_tx_def)
    then show ?thesis using apply_pool_tx [OF Cons.prems(1,2) _ cov] by blast
  qed
  have "outgoing txs a \<le> unat (get_balance (apply_tx validator tx c) a)" for a
  proof -
    have "unat (get_balance c a) \<le> unat (get_balance (apply_tx validator tx c) a)
        + (if tx_from tx = a then tx_cost tx else 0)" using step by blast
    then show ?thesis using Cons.prems(5) [rule_format, of a] by (auto split: if_splits)
  qed
  then show ?case
    using Cons.IH [of "apply_tx validator tx c"] step Cons.prems by (simp add: chain_wf_apply_tx)
qed simp

section \<open>The validate pass\<close>

lemma check_tx_skip: "\<not> is_user_tx tx \<Longrightarrow> check_tx c tx st = Ok st"
  by (auto simp: check_tx_def is_user_tx_def split: prod.splits)

lemma check_tx_user_Ok:
  assumes "is_user_tx tx" "check_tx c tx (ns, ds) = Ok (ns', ds')"
  shows "tx_nonce tx = get_nonce c (tx_from tx) + u64_from_tree ns (tx_from tx)"
    "ns' = tree_insert (tx_from tx) (u64_from_tree ns (tx_from tx) + 1) ns"
    "u64_from_tree ds (tx_from tx) + (tx_amount tx + tx_fee tx) \<le> spendable_balance c tx"
    "ds' = tree_insert (tx_from tx) (u64_from_tree ds (tx_from tx) + (tx_amount tx + tx_fee tx)) ds"
  using assms by (auto simp: check_tx_def is_user_tx_def Let_def not_less res_simps split: if_splits)

lemma check_pass_nonces:
  assumes "res_fold (check_tx c) txs ([], []) = Ok (ns, ds)"
  shows "u64_from_tree ns a = of_nat (user_count txs a)"
  using assms
proof (induction txs arbitrary: ns ds rule: rev_induct)
  case Nil
  then show ?case by (simp add: chain_simps)
next
  case (snoc tx txs)
  then obtain ns0 ds0 where pre: "res_fold (check_tx c) txs ([], []) = Ok (ns0, ds0)"
    and last: "check_tx c tx (ns0, ds0) = Ok (ns, ds)"
    by (auto simp: res_simps)
  show ?case
  proof (cases "is_user_tx tx")
    case True
    from check_tx_user_Ok(2) [OF True last] snoc.IH [OF pre] True show ?thesis
      by (auto simp: chain_simps)
  next
    case False
    with last snoc.IH [OF pre] show ?thesis by (simp add: check_tx_skip)
  qed
qed

text \<open>The \<open>i\<close>-th transaction of a sender in an accepted block carries the sender's stored nonce plus \<open>i\<close>.\<close>

lemma check_pass_tx_nonce:
  assumes "res_fold (check_tx c) (xs @ tx # ys) ([], []) = Ok st" "is_user_tx tx"
  shows "tx_nonce tx = get_nonce c (tx_from tx) + of_nat (user_count xs (tx_from tx))"
proof -
  from assms(1) obtain ns ds ns' ds' where "res_fold (check_tx c) xs ([], []) = Ok (ns, ds)"
    and "check_tx c tx (ns, ds) = Ok (ns', ds')"
    by (auto simp: res_simps)
  then show ?thesis
    using check_tx_user_Ok(1) [OF assms(2)] check_pass_nonces by metis
qed

text \<open>The debits of the validate pass are the true sums, and each is within what may be spent.\<close>

lemma spendable_bound:
  assumes "chain_wf c" "total_supply c < 2 ^ 63"
  shows "unat (spendable_balance c tx) < 2 ^ 63"
proof (cases "tx_from tx = FOUNDER_ADDRESS")
  case True
  have "months_vested (unat (tx_timestamp tx)) \<le> 96" by (simp add: months_vested_def)
  with True show ?thesis
    by (simp add: spendable_balance_def founder_total_balance_exact)
next
  case False
  then show ?thesis
    using book.bal_le_total [OF assms(1), of "tx_from tx"] assms(2) by (simp add: spendable_balance_def)
qed

lemma check_pass_debits:
  assumes "chain_wf c" "total_supply c < 2 ^ 63" "\<forall>tx \<in> set txs. sane_tx tx"
    "res_fold (check_tx c) txs ([], []) = Ok (ns, ds)" "a \<noteq> ''GENESIS''" "\<not> is_consensus_pool_address a"
  shows "unat (u64_from_tree ds a) = outgoing txs a \<and> outgoing txs a < 2 ^ 63 \<and>
     (a \<noteq> FOUNDER_ADDRESS \<longrightarrow> outgoing txs a \<le> unat (get_balance c a))"
  using assms(3,4)
proof (induction txs arbitrary: ns ds rule: rev_induct)
  case Nil
  then show ?case by (simp add: chain_simps)
next
  case (snoc tx txs)
  then obtain ns0 ds0 where pre: "res_fold (check_tx c) txs ([], []) = Ok (ns0, ds0)"
    and last: "check_tx c tx (ns0, ds0) = Ok (ns, ds)"
    by (auto simp: res_simps)
  note IH = snoc.IH [OF _ pre]
  show ?case
  proof (cases "is_user_tx tx \<and> tx_from tx = a")
    case False
    have "tx_from tx \<noteq> a" using False assms(5,6) by (auto simp: is_user_tx_def)
    moreover have "u64_from_tree ds a = u64_from_tree ds0 a"
    proof (cases "is_user_tx tx")
      case True
      from check_tx_user_Ok(4) [OF True last] show ?thesis
        using \<open>tx_from tx \<noteq> a\<close> by (simp add: chain_simps)
    qed (use last in \<open>simp add: check_tx_skip\<close>)
    ultimately show ?thesis using IH snoc.prems(1) by simp
  next
    case True
    then have user: "is_user_tx tx" and fr: "tx_from tx = a" by auto
    have sane: "unat (tx_amount tx) + unat (tx_fee tx) < 2 ^ 63"
      using snoc.prems(1) by (simp add: sane_tx_def)
    have ih: "unat (u64_from_tree ds0 a) = outgoing txs a" "outgoing txs a < 2 ^ 63"
      using IH snoc.prems(1) by auto
    have "unat (tx_amount tx + tx_fee tx) = unat (tx_amount tx) + unat (tx_fee tx)"
      using sane by (intro unat_add_no_wrap) simp
    then have sum: "unat (u64_from_tree ds0 a + (tx_amount tx + tx_fee tx)) = outgoing (txs @ [tx]) a"
      using sane ih user fr by (subst unat_add_no_wrap) (auto simp: tx_cost_def)
    have le: "outgoing (txs @ [tx]) a \<le> unat (spendable_balance c tx)"
      using check_tx_user_Ok(3) [OF user last] sum fr by (simp add: word_le_nat_alt)
    show ?thesis
      using check_tx_user_Ok(4) [OF user last] sum le spendable_bound [OF assms(1,2), of tx] fr
      by (auto simp: chain_simps spendable_balance_def)
  qed
qed

end
