(* ===== verification/ChainProps.thy ===== *)
theory ChainProps
  imports ChainLedger
begin

text \<open>
  Properties of the chain store: the linked chain of blocks, nonces and replay, and the flow of
  value. \<open>abs_tx\<close> is the specification of one transaction over unbounded integers; the store's
  64-bit arithmetic implements it as long as every sender covers what it sends.
\<close>

section \<open>The linked chain\<close>

definition apply_blocks :: "block list \<Rightarrow> chain \<Rightarrow> (chain, store_error) res" where
  "apply_blocks = res_fold (\<lambda>b c. apply_block c b)"

text \<open>
  Heights \<open>0\<close> to the tip are all present, each block is stored under its own height, names the
  hash of its predecessor, and the recorded tip hash is the hash of the last block.
\<close>

definition block_at :: "chain \<Rightarrow> nat \<Rightarrow> block \<Rightarrow> bool" where
  "block_at c i b \<longleftrightarrow> get_block c (of_nat i) = Some b \<and> unat (b_height b) = i"

definition chain_linked :: "chain \<Rightarrow> bool" where
  "chain_linked c \<longleftrightarrow>
     (\<forall>i \<le> unat (chain_height c). \<exists>b. block_at c i b) \<and>
     (\<forall>i < unat (chain_height c). \<forall>b b'. block_at c i b \<longrightarrow> block_at c (Suc i) b' \<longrightarrow> b_prev_hash b' = b_hash b) \<and>
     (\<forall>b. block_at c (unat (chain_height c)) b \<longrightarrow> tip_hash c = b_hash b) \<and>
     (\<forall>h. chain_height c < h \<longrightarrow> get_block c h = None)"

lemma get_block_commit:
  "get_block (commit_block b c) h = (if h = b_height b then Some b else get_block c h)"
  by (simp add: get_block_def commit_block_def chain_simps tree_simps)

lemma commit_block_tip [chain_simps]:
  "chain_height (commit_block b c) = b_height b" "tip_hash (commit_block b c) = b_hash b"
  by (simp_all add: commit_block_def chain_simps)

lemma block_at_commit:
  assumes "b_height b = chain_height c + 1" "Suc (unat (chain_height c)) < 2 ^ 64"
    "i \<le> Suc (unat (chain_height c))"
  shows "block_at (commit_block b c) i x \<longleftrightarrow>
     (if i = Suc (unat (chain_height c)) then x = b else block_at c i x)"
proof -
  have suc: "unat (b_height b) = Suc (unat (chain_height c))"
    using assms(1,2) by (simp add: unat_add_no_wrap)
  have "of_nat i = b_height b \<longleftrightarrow> i = Suc (unat (chain_height c))"
    using assms(2,3) suc by (simp add: of_nat_u64_eq_iff)
  then show ?thesis using suc by (auto simp: block_at_def get_block_commit)
qed

lemma chain_linked_commit:
  assumes lk: "chain_linked c" and b: "b_height b = chain_height c + 1" "b_prev_hash b = tip_hash c"
    and room: "Suc (unat (chain_height c)) < 2 ^ 64"
  shows "chain_linked (commit_block b c)"
proof -
  note at = block_at_commit [OF b(1) room]
  have suc: "unat (b_height b) = Suc (unat (chain_height c))"
    using b(1) room by (simp add: unat_add_no_wrap)
  have links: "b_prev_hash y = b_hash x"
    if "i < Suc (unat (chain_height c))" "block_at (commit_block b c) i x"
      "block_at (commit_block b c) (Suc i) y" for i x y
    using that lk b(2) at [of i] at [of "Suc i"]
    by (cases "i = unat (chain_height c)") (auto simp: chain_linked_def less_Suc_eq)
  have above: "get_block (commit_block b c) h = None" if "b_height b < h" for h
  proof -
    have "chain_height c < h" using that suc by (simp add: word_less_nat_alt)
    with that lk show ?thesis by (auto simp: get_block_commit chain_linked_def)
  qed
  have "\<exists>x. block_at (commit_block b c) i x" if "i \<le> Suc (unat (chain_height c))" for i
    using at [OF that] lk that by (auto simp: chain_linked_def le_Suc_eq)
  moreover have "b_hash b = b_hash x" if "block_at (commit_block b c) (Suc (unat (chain_height c))) x" for x
    using that at [of "Suc (unat (chain_height c))"] by simp
  ultimately show ?thesis
    using links above unfolding chain_linked_def chain_simps suc by blast
qed

lemma chain_linked_apply_block:
  "chain_linked c \<Longrightarrow> apply_block c b = Ok c' \<Longrightarrow> Suc (unat (chain_height c)) < 2 ^ 64 \<Longrightarrow> chain_linked c'"
  by (auto elim!: apply_block_OkE intro: chain_linked_commit)

lemma apply_block_height:
  assumes "apply_block c b = Ok c'" "Suc (unat (chain_height c)) < 2 ^ 64"
  shows "unat (chain_height c') = Suc (unat (chain_height c))"
  using assms by (auto elim!: apply_block_OkE simp: chain_simps unat_add_no_wrap)

lemma apply_blocks_simps [simp]:
  "apply_blocks [] c = Ok c"
  "apply_blocks (b # bs) c = res_bind (apply_block c b) (apply_blocks bs)"
  by (simp_all add: apply_blocks_def)

lemma chain_linked_apply_blocks:
  "chain_linked c \<Longrightarrow> apply_blocks bs c = Ok c' \<Longrightarrow> unat (chain_height c) + length bs < 2 ^ 64 \<Longrightarrow>
   chain_linked c' \<and> unat (chain_height c') = unat (chain_height c) + length bs"
proof (induction bs arbitrary: c)
  case (Cons b bs)
  then obtain c1 where "apply_block c b = Ok c1" "apply_blocks bs c1 = Ok c'"
    by (auto simp: res_simps)
  with Cons chain_linked_apply_block [of c b c1] apply_block_height [of c b c1] show ?case by simp
qed simp

section \<open>The genesis state\<close>

lemma fold_mint_frame [chain_simps]:
  "c_blocks (fold mint_genesis_tx txs c) = c_blocks c"
  "c_tip_height (fold mint_genesis_tx txs c) = c_tip_height c"
  "c_tip_hash (fold mint_genesis_tx txs c) = c_tip_hash c"
  "c_nonces (fold mint_genesis_tx txs c) = c_nonces c"
  by (induction txs arbitrary: c)
     (simp_all add: mint_genesis_tx_def Let_def set_balance_raw_def store_tx_def)

lemma store_open_linked: "chain_linked (store_open p empty_chain)"
  by (auto simp: chain_linked_def block_at_def store_open_def write_genesis_def empty_chain_def
      get_block_def chain_height_def tip_hash_def chain_simps tree_simps genesis_block_fields)

abbreviation genesis_chain :: "primitives \<Rightarrow> chain" where
  "genesis_chain p \<equiv> store_open p empty_chain"

lemma genesis_chain_tip:
  "chain_height (genesis_chain p) = 0" "tip_hash (genesis_chain p) = b_hash (genesis_block p)"
  "get_nonce (genesis_chain p) a = 0"
  by (simp_all add: store_open_def write_genesis_def empty_chain_def get_block_def chain_height_def
      tip_hash_def get_nonce_def u64_from_tree_def chain_simps tree_simps)

lemma get_balance_mint:
  "get_balance (mint_genesis_tx tx c) a = (if a = tx_to tx then get_balance c a + tx_amount tx else get_balance c a)"
  by (simp add: mint_genesis_tx_def Let_def chain_simps)

lemma chain_wf_mint: "chain_wf c \<Longrightarrow> chain_wf (mint_genesis_tx tx c)"
  by (simp add: mint_genesis_tx_def Let_def)

lemma chain_wf_fold_mint: "chain_wf c \<Longrightarrow> chain_wf (fold mint_genesis_tx txs c)"
  by (induction txs arbitrary: c) (auto intro: chain_wf_mint)

lemma total_supply_mint:
  assumes "chain_wf c" "total_supply c + unat (tx_amount tx) < 2 ^ 64"
  shows "total_supply (mint_genesis_tx tx c) = total_supply c + unat (tx_amount tx)"
  using book.credit_total [OF assms] by (simp add: mint_genesis_tx_def Let_def chain_simps)

lemma total_supply_fold_mint:
  "chain_wf c \<Longrightarrow> total_supply c + sum_list (map (\<lambda>tx. unat (tx_amount tx)) txs) < 2 ^ 64 \<Longrightarrow>
   total_supply (fold mint_genesis_tx txs c) = total_supply c + sum_list (map (\<lambda>tx. unat (tx_amount tx)) txs)"
  by (induction txs arbitrary: c) (auto simp: chain_wf_mint total_supply_mint)

lemma genesis_start:
  "\<exists>c0. chain_wf c0 \<and> total_supply c0 = 0 \<and> (\<forall>a. get_balance c0 a = 0) \<and> genesis_chain p = fold mint_genesis_tx genesis_txs c0"
  by (auto simp: store_open_def write_genesis_def empty_chain_def get_block_def tree_simps chain_wf_def
      tree_wf_def total_supply_def get_balance_def u64_from_tree_def intro!: exI)

lemma addresses_distinct [simp]:
  "FOUNDER_ADDRESS \<noteq> MISSION_TREASURY_ADDRESS" "MISSION_TREASURY_ADDRESS \<noteq> FOUNDER_ADDRESS"
  "FOUNDER_ADDRESS \<noteq> PUBLIC_POOL_ADDRESS" "PUBLIC_POOL_ADDRESS \<noteq> FOUNDER_ADDRESS"
  "FOUNDER_ADDRESS \<noteq> NODE_OPS_POOL_ADDRESS" "NODE_OPS_POOL_ADDRESS \<noteq> FOUNDER_ADDRESS"
  "MISSION_TREASURY_ADDRESS \<noteq> PUBLIC_POOL_ADDRESS" "PUBLIC_POOL_ADDRESS \<noteq> MISSION_TREASURY_ADDRESS"
  "MISSION_TREASURY_ADDRESS \<noteq> NODE_OPS_POOL_ADDRESS" "NODE_OPS_POOL_ADDRESS \<noteq> MISSION_TREASURY_ADDRESS"
  "PUBLIC_POOL_ADDRESS \<noteq> NODE_OPS_POOL_ADDRESS" "NODE_OPS_POOL_ADDRESS \<noteq> PUBLIC_POOL_ADDRESS"
  by (simp_all add: genesis_addresses)

lemma addresses_kind [simp]:
  "is_consensus_pool_address NODE_OPS_POOL_ADDRESS" "is_consensus_pool_address PUBLIC_POOL_ADDRESS"
  "\<not> is_consensus_pool_address FOUNDER_ADDRESS" "\<not> is_consensus_pool_address MISSION_TREASURY_ADDRESS"
  "FOUNDER_ADDRESS \<noteq> ''GENESIS''" "MISSION_TREASURY_ADDRESS \<noteq> ''GENESIS''"
  by (simp_all add: genesis_addresses is_consensus_pool_address_def starts_with_def)

lemma gtx_fields [simp]: "tx_to (gtx i t v d) = t" "tx_amount (gtx i t v d) = v"
  by (simp_all add: gtx_def)

lemma genesis_chain_balance:
  "get_balance (genesis_chain p) a =
     (if a = FOUNDER_ADDRESS then FOUNDER_GENESIS_ALLOCATION
      else if a = MISSION_TREASURY_ADDRESS then MISSION_TREASURY_ALLOCATION
      else if a = PUBLIC_POOL_ADDRESS then PUBLIC_POOL_ALLOCATION
      else if a = NODE_OPS_POOL_ADDRESS then NODE_OPS_POOL_ALLOCATION else 0)"
proof -
  from genesis_start [of p] obtain c0 where "\<forall>a. get_balance c0 a = 0"
    "genesis_chain p = fold mint_genesis_tx genesis_txs c0" by blast
  then show ?thesis by (simp add: genesis_txs_def get_balance_mint)
qed

lemma genesis_chain_wf: "chain_wf (genesis_chain p)"
  using genesis_start [of p] by (auto simp: chain_wf_fold_mint)

lemma genesis_amounts: "sum_list (map (\<lambda>tx. unat (tx_amount tx)) genesis_txs) = 2200000000000000000"
  by (simp add: genesis_txs_def gtx_def genesis_constants)

lemma genesis_chain_supply: "total_supply (genesis_chain p) = 2200000000000000000"
  using genesis_start [of p] by (auto simp: total_supply_fold_mint genesis_amounts)

section \<open>Nonces\<close>

definition sent_by :: "string \<Rightarrow> transaction \<Rightarrow> bool" where
  "sent_by a tx \<longleftrightarrow> is_user_tx tx \<and> tx_from tx = a"

definition user_txs :: "string \<Rightarrow> block list \<Rightarrow> transaction list" where
  "user_txs a bs = filter (sent_by a) (concat (map b_transactions bs))"

lemma user_count_sent_by: "user_count txs a = length (filter (sent_by a) txs)"
  by (simp add: user_count_def sent_by_def [abs_def])

lemma apply_tx_nonce:
  "get_nonce (apply_tx v tx c) a = get_nonce c a + (if sent_by a tx then 1 else 0)"
  by (auto simp: apply_tx_def Let_def is_user_tx_def sent_by_def chain_simps)

lemma fold_apply_tx_nonce:
  "get_nonce (fold (apply_tx v) txs c) a = get_nonce c a + of_nat (user_count txs a)"
  by (induction txs arbitrary: c) (auto simp: apply_tx_nonce sent_by_def algebra_simps)

lemma apply_block_nonce:
  "apply_block c b = Ok c' \<Longrightarrow> get_nonce c' a = get_nonce c a + of_nat (user_count (b_transactions b) a)"
  by (auto elim!: apply_block_OkE simp: commit_block_def chain_simps fold_apply_tx_nonce)

lemma check_pass_nonce_list:
  assumes "res_fold (check_tx c) txs ([], []) = Ok st"
  shows "map tx_nonce (filter (sent_by a) txs)
    = map (\<lambda>i. get_nonce c a + of_nat i) [0 ..< user_count txs a]"
  using assms
proof (induction txs arbitrary: st rule: rev_induct)
  case (snoc tx txs)
  then obtain st0 where "res_fold (check_tx c) txs ([], []) = Ok st0" by (auto simp: res_simps)
  from snoc.IH [OF this] show ?case
    using check_pass_tx_nonce [of c txs tx "[]" st] snoc.prems
    by (auto simp: sent_by_def)
qed simp

lemma map_add_upt: "map (\<lambda>i. x + of_nat k + of_nat i) [0 ..< m] = map (\<lambda>i. x + of_nat i :: u64) [k ..< k + m]"
  by (rule nth_equalityI) (simp_all add: algebra_simps)

lemma apply_blocks_nonces:
  assumes "apply_blocks bs c = Ok c'"
  shows "map tx_nonce (user_txs a bs) = map (\<lambda>i. get_nonce c a + of_nat i) [0 ..< length (user_txs a bs)] \<and>
    get_nonce c' a = get_nonce c a + of_nat (length (user_txs a bs))"
  using assms
proof (induction bs arbitrary: c)
  case Nil
  then show ?case by (simp add: user_txs_def)
next
  case (Cons b bs)
  let ?k = "user_count (b_transactions b) a"
  from Cons.prems obtain c1 where b: "apply_block c b = Ok c1" and bs: "apply_blocks bs c1 = Ok c'"
    by (auto simp: res_simps)
  note IH = Cons.IH [OF bs]
  have n1: "get_nonce c1 a = get_nonce c a + of_nat ?k" by (rule apply_block_nonce [OF b])
  have len: "length (user_txs a (b # bs)) = ?k + length (user_txs a bs)"
    by (simp add: user_txs_def user_count_sent_by)
  from b obtain st where "res_fold (check_tx c) (b_transactions b) ([], []) = Ok st"
    by (auto elim: apply_block_OkE)
  from check_pass_nonce_list [OF this, of a]
  have "map tx_nonce (user_txs a (b # bs)) = map (\<lambda>i. get_nonce c a + of_nat i) [0 ..< ?k]
      @ map (\<lambda>i. get_nonce c a + of_nat i) [?k ..< ?k + length (user_txs a bs)]"
    using IH n1 by (simp add: user_txs_def map_add_upt)
  then show ?case using IH n1 len by (simp flip: map_append upt_add_eq_append add: algebra_simps)
qed

lemma distinct_of_nat_upt: "n \<le> 2 ^ 64 \<Longrightarrow> distinct (map (\<lambda>i. x + of_nat i :: u64) [0 ..< n])"
  by (auto simp: distinct_map inj_on_def of_nat_u64_eq_iff unat_of_nat_u64)

section \<open>Value\<close>

definition covered :: "chain \<Rightarrow> block \<Rightarrow> bool" where
  "covered c b \<longleftrightarrow> (\<forall>a \<in> set (map tx_from (b_transactions b)).
     (is_consensus_pool_address a \<or> a = FOUNDER_ADDRESS) \<longrightarrow>
       outgoing (b_transactions b) a \<le> unat (get_balance c a))"

definition regular_block :: "block \<Rightarrow> bool" where
  "regular_block b \<longleftrightarrow> b_validator b \<noteq> ''GENESIS'' \<and>
     (\<forall>tx \<in> set (b_transactions b). tx_from tx \<noteq> ''GENESIS'' \<and> sane_tx tx)"

lemma outgoing_none: "a \<notin> set (map tx_from txs) \<Longrightarrow> outgoing txs a = 0"
  by (induction txs) auto

lemma apply_block_value:
  assumes "chain_wf c" "total_supply c < 2 ^ 63" "regular_block b" "covered c b" "apply_block c b = Ok c'"
  shows "total_supply c' = total_supply c \<and>
    abs_balances c' = fold (abs_tx (b_validator b)) (b_transactions b) (abs_balances c)"
proof -
  let ?txs = "b_transactions b"
  from assms(5) obtain ns ds where run: "res_fold (check_tx c) ?txs ([], []) = Ok (ns, ds)"
    and c': "c' = commit_block b c" by (auto elim!: apply_block_OkE)
  have "outgoing ?txs a \<le> unat (get_balance c a)" for a
  proof (cases "a \<in> set (map tx_from ?txs) \<and> \<not> (is_consensus_pool_address a \<or> a = FOUNDER_ADDRESS)")
    case True
    then have "a \<noteq> ''GENESIS''" using assms(3) by (auto simp: regular_block_def)
    with True assms(3) check_pass_debits [OF assms(1,2) _ run, of a] show ?thesis
      by (auto simp: regular_block_def)
  next
    case False
    then show ?thesis
      using assms(4) outgoing_none [of a ?txs] unfolding covered_def by (metis le0)
  qed
  then show ?thesis
    using write_pass_supply [of c "b_validator b" ?txs] assms c'
    by (auto simp: regular_block_def commit_block_def chain_simps)
qed

section \<open>Reading a range of blocks\<close>

lemma get_blocks_linked:
  assumes "chain_linked c" "unat t \<le> unat (chain_height c)"
  shows "map (\<lambda>b. unat (b_height b)) (get_blocks c f t) = [unat f ..< Suc (unat t)]"
proof -
  have one: "map (\<lambda>b. unat (b_height b)) (case tree_get (c_blocks c) (of_nat h) of Some b \<Rightarrow> [b] | None \<Rightarrow> []) = [h]"
    if "h \<le> unat t" for h
  proof -
    have "h \<le> unat (chain_height c)" using assms(2) that by simp
    then obtain b where "block_at c h b" using assms(1) unfolding chain_linked_def by blast
    then show ?thesis by (simp add: block_at_def get_block_def)
  qed
  have "map (\<lambda>b. unat (b_height b)) (get_blocks c f t) = concat (map (\<lambda>h. [h]) [unat f ..< Suc (unat t)])"
    unfolding get_blocks_def map_concat map_map
    by (rule arg_cong [where f = concat], rule map_cong)
       (auto simp: one simp del: upt_Suc split del: option.split)
  then show ?thesis by simp
qed

section \<open>The properties\<close>

definition sample_tx :: transaction where
  "sample_tx = \<lparr>tx_id = ''0123456789'', tx_from = MISSION_TREASURY_ADDRESS, tx_to = ''ARLPhb'',
     tx_amount = 70, tx_fee = 1000, tx_nonce = 0, tx_data = None, tx_signature = [],
     tx_public_key = [], tx_timestamp = TIMESTAMP_MS\<rparr>"

definition sample_block :: "transaction list \<Rightarrow> block" where
  "sample_block txs = \<lparr>b_height = 1, b_hash = ''01'', b_prev_hash = b_hash (genesis_block sample_primitives),
     b_timestamp = TIMESTAMP_MS, b_transactions = txs, b_merkle_root = [], b_validator = ''ARLPhv'',
     b_validator_signature = [], b_nonce = 0, b_intelligence_proof = None\<rparr>"

lemma sample_check: "\<exists>st. check_tx (genesis_chain p) sample_tx ([], []) = Ok st"
  unfolding check_tx_def spendable_balance_def Let_def
  by (simp add: sample_tx_def genesis_chain_tip genesis_chain_balance chain_simps)
     (simp add: genesis_constants)

lemma sample_run:
  "apply_block (store_open sample_primitives empty_chain) (sample_block [sample_tx])
   = Ok (commit_block (sample_block [sample_tx]) (store_open sample_primitives empty_chain))"
proof -
  have "b_height (sample_block [sample_tx]) = 1" "b_transactions (sample_block [sample_tx]) = [sample_tx]"
    "b_prev_hash (sample_block [sample_tx]) = tip_hash (genesis_chain sample_primitives)"
    by (simp_all add: sample_block_def genesis_chain_tip)
  then show ?thesis
    using sample_check [of sample_primitives] by (auto simp: apply_block_def genesis_chain_tip)
qed

lemma sample_user_txs: "user_txs MISSION_TREASURY_ADDRESS [sample_block [sample_tx]] = [sample_tx]"
  by (simp add: user_txs_def sample_block_def sample_tx_def sent_by_def is_user_tx_def)

text \<open>
  C1. Every run of accepted blocks from a fresh node leaves a linked chain: all heights from 0 to
  the tip are stored under their own height, each block names the hash of its predecessor, and
  the tip is the number of blocks applied.
\<close>

theorem fresh_chain_linked:
  assumes "apply_blocks bs (store_open p empty_chain) = Ok c" "length bs < 2 ^ 64"
  shows "chain_linked c \<and> unat (chain_height c) = length bs"
  using chain_linked_apply_blocks [OF store_open_linked assms(1)] assms(2)
  by (simp add: genesis_chain_tip)

theorem fresh_chain_linked_witness:
  "chain_linked (commit_block (sample_block [sample_tx]) (store_open sample_primitives empty_chain))"
  using fresh_chain_linked [of "[sample_block [sample_tx]]" sample_primitives] sample_run by simp

text \<open>
  C5. Replay protection: along any run of accepted blocks the transactions of one sender carry
  consecutive nonces starting from the stored one, and the stored nonce advances by their number.
\<close>

theorem nonces_consecutive:
  assumes "apply_blocks bs c = Ok c'"
  shows "map tx_nonce (user_txs a bs) = map (\<lambda>i. get_nonce c a + of_nat i) [0 ..< length (user_txs a bs)] \<and>
    get_nonce c' a = get_nonce c a + of_nat (length (user_txs a bs))"
  by (rule apply_blocks_nonces [OF assms])

theorem nonces_consecutive_witness:
  "map tx_nonce (user_txs MISSION_TREASURY_ADDRESS [sample_block [sample_tx]]) = [0]"
  using nonces_consecutive [of "[sample_block [sample_tx]]" "store_open sample_primitives empty_chain"
      "commit_block (sample_block [sample_tx]) (store_open sample_primitives empty_chain)" MISSION_TREASURY_ADDRESS]
    sample_run
  by (simp add: sample_user_txs genesis_chain_tip)

text \<open>
  C6. No user transaction takes effect twice: among all transactions a sender has in a run of
  accepted blocks, no two are equal (fewer than \<open>2 ^ 64\<close> of them, so that nonces do not wrap).
\<close>

theorem no_replay:
  assumes "apply_blocks bs c = Ok c'" "length (user_txs a bs) \<le> 2 ^ 64"
  shows "distinct (user_txs a bs)"
proof -
  have "distinct (map tx_nonce (user_txs a bs))"
    using apply_blocks_nonces [OF assms(1), of a] distinct_of_nat_upt [OF assms(2)] by simp
  then show ?thesis by (simp add: distinct_map)
qed

theorem no_replay_witness: "distinct (user_txs MISSION_TREASURY_ADDRESS [sample_block [sample_tx]])"
  using no_replay [of "[sample_block [sample_tx]]" "store_open sample_primitives empty_chain"
      "commit_block (sample_block [sample_tx]) (store_open sample_primitives empty_chain)" MISSION_TREASURY_ADDRESS]
    sample_run
  by (simp add: sample_user_txs genesis_chain_tip)

text \<open>
  C2. Value is conserved: a block that mints nothing, whose amounts do not wrap, and whose pool and
  founder spending is covered by their balances, leaves the sum of all balances unchanged when it
  is accepted. Every other sender needs no assumption: the validate pass enforces it.
\<close>

theorem supply_conserved:
  assumes "chain_wf c" "total_supply c < 2 ^ 63" "regular_block b" "covered c b" "apply_block c b = Ok c'"
  shows "total_supply c' = total_supply c"
  using apply_block_value [OF assms] by simp

lemma sample_block_regular:
  "regular_block (sample_block [sample_tx])" "covered c (sample_block [sample_tx])"
  by (simp_all add: regular_block_def covered_def sample_block_def sample_tx_def sane_tx_def)

theorem supply_conserved_witness:
  "total_supply (commit_block (sample_block [sample_tx]) (store_open sample_primitives empty_chain)) = 2200000000000000000"
  using supply_conserved [OF genesis_chain_wf _ sample_block_regular sample_run]
  by (simp add: genesis_chain_supply)



text \<open>
  A fresh node starts with the four genesis allocations, 22 billion AURA in all; the founder's
  2 billion AURA of vesting are not part of it and no other mint exists in the genesis block.
\<close>

lemma genesis_allocation:
  "total_supply (store_open p empty_chain) = 22 * 10 ^ 9 * unat DECIMAL_FACTOR \<and>
   unat TOTAL_SUPPLY = total_supply (store_open p empty_chain) + unat FOUNDER_VESTING_TOTAL \<and>
   get_balance (store_open p empty_chain) =
     (\<lambda>_. 0)(FOUNDER_ADDRESS := FOUNDER_GENESIS_ALLOCATION, MISSION_TREASURY_ADDRESS := MISSION_TREASURY_ALLOCATION,
             PUBLIC_POOL_ADDRESS := PUBLIC_POOL_ALLOCATION, NODE_OPS_POOL_ADDRESS := NODE_OPS_POOL_ALLOCATION)"
  by (simp add: genesis_chain_supply genesis_constants genesis_chain_balance fun_eq_iff)

text \<open>
  On a linked chain \<open>latest_blocks\<close> returns the \<open>n\<close> newest blocks, newest first, or all of them
  when there are fewer.
\<close>

lemma latest_blocks_newest:
  assumes "chain_linked c" "0 < n"
  shows "map (\<lambda>b. unat (b_height b)) (latest_blocks c n)
    = rev [Suc (unat (chain_height c)) - unat n ..< Suc (unat (chain_height c))]"
proof -
  have "unat (n - 1) = unat n - 1" using assms(2) by (simp add: unat_minus_one word_neq_0_conv)
  moreover have "0 < unat n" using assms(2) by (simp add: word_less_nat_alt)
  ultimately have "unat (saturating_sub (chain_height c) (n - 1)) = Suc (unat (chain_height c)) - unat n"
    by (simp add: unat_saturating_sub)
  then show ?thesis
    using get_blocks_linked [OF assms(1), of "chain_height c" "saturating_sub (chain_height c) (n - 1)"]
    by (simp only: latest_blocks_def Let_def rev_map [symmetric] order_refl)
qed

lemma latest_blocks_newest_sample:
  "map (\<lambda>b. unat (b_height b)) (latest_blocks (store_open sample_primitives empty_chain) 5) = [0]"
  using latest_blocks_newest [OF store_open_linked, of 5 sample_primitives]
  by (simp add: genesis_chain_tip)

section \<open>Transactions that escape the checks\<close>

lemma check_pass_unchecked: "\<forall>tx \<in> set txs. \<not> is_user_tx tx \<Longrightarrow> res_fold (check_tx c) txs st = Ok st"
  by (induction txs) (simp_all add: check_tx_skip)

text \<open>
  Whoever builds a block of the next height on the current tip can put any transactions from
  \<open>GENESIS\<close> or from a consensus pool in it: \<open>apply_block\<close> accepts them unsigned, at any height, and a
  \<open>GENESIS\<close> transaction then raises the total by its amount. The comment on \<open>apply_block\<close> calls
  \<open>GENESIS\<close> mint-only at block 0.
\<close>

lemma genesis_sender_mints:
  assumes "chain_wf c" "b_height b = chain_height c + 1" "b_prev_hash b = tip_hash c"
    "b_transactions b = [tx]" "tx_from tx = ''GENESIS''" "total_supply c + unat (tx_amount tx) < 2 ^ 64"
  shows "\<exists>c'. apply_block c b = Ok c' \<and> total_supply c' = total_supply c + unat (tx_amount tx)"
proof -
  have "\<not> is_user_tx tx" using assms(5) by (simp add: is_user_tx_def)
  then have "apply_block c b = Ok (commit_block b c)"
    using assms(2-4) by (simp add: apply_block_def check_tx_skip)
  moreover have "total_supply (commit_block b c) = total_supply c + unat (tx_amount tx)"
    using book.credit_total [OF assms(1,6)] assms(4,5) by (simp add: commit_block_def apply_tx_def chain_simps)
  ultimately show ?thesis by blast
qed

definition forged_mint :: transaction where
  "forged_mint = sample_tx\<lparr>tx_from := ''GENESIS'', tx_amount := 1000\<rparr>"

lemma genesis_sender_mints_sample:
  "\<exists>c'. apply_block (store_open sample_primitives empty_chain) (sample_block [forged_mint]) = Ok c' \<and>
        total_supply c' = 2200000000000001000"
  using genesis_sender_mints [OF genesis_chain_wf, of "sample_block [forged_mint]" sample_primitives forged_mint]
  by (simp add: sample_block_def forged_mint_def genesis_chain_tip genesis_chain_supply)

text \<open>
  The cost of a transaction is added in 64 bits: a sender with nothing can name an amount and a
  fee whose sum wraps to zero, passes the balance check, and the recipient is credited in full.
\<close>

lemma wrapped_cost_mints:
  assumes "b_height b = chain_height c + 1" "b_prev_hash b = tip_hash c" "b_transactions b = [tx]"
    "is_user_tx tx" "tx_nonce tx = get_nonce c (tx_from tx)" "tx_amount tx + tx_fee tx = 0"
    "tx_to tx \<notin> {tx_from tx, b_validator b}"
  shows "\<exists>c'. apply_block c b = Ok c' \<and>
    get_balance c' (tx_to tx) = get_balance c (tx_to tx) + tx_amount tx"
proof -
  have cost0: "\<not> spendable_balance c tx < tx_amount tx + tx_fee tx" using assms(6) by simp
  have "apply_block c b = Ok (commit_block b c)"
    using assms(1-6) cost0
    by (simp add: apply_block_def check_tx_def Let_def chain_simps is_user_tx_def)
  moreover have "get_balance (commit_block b c) (tx_to tx) = get_balance c (tx_to tx) + tx_amount tx"
    using assms(3,4,7) by (auto simp: commit_block_def apply_tx_def Let_def is_user_tx_def chain_simps)
  ultimately show ?thesis by blast
qed

definition forged_transfer :: transaction where
  "forged_transfer = sample_tx\<lparr>tx_from := ''ARLPhx'', tx_amount := - 1000\<rparr>"

lemma wrapped_cost_mints_sample:
  "\<exists>c'. apply_block (store_open sample_primitives empty_chain) (sample_block [forged_transfer]) = Ok c' \<and>
        get_balance c' ''ARLPhb'' = - 1000"
  using wrapped_cost_mints [of "sample_block [forged_transfer]" "store_open sample_primitives empty_chain" forged_transfer]
  by (simp add: sample_block_def forged_transfer_def sample_tx_def genesis_chain_tip genesis_chain_balance
      is_user_tx_def is_consensus_pool_address_def starts_with_def genesis_addresses)

end
