(* ===== verification/Consensus.thy ===== *)
theory Consensus
  imports Mempool ChainProps
begin

text \<open>
  \<^verbatim>\<open>src/src/consensus.rs\<close>: building a block from the mempool and the block reward, and one tick of the
  block producer. Inputs from outside are arguments: the clock \<open>now\<close>, the iteration order of the
  mempool's hash map, the outcome \<open>gen\<close> of \<open>generate_proof\<close>, and \<open>fmt\<close>, the text of an amount in AURA with
  a given number of decimals (only shown in the reward's memo).
\<close>

datatype produce_error = Poi_failed | Sign_failed sign_error

definition reward_data :: "(nat \<Rightarrow> u64 \<Rightarrow> string) \<Rightarrow> u64 \<Rightarrow> u64 \<Rightarrow> u64 \<Rightarrow> string option" where
  "reward_data fmt height reward_amount ops_pool_balance =
     (if reward_amount > 0 then
        Some (''PoI block reward h='' @ dec64 height @ '' '' @ fmt 2 reward_amount
              @ '' AURA from Node Ops Pool. Pool: '' @ fmt 0 ops_pool_balance
              @ ''AURA remaining. Halving exp='' @ dec64 (halving_exp height))
      else Some (''Node Ops Pool exhausted '' @ em_dash @ '' PoI block rewards ended at this block''))"

definition reward_tx :: "primitives \<Rightarrow> (nat \<Rightarrow> u64 \<Rightarrow> string) \<Rightarrow> string \<Rightarrow> chain \<Rightarrow> u64 \<Rightarrow> transaction" where
  "reward_tx p fmt address c timestamp =
     (let height = chain_height c + 1;
          ops_pool_balance = get_balance c NODE_OPS_POOL_ADDRESS;
          reward_amount = current_block_reward height ops_pool_balance;
          data = reward_data fmt height reward_amount ops_pool_balance
      in \<lparr>tx_id = compute_id p NODE_OPS_POOL_ADDRESS address reward_amount 0 height timestamp data,
          tx_from = NODE_OPS_POOL_ADDRESS, tx_to = address, tx_amount = reward_amount, tx_fee = 0,
          tx_nonce = height, tx_data = data, tx_signature = NODE_OPS_POOL_ADDRESS,
          tx_public_key = NODE_OPS_POOL_ADDRESS, tx_timestamp = timestamp\<rparr>)"

definition produce_block ::
    "primitives \<Rightarrow> (nat \<Rightarrow> u64 \<Rightarrow> string) \<Rightarrow> wallet \<Rightarrow> (transaction list \<Rightarrow> transaction list) \<Rightarrow> u64
     \<Rightarrow> (intelligence_proof, produce_error) res \<Rightarrow> chain \<Rightarrow> mempool \<Rightarrow> (block, produce_error) res" where
  "produce_block p fmt w order now gen c m =
     (let height = chain_height c + 1;
          prev_hash = tip_hash c;
          timestamp = now;
          txs = reward_tx p fmt (w_address w) c timestamp # take_for_block order (MAX_TXS_PER_BLOCK - 1) m
      in res_bind gen (\<lambda>proof.
         let proof_hash = Some (ip_computation_hash proof);
             merkle_root = compute_merkle_root p txs;
             hash = block_compute_hash p height prev_hash timestamp merkle_root 0 (w_address w) proof_hash;
             header_msg = dec64 height @ prev_hash @ dec64 timestamp @ merkle_root
         in res_bind (res_map_err Sign_failed (wallet_sign p w header_msg)) (\<lambda>validator_signature.
                Ok \<lparr>b_height = height, b_hash = hash, b_prev_hash = prev_hash, b_timestamp = timestamp,
                    b_transactions = txs, b_merkle_root = merkle_root, b_validator = w_address w,
                    b_validator_signature = validator_signature, b_nonce = 0,
                    b_intelligence_proof = Some proof\<rparr>)))"

text \<open>
  One tick of the producer loop: a failure is logged and leaves store and mempool as they were. The
  log line of an applied block slices its hash, which would panic on a hash shorter than 16 bytes.
  The third component is the block sent to the gossip channel.
\<close>

definition block_producer_tick ::
    "primitives \<Rightarrow> (nat \<Rightarrow> u64 \<Rightarrow> string) \<Rightarrow> wallet \<Rightarrow> (transaction list \<Rightarrow> transaction list) \<Rightarrow> u64
     \<Rightarrow> (intelligence_proof, produce_error) res \<Rightarrow> chain \<Rightarrow> mempool
     \<Rightarrow> (chain \<times> mempool \<times> block option, unit) res" where
  "block_producer_tick p fmt w order now gen c m =
     (case produce_block p fmt w order now gen c m of
        Panic \<Rightarrow> Panic
      | Err _ \<Rightarrow> Ok (c, m, None)
      | Ok b \<Rightarrow>
          let confirmed_ids = map tx_id (b_transactions b) in
          (case apply_block c b of
             Panic \<Rightarrow> Panic
           | Err _ \<Rightarrow> Ok (c, m, None)
           | Ok c' \<Rightarrow> res_bind (str_slice_to (b_hash b) 16)
                        (\<lambda>_. Ok (c', remove_confirmed confirmed_ids m, Some b))))"

section \<open>The produced block\<close>

lemma produce_block_Ok:
  assumes "produce_block p fmt w order now gen c m = Ok b"
  shows "b_height b = chain_height c + 1" "b_prev_hash b = tip_hash c" "b_validator b = w_address w"
    "b_transactions b = reward_tx p fmt (w_address w) c now # take_for_block order (MAX_TXS_PER_BLOCK - 1) m"
    "b_merkle_root b = compute_merkle_root p (b_transactions b)" "verify_hash p b"
  using assms
  by (auto simp: produce_block_def Let_def res_simps verify_hash_def)

lemma reward_tx_fields [simp]:
  "tx_from (reward_tx p fmt a c t) = NODE_OPS_POOL_ADDRESS" "tx_to (reward_tx p fmt a c t) = a"
  "tx_fee (reward_tx p fmt a c t) = 0"
  "tx_amount (reward_tx p fmt a c t) = current_block_reward (chain_height c + 1) (get_balance c NODE_OPS_POOL_ADDRESS)"
  by (simp_all add: reward_tx_def Let_def)

lemma reward_not_user [simp]: "\<not> is_user_tx (reward_tx p fmt a c t)"
  by (simp add: is_user_tx_def)

lemma reward_le_pool: "current_block_reward h pool \<le> pool"
  by (simp add: current_block_reward_def Let_def)

lemma reward_has_expected_id: "has_expected_id p (reward_tx p fmt a c t)"
  by (simp add: has_expected_id_def reward_tx_def Let_def)

lemma block_producer_tick_cases:
  assumes "block_producer_tick p fmt w order now gen c m = Ok (c', m', ob)"
  obtains "ob = None" "c' = c" "m' = m"
  | b where "ob = Some b" "produce_block p fmt w order now gen c m = Ok b" "apply_block c b = Ok c'"
      "m' = remove_confirmed (map tx_id (b_transactions b)) m"
  using assms by (auto simp: block_producer_tick_def Let_def res_simps split: res.splits)

section \<open>Producing on top of pending user transactions\<close>

text \<open>
  Pending transactions as ordinary users leave them: signed by a user, not from the founder's vesting
  account, amounts that do not wrap.
\<close>

definition plain_pending :: "mempool \<Rightarrow> bool" where
  "plain_pending m \<longleftrightarrow> (\<forall>tx \<in> set (tree_values m).
     is_user_tx tx \<and> tx_from tx \<noteq> FOUNDER_ADDRESS \<and> sane_tx tx)"

text \<open>Each pending transaction can be applied on its own, and no sender has two.\<close>

definition ready_pending :: "chain \<Rightarrow> mempool \<Rightarrow> bool" where
  "ready_pending c m \<longleftrightarrow> distinct (map tx_from (tree_values m)) \<and>
     (\<forall>tx \<in> set (tree_values m). tx_nonce tx = get_nonce c (tx_from tx) \<and>
        tx_amount tx + tx_fee tx \<le> spendable_balance c tx)"

lemma outgoing_pool_users:
  "\<forall>tx \<in> set txs. is_user_tx tx \<Longrightarrow> is_consensus_pool_address a \<Longrightarrow> outgoing txs a = 0"
  by (intro outgoing_none) (auto simp: is_user_tx_def)

lemma produced_regular:
  assumes "produce_block p fmt w order now gen c m = Ok b" "iteration_order order" "plain_pending m"
    "w_address w \<noteq> ''GENESIS''"
  shows "regular_block b" "covered c b"
proof -
  note b = produce_block_Ok [OF assms(1)]
  let ?r = "reward_tx p fmt (w_address w) c now"
  define sel where "sel = take_for_block order (MAX_TXS_PER_BLOCK - 1) m"
  have txs: "b_transactions b = ?r # sel" using b(4) by (simp add: sel_def)
  have sel: "is_user_tx tx \<and> tx_from tx \<noteq> FOUNDER_ADDRESS \<and> sane_tx tx" if "tx \<in> set sel" for tx
    using that assms(3) set_take_for_block [OF assms(2)] unfolding sel_def plain_pending_def by blast
  have "unat (current_block_reward h q) < 2 ^ 63" for h q
  proof -
    have "unat (current_block_reward h q) \<le> 59514700000"
      by (simp add: current_block_reward_exact min.coboundedI1)
    then show ?thesis by simp
  qed
  then have "sane_tx ?r" by (simp add: sane_tx_def)
  moreover have "NODE_OPS_POOL_ADDRESS \<noteq> ''GENESIS''" by (simp add: genesis_addresses)
  ultimately show "regular_block b"
    using sel b(3) assms(4) by (auto simp: regular_block_def txs is_user_tx_def)
  have reward: "unat (current_block_reward (chain_height c + 1) (get_balance c NODE_OPS_POOL_ADDRESS))
      \<le> unat (get_balance c NODE_OPS_POOL_ADDRESS)"
    using reward_le_pool by (simp add: word_le_nat_alt)
  have users: "\<forall>tx \<in> set sel. is_user_tx tx" using sel by blast
  have pool: "outgoing (?r # sel) a \<le> unat (get_balance c a)" if "is_consensus_pool_address a" for a
    using outgoing_pool_users [OF users that] reward by (simp add: tx_cost_def)
  have "FOUNDER_ADDRESS \<notin> set (map tx_from (?r # sel))" using sel by (force dest: sel)
  then have "outgoing (?r # sel) FOUNDER_ADDRESS = 0" by (rule outgoing_none)
  with pool show "covered c b" unfolding covered_def txs by simp
qed

text \<open>
  What an honest producer emits: the block extends the current tip, carries at most 500
  transactions with the reward first, has the Merkle root of exactly those transactions and the hash
  every peer recomputes, and the reward never exceeds what the node operators pool holds.
\<close>

lemma produced_block_shape:
  assumes "produce_block p fmt w order now gen c m = Ok b"
  shows "b_height b = chain_height c + 1 \<and> b_prev_hash b = tip_hash c \<and> verify_hash p b \<and>
    b_merkle_root b = compute_merkle_root p (b_transactions b) \<and>
    length (b_transactions b) \<le> MAX_TXS_PER_BLOCK \<and>
    (\<exists>r txs. b_transactions b = r # txs \<and> tx_from r = NODE_OPS_POOL_ADDRESS \<and>
       tx_to r = w_address w \<and> tx_amount r \<le> get_balance c NODE_OPS_POOL_ADDRESS \<and> validate_basic p r \<noteq> Err Id_mismatch)"
proof -
  note b = produce_block_Ok [OF assms]
  have "length (b_transactions b) \<le> MAX_TXS_PER_BLOCK"
    unfolding b(4) take_for_block_def by (simp add: MAX_TXS_PER_BLOCK_def)
  moreover have "validate_basic p (reward_tx p fmt (w_address w) c now) \<noteq> Err Id_mismatch"
    using reward_has_expected_id by (simp add: validate_basic_def)
  ultimately show ?thesis using b reward_le_pool by auto
qed

definition sample_wallet :: wallet where
  "sample_wallet = \<lparr>w_address = ''ARLPhv'', w_signing_key_hex = concat (replicate 32 ''00''), w_verifying_key_hex = []\<rparr>"

definition sample_proof :: intelligence_proof where
  "sample_proof = \<lparr>ip_challenge_bytes = [], ip_solution_bytes = [], ip_computation_hash = ''c'', ip_intelligence_score = 0\<rparr>"

abbreviation sample_produced :: "chain \<Rightarrow> mempool \<Rightarrow> (block, produce_error) res" where
  "sample_produced \<equiv> produce_block sample_primitives (\<lambda>_ _. []) sample_wallet (\<lambda>xs. xs) 5 (Ok sample_proof)"

lemma sample_sign: "\<exists>s. wallet_sign sample_primitives sample_wallet msg = Ok s"
proof -
  have "sample_hex_decode (concat (replicate 32 ''00'')) = Some (replicate 32 (CHR 0x00))" by code_simp
  then show ?thesis by (simp add: wallet_sign_def sample_primitives_def sample_wallet_def)
qed

lemma sample_produced_Ok: "\<exists>b. sample_produced c m = Ok b"
proof -
  obtain s where "wallet_sign sample_primitives sample_wallet (dec64 (chain_height c + 1) @ tip_hash c @ dec64 5 @
     compute_merkle_root sample_primitives (reward_tx sample_primitives (\<lambda>_ _. []) (w_address sample_wallet) c 5
       # take_for_block (\<lambda>xs. xs) (MAX_TXS_PER_BLOCK - 1) m)) = Ok s"
    using sample_sign by blast
  then show ?thesis by (simp add: produce_block_def Let_def)
qed

lemma produced_block_shape_sample:
  "\<exists>b. sample_produced (store_open sample_primitives empty_chain) [] = Ok b \<and> verify_hash sample_primitives b"
  using sample_produced_Ok [of "store_open sample_primitives empty_chain" "[]"] produced_block_shape by blast

text \<open>
  C10. A tick of the producer conserves value: with only ordinary user transactions pending, the
  reward is paid out of the node operators pool and fees go to the producer, so the sum of all
  balances after the tick is what it was before.
\<close>

theorem producer_tick_conserves:
  assumes "block_producer_tick p fmt w order now gen c m = Ok (c', m', ob)" "iteration_order order"
    "plain_pending m" "w_address w \<noteq> ''GENESIS''" "chain_wf c" "total_supply c < 2 ^ 63"
  shows "chain_wf c' \<and> total_supply c' = total_supply c"
  using assms(1)
proof (cases rule: block_producer_tick_cases)
  case (2 b)
  show ?thesis
    using apply_block_value [OF assms(5,6) produced_regular [OF 2(2) assms(2,3,4)] 2(3)]
      chain_wf_apply_block [OF assms(5) 2(3)] by simp
qed (use assms in simp)

lemma produced_hash_slice:
  assumes "hex_codec p" "blake3_size p" "verify_hash p b"
  shows "str_slice_to (b_hash b) 16 = Ok (take 16 (b_hash b))"
  using assms
  by (auto simp: verify_hash_def block_compute_hash_def Let_def blake3_size_def hex_digest_slice
      split: option.splits)

lemma sample_tick:
  obtains b c' m' where "sample_produced (genesis_chain sample_primitives) [] = Ok b"
    "block_producer_tick sample_primitives (\<lambda>_ _. []) sample_wallet (\<lambda>xs. xs) 5 (Ok sample_proof)
      (genesis_chain sample_primitives) [] = Ok (c', m', Some b)"
proof -
  obtain b where b: "sample_produced (genesis_chain sample_primitives) [] = Ok b"
    using sample_produced_Ok by blast
  note f = produce_block_Ok [OF b]
  have "apply_block (genesis_chain sample_primitives) b = Ok (commit_block b (genesis_chain sample_primitives))"
    using f by (simp add: apply_block_def take_for_block_def tree_values_def check_tx_skip)
  moreover have "str_slice_to (b_hash b) 16 = (Ok (take 16 (b_hash b)) :: (string, unit) res)"
    using f(6) sample_primitives_ok by (intro produced_hash_slice)
  ultimately show ?thesis using b that by (simp add: block_producer_tick_def)
qed

theorem producer_tick_conserves_witness:
  "\<exists>c' m' b. block_producer_tick sample_primitives (\<lambda>_ _. []) sample_wallet (\<lambda>xs. xs) 5 (Ok sample_proof)
      (store_open sample_primitives empty_chain) [] = Ok (c', m', Some b) \<and> total_supply c' = 2200000000000000000"
proof -
  obtain b c' m' where t: "block_producer_tick sample_primitives (\<lambda>_ _. []) sample_wallet (\<lambda>xs. xs) 5 (Ok sample_proof)
      (genesis_chain sample_primitives) [] = Ok (c', m', Some b)" by (rule sample_tick)
  have "total_supply c' = 2200000000000000000"
    using producer_tick_conserves [OF t _ _ _ genesis_chain_wf]
    by (simp add: iteration_order_def plain_pending_def tree_values_def sample_wallet_def genesis_chain_supply)
  with t show ?thesis by blast
qed

section \<open>Progress\<close>

lemma check_pass_ready:
  assumes "distinct (map tx_from txs)" "\<forall>tx \<in> set txs. tx_nonce tx = get_nonce c (tx_from tx) \<and>
      tx_amount tx + tx_fee tx \<le> spendable_balance c tx"
    "\<forall>tx \<in> set txs. u64_from_tree ns (tx_from tx) = 0 \<and> u64_from_tree ds (tx_from tx) = 0"
  shows "\<exists>st. res_fold (check_tx c) txs (ns, ds) = Ok st"
  using assms
proof (induction txs arbitrary: ns ds)
  case (Cons tx txs)
  obtain ns' ds' where step: "check_tx c tx (ns, ds) = Ok (ns', ds')"
    and rest: "\<forall>t \<in> set txs. u64_from_tree ns' (tx_from t) = 0 \<and> u64_from_tree ds' (tx_from t) = 0"
  proof (cases "is_user_tx tx")
    case True
    have "tx_from t \<noteq> tx_from tx" if "t \<in> set txs" for t using Cons.prems(1) that by (auto simp: image_iff)
    moreover have "check_tx c tx (ns, ds) = Ok (tree_insert (tx_from tx) 1 ns,
        tree_insert (tx_from tx) (tx_amount tx + tx_fee tx) ds)"
      using True Cons.prems(2,3)
      by (simp add: check_tx_def is_user_tx_def Let_def linorder_not_le [symmetric])
    ultimately show ?thesis using that Cons.prems(3) by (simp add: chain_simps)
  next
    case False
    then show ?thesis using that Cons.prems(3) check_tx_skip by simp
  qed
  have "\<exists>st. res_fold (check_tx c) txs (ns', ds') = Ok st"
    using Cons.IH [OF _ _ rest] Cons.prems(1,2) by simp
  with step show ?case by simp
qed simp

lemma distinct_froms_take:
  assumes "iteration_order order" "distinct (map tx_from (tree_values m))"
  shows "distinct (map tx_from (take_for_block order n m))"
proof -
  let ?s = "sort_key (\<lambda>tx. - uint (tx_fee tx)) (order (tree_values m))"
  have "mset (map tx_from ?s) = mset (map tx_from (tree_values m))"
    using assms(1) by (simp add: iteration_order_def)
  then have "distinct (map tx_from ?s)" using assms(2) by (metis mset_eq_imp_distinct_iff)
  then show ?thesis by (simp add: take_for_block_def take_map [symmetric] distinct_take)
qed

text \<open>
  C9. Progress: when every pending transaction carries its sender's stored nonce and is covered, and
  no sender has two, a tick whose proof and signature succeed applies and broadcasts a block, and
  removes exactly the included transactions from the pool.
\<close>

theorem producer_tick_progress:
  assumes "hex_codec p" "blake3_size p" "iteration_order order" "ready_pending c m"
    "produce_block p fmt w order now gen c m = Ok b"
  shows "\<exists>c' m'. block_producer_tick p fmt w order now gen c m = Ok (c', m', Some b) \<and>
    chain_height c' = chain_height c + 1 \<and>
    (\<forall>i. tree_get m' i = (if i \<in> tx_id ` set (b_transactions b) then None else tree_get m i))"
proof -
  note f = produce_block_Ok [OF assms(5)]
  define sel where "sel = take_for_block order (MAX_TXS_PER_BLOCK - 1) m"
  have "distinct (map tx_from sel)"
    using distinct_froms_take [OF assms(3)] assms(4) by (simp add: sel_def ready_pending_def)
  moreover have "\<forall>tx \<in> set sel. tx_nonce tx = get_nonce c (tx_from tx) \<and>
      tx_amount tx + tx_fee tx \<le> spendable_balance c tx"
    using set_take_for_block [OF assms(3)] assms(4) unfolding sel_def ready_pending_def by blast
  ultimately obtain st where "res_fold (check_tx c) sel ([], []) = Ok st"
    using check_pass_ready [of sel c "[]" "[]"] by (auto simp: chain_simps)
  then have "res_fold (check_tx c) (b_transactions b) ([], []) = Ok st"
    by (simp add: f(4) sel_def check_tx_skip)
  then have "apply_block c b = Ok (commit_block b c)"
    using f(1,2) by (simp add: apply_block_def)
  then have "block_producer_tick p fmt w order now gen c m
      = Ok (commit_block b c, remove_confirmed (map tx_id (b_transactions b)) m, Some b)"
    using assms(5) by (simp add: block_producer_tick_def produced_hash_slice [OF assms(1,2) f(6)])
  then show ?thesis using f(1) by (simp add: chain_simps remove_confirmed_get)
qed

theorem producer_tick_progress_witness:
  "\<exists>b c' m'. block_producer_tick sample_primitives (\<lambda>_ _. []) sample_wallet (\<lambda>xs. xs) 5 (Ok sample_proof)
      (store_open sample_primitives empty_chain) [(tx_id sample_tx, sample_tx)] = Ok (c', m', Some b) \<and> chain_height c' = 1"
proof -
  have r: "ready_pending (genesis_chain sample_primitives) [(tx_id sample_tx, sample_tx)]"
    by (simp add: ready_pending_def tree_values_def sample_tx_def spendable_balance_def genesis_chain_tip
        genesis_chain_balance genesis_constants)
  obtain b where b: "sample_produced (genesis_chain sample_primitives) [(tx_id sample_tx, sample_tx)] = Ok b"
    using sample_produced_Ok by blast
  show ?thesis
    using producer_tick_progress [OF sample_primitives_ok(1,4) _ r b]
    by (auto simp: iteration_order_def genesis_chain_tip)
qed

text \<open>
  The mempool checks each transaction against the stored nonce only, so it can hold two of one
  sender with the same nonce. While both are selected no block is produced: the store rejects the
  block, and the tick leaves chain and mempool as they were.
\<close>

lemma duplicate_nonce_stalls:
  assumes "tx \<in> set (take_for_block order (MAX_TXS_PER_BLOCK - 1) m)"
    "tx' \<in> set (take_for_block order (MAX_TXS_PER_BLOCK - 1) m)"
    "tx \<noteq> tx'" "is_user_tx tx" "tx_from tx' = tx_from tx" "tx_nonce tx' = tx_nonce tx"
  shows "block_producer_tick p fmt w order now gen c m \<in> {Ok (c, m, None), Panic}"
proof -
  have "\<not> is_ok (apply_block c b)" if "produce_block p fmt w order now gen c m = Ok b" for b
  proof
    assume "is_ok (apply_block c b)"
    then obtain c' where "apply_block c b = Ok c'" by (auto simp: is_ok_iff)
    then obtain st where run: "res_fold (check_tx c) (b_transactions b) ([], []) = Ok st"
      by (auto elim: apply_block_OkE)
    let ?own = "filter (sent_by (tx_from tx)) (b_transactions b)"
    note f = produce_block_Ok [OF that]
    have "length (b_transactions b) \<le> 500"
      by (simp add: f(4) take_for_block_def MAX_TXS_PER_BLOCK_def)
    then have "length ?own \<le> 500" by (rule order_trans [OF length_filter_le])
    then have "length ?own \<le> 2 ^ 64" by simp
    then have "distinct (map tx_nonce ?own)"
      using check_pass_nonce_list [OF run] distinct_of_nat_upt by (simp add: user_count_sent_by)
    moreover have "tx \<in> set ?own" "tx' \<in> set ?own"
      using assms(1,2,4,5) by (auto simp: f(4) sent_by_def is_user_tx_def)
    ultimately show False using assms(3,6) by (auto simp: distinct_map inj_on_def)
  qed
  then show ?thesis
    by (auto simp: block_producer_tick_def Let_def split: res.splits)
qed

definition rival_tx :: transaction where
  "rival_tx = sample_tx\<lparr>tx_id := ''9876543210'', tx_amount := 71\<rparr>"

lemma take_all_two: "set (take_for_block (\<lambda>xs. xs) (MAX_TXS_PER_BLOCK - 1) [(i, t), (j, u)]) = {t, u}"
  by (simp add: take_for_block_def tree_values_def MAX_TXS_PER_BLOCK_def insert_commute)

lemma duplicate_nonce_stalls_sample:
  "block_producer_tick sample_primitives (\<lambda>_ _. []) sample_wallet (\<lambda>xs. xs) 5 (Ok sample_proof) (store_open sample_primitives empty_chain)
     [(tx_id sample_tx, sample_tx), (tx_id rival_tx, rival_tx)]
   \<in> {Ok (store_open sample_primitives empty_chain, [(tx_id sample_tx, sample_tx), (tx_id rival_tx, rival_tx)], None), Panic}"
  by (rule duplicate_nonce_stalls [where tx = sample_tx and tx' = rival_tx])
     (simp_all only: take_all_two, simp_all add: rival_tx_def sample_tx_def is_user_tx_def)

end
