(* ===== verification/Endpoint.thy ===== *)
theory Endpoint
  imports RustStr
begin

text \<open>
  \<^verbatim>\<open>src/src/peer.rs\<close>: normalising peer endpoints and telling public from private addresses, over the standard
  library's parser and printer of IP and socket addresses, which are modelled here as a parser returning the unread
  rest of its input.
\<close>

unbundle bit_operations_syntax

section \<open>Addresses of the standard library\<close>

datatype ip_addr = V4 u8 u8 u8 u8 | V6 "u16 list"

datatype socket_addr = SocketAddrV4 u8 u8 u8 u8 u16 | SocketAddrV6 "u16 list" u16 u32

primrec socket_ip :: "socket_addr \<Rightarrow> ip_addr" where
  "socket_ip (SocketAddrV4 a b c d port) = V4 a b c d"
| "socket_ip (SocketAddrV6 segs port scope) = V6 segs"

definition to_digit :: "nat \<Rightarrow> char \<Rightarrow> nat option" where
  "to_digit radix c =
     (let n = (of_char c :: nat);
          d = (if 48 \<le> n \<and> n \<le> 57 then n - 48
               else if 97 \<le> n \<and> n \<le> 122 then n - 87
               else if 65 \<le> n \<and> n \<le> 90 then n - 55 else 36)
      in if d < radix then Some d else None)"

definition is_digit :: "nat \<Rightarrow> char \<Rightarrow> bool" where
  "is_digit radix c = (to_digit radix c \<noteq> None)"

definition digits_value :: "nat \<Rightarrow> string \<Rightarrow> nat" where
  "digits_value radix ds = foldl (\<lambda>acc c. acc * radix + the (to_digit radix c)) 0 ds"

text \<open>All digits that follow are read; \<open>limit\<close> is the largest value of the number's type.\<close>

definition read_number :: "nat \<Rightarrow> nat option \<Rightarrow> bool \<Rightarrow> nat \<Rightarrow> string \<Rightarrow> (nat \<times> string) option" where
  "read_number radix max_digits allow_zero_prefix limit s =
     (let ds = takeWhile (is_digit radix) s; rest = dropWhile (is_digit radix) s in
      if (case max_digits of None \<Rightarrow> False | Some m \<Rightarrow> m < length ds) then None
      else if ds = [] then None
      else if \<not> allow_zero_prefix \<and> hd ds = CHR ''0'' \<and> 1 < length ds then None
      else if limit < digits_value radix ds then None
      else Some (digits_value radix ds, rest))"

definition read_given_char :: "char \<Rightarrow> string \<Rightarrow> string option" where
  "read_given_char c s = (case s of [] \<Rightarrow> None | x # xs \<Rightarrow> if x = c then Some xs else None)"

definition read_separator :: "char \<Rightarrow> nat \<Rightarrow> (string \<Rightarrow> ('a \<times> string) option) \<Rightarrow> string \<Rightarrow> ('a \<times> string) option" where
  "read_separator sep i inner s =
     (if 0 < i then Option.bind (read_given_char sep s) inner else inner s)"

definition read_octet :: "nat \<Rightarrow> string \<Rightarrow> (nat \<times> string) option" where
  "read_octet i s = read_separator (CHR ''.'') i (read_number 10 (Some 3) False 255) s"

definition read_ipv4_addr :: "string \<Rightarrow> ((u8 \<times> u8 \<times> u8 \<times> u8) \<times> string) option" where
  "read_ipv4_addr s =
     Option.bind (read_octet 0 s) (\<lambda>(a, s1).
     Option.bind (read_octet 1 s1) (\<lambda>(b, s2).
     Option.bind (read_octet 2 s2) (\<lambda>(c, s3).
     Option.bind (read_octet 3 s3) (\<lambda>(d, s4).
       Some ((of_nat a, of_nat b, of_nat c, of_nat d), s4)))))"

function read_groups :: "nat \<Rightarrow> nat \<Rightarrow> u16 list \<Rightarrow> string \<Rightarrow> u16 list \<times> bool \<times> string" where
  "read_groups limit i acc s =
     (if limit \<le> i then (acc, False, s)
      else case (if i < limit - 1 then read_separator (CHR '':'') i read_ipv4_addr s else None) of
             Some ((a, b, c, d), rest) \<Rightarrow> (acc @ [ucast a * 256 + ucast b, ucast c * 256 + ucast d], True, rest)
           | None \<Rightarrow>
               (case read_separator (CHR '':'') i (read_number 16 (Some 4) True 65535) s of
                  Some (g, rest) \<Rightarrow> read_groups limit (Suc i) (acc @ [of_nat g]) rest
                | None \<Rightarrow> (acc, False, s)))"
  by pat_completeness auto
termination
  by (relation "measure (\<lambda>(limit, i, acc, s). limit - i)") auto

declare read_groups.simps [simp del]

definition read_ipv6_addr :: "string \<Rightarrow> (u16 list \<times> string) option" where
  "read_ipv6_addr s =
     (let (head, head_ipv4, s1) = read_groups 8 0 [] s in
      if length head = 8 then Some (head, s1)
      else if head_ipv4 then None
      else Option.bind (read_given_char (CHR '':'') s1) (\<lambda>s2.
           Option.bind (read_given_char (CHR '':'') s2) (\<lambda>s3.
             let (tail, _, s4) = read_groups (8 - (length head + 1)) 0 [] s3
             in Some (head @ replicate (8 - length head - length tail) 0 @ tail, s4))))"

definition read_socket_addr_v4 :: "string \<Rightarrow> (socket_addr \<times> string) option" where
  "read_socket_addr_v4 s =
     Option.bind (read_ipv4_addr s) (\<lambda>((a, b, c, d), s1).
     Option.bind (read_given_char (CHR '':'') s1) (\<lambda>s2.
     Option.bind (read_number 10 None True 65535 s2) (\<lambda>(port, s3).
       Some (SocketAddrV4 a b c d (of_nat port), s3))))"

definition read_scope_id :: "string \<Rightarrow> (u32 \<times> string) option" where
  "read_scope_id s =
     Option.bind (read_given_char (CHR ''%'') s) (\<lambda>s1.
     Option.bind (read_number 10 None True 4294967295 s1) (\<lambda>(n, s2). Some (of_nat n, s2)))"

definition read_socket_addr_v6 :: "string \<Rightarrow> (socket_addr \<times> string) option" where
  "read_socket_addr_v6 s =
     Option.bind (read_given_char (CHR ''['') s) (\<lambda>s1.
     Option.bind (read_ipv6_addr s1) (\<lambda>(segs, s2).
       let (scope, s3) = (case read_scope_id s2 of Some r \<Rightarrow> r | None \<Rightarrow> (0, s2)) in
       Option.bind (read_given_char (CHR '']'') s3) (\<lambda>s4.
       Option.bind (read_given_char (CHR '':'') s4) (\<lambda>s5.
       Option.bind (read_number 10 None True 65535 s5) (\<lambda>(port, s6).
         Some (SocketAddrV6 segs (of_nat port) scope, s6))))))"

definition parse_all :: "('a \<times> string) option \<Rightarrow> 'a option" where
  "parse_all r = (case r of Some (a, rest) \<Rightarrow> if rest = [] then Some a else None | None \<Rightarrow> None)"

definition parse_socket_addr :: "string \<Rightarrow> socket_addr option" where
  "parse_socket_addr s =
     parse_all (case read_socket_addr_v4 s of Some r \<Rightarrow> Some r | None \<Rightarrow> read_socket_addr_v6 s)"

definition parse_ipv6_addr :: "string \<Rightarrow> u16 list option" where
  "parse_ipv6_addr s = parse_all (read_ipv6_addr s)"

text \<open>\<open>str::parse::<u16>\<close>: an optional plus sign and at least one digit.\<close>

definition parse_u16 :: "string \<Rightarrow> u16 option" where
  "parse_u16 s =
     (let ds = (case s of c # cs \<Rightarrow> if c = CHR ''+'' then cs else s | [] \<Rightarrow> s) in
      map_option of_nat (parse_all (read_number 10 None True 65535 ds)))"

section \<open>Printing\<close>

definition hex_char :: "nat \<Rightarrow> char" where
  "hex_char d = (if d < 10 then digit_char d else char_of (87 + d))"

fun hex_lower :: "nat \<Rightarrow> string" where
  "hex_lower n = (if n < 16 then [hex_char n] else hex_lower (n div 16) @ [hex_char (n mod 16)])"

declare hex_lower.simps [simp del]

fun join_colon :: "string list \<Rightarrow> string" where
  "join_colon [] = []"
| "join_colon [x] = x"
| "join_colon (x # y # xs) = x @ '':'' @ join_colon (y # xs)"

definition show_ipv4 :: "u8 \<Rightarrow> u8 \<Rightarrow> u8 \<Rightarrow> u8 \<Rightarrow> string" where
  "show_ipv4 a b c d = dec (unat a) @ ''.'' @ dec (unat b) @ ''.'' @ dec (unat c) @ ''.'' @ dec (unat d)"

text \<open>Start and length of the first longest run of zero segments.\<close>

fun longest_zeros :: "nat \<Rightarrow> nat \<times> nat \<Rightarrow> nat \<times> nat \<Rightarrow> u16 list \<Rightarrow> nat \<times> nat" where
  "longest_zeros i current longest [] = longest"
| "longest_zeros i current longest (x # xs) =
     (if x = 0 then
        let current' = (if snd current = 0 then (i, 1) else (fst current, snd current + 1))
        in longest_zeros (Suc i) current' (if snd longest < snd current' then current' else longest) xs
      else longest_zeros (Suc i) (0, 0) longest xs)"

definition show_segments :: "u16 list \<Rightarrow> string" where
  "show_segments xs = join_colon (map (\<lambda>x. hex_lower (unat x)) xs)"

definition show_ipv6 :: "u16 list \<Rightarrow> string" where
  "show_ipv6 segs =
     (if take 6 segs = [0, 0, 0, 0, 0, 0xffff] then
        ''::ffff:'' @ show_ipv4 (ucast (drop_bit 8 (segs ! 6))) (ucast (segs ! 6))
                                (ucast (drop_bit 8 (segs ! 7))) (ucast (segs ! 7))
      else let (start, len) = longest_zeros 0 (0, 0) (0, 0) segs in
        if 1 < len then show_segments (take start segs) @ ''::'' @ show_segments (drop (start + len) segs)
        else show_segments segs)"

primrec show_socket_addr :: "socket_addr \<Rightarrow> string" where
  "show_socket_addr (SocketAddrV4 a b c d port) = show_ipv4 a b c d @ '':'' @ dec (unat port)"
| "show_socket_addr (SocketAddrV6 segs port scope) =
     ''['' @ show_ipv6 segs @ (if scope = 0 then [] else ''%'' @ dec (unat scope)) @ '']:'' @ dec (unat port)"

section \<open>Endpoints\<close>

primrec is_unspecified_ip :: "ip_addr \<Rightarrow> bool" where
  "is_unspecified_ip (V4 a b c d) \<longleftrightarrow> a = 0 \<and> b = 0 \<and> c = 0 \<and> d = 0"
| "is_unspecified_ip (V6 segs) \<longleftrightarrow> list_all (\<lambda>x. x = 0) segs"

definition is_non_public_v4 :: "u8 \<Rightarrow> u8 \<Rightarrow> u8 \<Rightarrow> u8 \<Rightarrow> bool" where
  "is_non_public_v4 a b c d \<longleftrightarrow>
     (a = 10 \<or> a = 172 \<and> 16 \<le> b \<and> b \<le> 31 \<or> a = 192 \<and> b = 168) \<comment> \<open>\<open>is_private\<close>\<close>
     \<or> a = 127 \<comment> \<open>\<open>is_loopback\<close>\<close>
     \<or> a = 169 \<and> b = 254 \<comment> \<open>\<open>is_link_local\<close>\<close>
     \<or> a = 255 \<and> b = 255 \<and> c = 255 \<and> d = 255 \<comment> \<open>\<open>is_broadcast\<close>\<close>
     \<or> 224 \<le> a \<and> a \<le> 239 \<comment> \<open>\<open>is_multicast\<close>\<close>
     \<or> (a = 192 \<and> b = 0 \<and> c = 2 \<or> a = 198 \<and> b = 51 \<and> c = 100 \<or> a = 203 \<and> b = 0 \<and> c = 113) \<comment> \<open>\<open>is_documentation\<close>\<close>
     \<or> a = 0 \<and> b = 0 \<and> c = 0 \<and> d = 0 \<comment> \<open>\<open>is_unspecified\<close>\<close>
     \<or> a = 100 \<and> b AND 0xC0 = 0x40
     \<or> a = 198 \<and> (b = 18 \<or> b = 19)"

definition is_non_public_v6 :: "u16 list \<Rightarrow> bool" where
  "is_non_public_v6 segs \<longleftrightarrow>
     (let first = hd segs in
        segs = [0, 0, 0, 0, 0, 0, 0, 1]
        \<or> list_all (\<lambda>x. x = 0) segs
        \<or> first AND 0xff00 = 0xff00
        \<or> first AND 0xfe00 = 0xfc00
        \<or> first AND 0xffc0 = 0xfe80)"

primrec is_non_public_ip :: "ip_addr \<Rightarrow> bool" where
  "is_non_public_ip (V4 a b c d) = is_non_public_v4 a b c d"
| "is_non_public_ip (V6 segs) = is_non_public_v6 segs"

definition strip_prefix :: "string \<Rightarrow> string \<Rightarrow> string" where
  "strip_prefix pre s = (if starts_with s pre then drop (length pre) s else s)"

text \<open>\<open>rsplit_once(':')\<close>: what precedes and what follows the last colon.\<close>

definition rsplit_once_colon :: "string \<Rightarrow> (string \<times> string) option" where
  "rsplit_once_colon s =
     (if CHR '':'' \<in> set s
      then Some (rev (tl (dropWhile (\<lambda>c. c \<noteq> CHR '':'') (rev s))), rev (takeWhile (\<lambda>c. c \<noteq> CHR '':'') (rev s)))
      else None)"

definition endpoint_authority :: "string \<Rightarrow> string" where
  "endpoint_authority s =
     (let s = strip_prefix ''https://'' (strip_prefix ''http://'' (strip_prefix ''tcp://'' s)) in
      if CHR ''/'' \<in> set s then trim (takeWhile (\<lambda>c. c \<noteq> CHR ''/'') s) else s)"

definition normalize_host :: "string \<Rightarrow> string option" where
  "normalize_host s =
     (case rsplit_once_colon s of
        None \<Rightarrow> None
      | Some (host_raw0, port_raw) \<Rightarrow>
          (case parse_u16 port_raw of
             None \<Rightarrow> None
           | Some port \<Rightarrow>
               let host_raw = trim host_raw0 in
               if host_raw = [] \<or> list_ex (str_contains host_raw) white_space then None
               else
                 let host = (if starts_with host_raw ''['' \<and> ends_with host_raw '']'' \<and> 2 < length host_raw
                             then butlast (tl host_raw) else host_raw)
                 in case parse_ipv6_addr host of
                      Some v6 \<Rightarrow>
                        if is_unspecified_ip (V6 v6) then None else Some (show_socket_addr (SocketAddrV6 v6 port 0))
                    | None \<Rightarrow>
                        let host_lower = to_ascii_lowercase host in
                        if host_lower = [] then None
                        else if host_lower \<in> {''0.0.0.0'', ''::'', ''[::]''} then None
                        else Some (host_lower @ '':'' @ dec (unat port))))"

definition normalize_peer_endpoint :: "string \<Rightarrow> string option" where
  "normalize_peer_endpoint raw =
     (let s0 = trim (takeWhile (\<lambda>c. c \<noteq> CHR ''#'') raw) in
      if s0 = [] then None
      else let s = endpoint_authority s0 in
        if s = [] then None
        else case parse_socket_addr s of
               Some addr \<Rightarrow> if is_unspecified_ip (socket_ip addr) then None else Some (show_socket_addr addr)
             | None \<Rightarrow> normalize_host s)"

definition is_public_peer_endpoint :: "string \<Rightarrow> bool" where
  "is_public_peer_endpoint raw =
     (case normalize_peer_endpoint raw of
        None \<Rightarrow> False
      | Some normalized \<Rightarrow>
          (case parse_socket_addr normalized of
             Some addr \<Rightarrow> \<not> is_non_public_ip (socket_ip addr)
           | None \<Rightarrow> True))"

section \<open>Reading back what is printed\<close>

lemma to_digit_digit_char [simp]: "d < 10 \<Longrightarrow> to_digit 10 (digit_char d) = Some d"
  by (simp add: to_digit_def digit_char_def)

lemma dec_digits: "c \<in> set (dec n) \<Longrightarrow> \<exists>d < 10. c = digit_char d"
proof (induction n rule: dec.induct)
  case (1 n)
  show ?case
  proof (cases "n < 10")
    case True
    with 1(2) show ?thesis by (auto simp: dec.simps [of n])
  next
    case False
    with 1(2) consider "c \<in> set (dec (n div 10))" | "c = digit_char (n mod 10)" by (auto simp: dec.simps [of n])
    then show ?thesis
    proof cases
      case 1
      then show ?thesis by (rule "1.IH" [OF False])
    next
      case 2
      then show ?thesis by (intro exI [of _ "n mod 10"]) simp
    qed
  qed
qed

lemma dec_is_digit: "c \<in> set (dec n) \<Longrightarrow> is_digit 10 c"
  by (drule dec_digits) (auto simp: is_digit_def)

lemma digits_value_dec [simp]: "digits_value 10 (dec n) = n"
proof (induction n rule: dec.induct)
  case (1 n)
  show ?case
  proof (cases "n < 10")
    case True
    then show ?thesis by (simp add: dec.simps [of n] digits_value_def)
  next
    case False
    with 1 show ?thesis by (simp add: dec.simps [of n] digits_value_def)
  qed
qed

lemma hd_dec: "0 < n \<Longrightarrow> hd (dec n) \<noteq> CHR ''0''"
proof (induction n rule: dec.induct)
  case (1 n)
  show ?case
  proof (cases "n < 10")
    case True
    with 1(2) have "(of_char (digit_char n) :: nat) \<noteq> of_char (CHR ''0'')" by (simp add: digit_char_def)
    with True show ?thesis by (auto simp: dec.simps [of n])
  next
    case False
    with 1 show ?thesis by (simp add: dec.simps [of n] dec_neq_Nil)
  qed
qed

lemma length_dec_le3: "n < 1000 \<Longrightarrow> length (dec n) \<le> 3"
  by (simp add: dec.simps [of n] dec.simps [of "n div 10"] dec.simps [of "n div 100"] div_mult2_eq [symmetric])

definition no_digit_next :: "string \<Rightarrow> bool" where
  "no_digit_next s \<longleftrightarrow> s = [] \<or> \<not> is_digit 10 (hd s)"

lemma take_drop_dec:
  assumes "no_digit_next rest"
  shows "takeWhile (is_digit 10) (dec n @ rest) = dec n" "dropWhile (is_digit 10) (dec n @ rest) = rest"
proof -
  have "takeWhile (is_digit 10) rest = []" "dropWhile (is_digit 10) rest = rest"
    using assms by (cases rest; simp add: no_digit_next_def)+
  then show "takeWhile (is_digit 10) (dec n @ rest) = dec n" "dropWhile (is_digit 10) (dec n @ rest) = rest"
    by (simp_all add: takeWhile_append2 dropWhile_append2 dec_is_digit)
qed

lemma read_number_dec:
  assumes "no_digit_next rest" "n \<le> limit" "case m of None \<Rightarrow> True | Some k \<Rightarrow> length (dec n) \<le> k"
  shows "read_number 10 m z limit (dec n @ rest) = Some (n, rest)"
proof -
  have z: "\<not> (hd (dec n) = CHR ''0'' \<and> 1 < length (dec n))"
    using hd_dec [of n] dec_length_1_iff [of n] by (cases "n = 0") auto
  have m: "\<not> (case m of None \<Rightarrow> False | Some k \<Rightarrow> k < length (dec n))"
    using assms(3) by (cases m) simp_all
  show ?thesis
    unfolding read_number_def take_drop_dec [OF assms(1)] Let_def digits_value_dec
    using z m assms(2) by (simp add: dec_neq_Nil)
qed

lemma read_octet_dec:
  assumes "no_digit_next rest"
  shows "read_octet 0 (dec (unat (a :: u8)) @ rest) = Some (unat a, rest)"
    "0 < i \<Longrightarrow> read_octet i (CHR ''.'' # dec (unat a) @ rest) = Some (unat a, rest)"
proof -
  have "unat a \<le> 255" using unsigned_less [of a, where ?'a = nat] by simp
  then have "read_number 10 (Some 3) False 255 (dec (unat a) @ rest) = Some (unat a, rest)"
    by (intro read_number_dec assms) (simp_all add: length_dec_le3)
  then show "read_octet 0 (dec (unat a) @ rest) = Some (unat a, rest)"
    "0 < i \<Longrightarrow> read_octet i (CHR ''.'' # dec (unat a) @ rest) = Some (unat a, rest)"
    by (simp_all add: read_octet_def read_separator_def read_given_char_def)
qed

lemma no_digit_next_simps [simp]:
  "no_digit_next []" "no_digit_next (CHR ''.'' # s)" "no_digit_next (CHR '':'' # s)" "no_digit_next (CHR '']'' # s)"
  by (simp_all add: no_digit_next_def is_digit_def to_digit_def)

lemma read_show_ipv4:
  assumes "no_digit_next rest"
  shows "read_ipv4_addr (show_ipv4 a b c d @ rest) = Some ((a, b, c, d), rest)"
proof -
  have d: "read_octet 3 (CHR ''.'' # dec (unat d) @ rest) = Some (unat d, rest)"
    by (rule read_octet_dec(2) [OF assms]) simp
  show ?thesis
    by (simp add: read_ipv4_addr_def show_ipv4_def read_octet_dec d)
qed

lemma parse_show_v4:
  "parse_socket_addr (show_socket_addr (SocketAddrV4 a b c d port)) = Some (SocketAddrV4 a b c d port)"
proof -
  have "unat port \<le> 65535" using unsigned_less [of port, where ?'a = nat] by simp
  then have "read_number 10 None True 65535 (dec (unat port) @ []) = Some (unat port, [])"
    by (intro read_number_dec) simp_all
  then show ?thesis
    using read_show_ipv4 [of "CHR '':'' # dec (unat port)" a b c d]
    by (simp add: parse_socket_addr_def read_socket_addr_v4_def parse_all_def read_given_char_def)
qed

section \<open>Canonical endpoints\<close>

lemma strip_prefixes_id: "\<forall>w \<in> set ws. \<not> starts_with s w \<Longrightarrow> strip_prefixes ws s = s"
  by (subst strip_prefixes.simps) (auto simp: find_None_iff split: option.splits dest!: find_in_set)

definition solid :: "char \<Rightarrow> bool" where
  "solid c \<longleftrightarrow> is_digit 10 c \<or> c = CHR ''['' "

lemma white_space_ends: "\<forall>w \<in> set white_space. w \<noteq> [] \<and> \<not> solid (hd w) \<and> \<not> is_digit 10 (last w)"
  by (simp add: white_space_def solid_def is_digit_def to_digit_def)

lemma trim_id:
  assumes "s \<noteq> []" "solid (hd s)" "is_digit 10 (last s)"
  shows "trim s = s"
proof -
  have first: "hd s = hd w" if "starts_with s w" "w \<noteq> []" for w s
    using that by (auto simp: starts_with_iff)
  have "\<forall>w \<in> set white_space. \<not> starts_with s w"
    using assms white_space_ends first by metis
  then have 1: "trim_start s = s" by (simp add: trim_start_def strip_prefixes_id)
  have "\<forall>w \<in> set (map rev white_space). \<not> starts_with (rev s) w"
    using assms white_space_ends first [of "rev s"] by (fastforce simp: hd_rev)
  then have "trim_end s = s" by (simp add: trim_end_def strip_prefixes_id)
  with 1 show ?thesis by (simp add: trim_def)
qed

lemma strip_prefix_other: "s \<noteq> [] \<Longrightarrow> pre \<noteq> [] \<Longrightarrow> hd s \<noteq> hd pre \<Longrightarrow> strip_prefix pre s = s"
  by (auto simp: strip_prefix_def starts_with_iff)

lemma normalize_canonical:
  assumes "s \<noteq> []" "solid (hd s)" "is_digit 10 (last s)" "CHR ''#'' \<notin> set s" "CHR ''/'' \<notin> set s"
    and "parse_socket_addr s = Some addr"
  shows "normalize_peer_endpoint s = (if is_unspecified_ip (socket_ip addr) then None else Some (show_socket_addr addr))"
proof -
  have cut: "takeWhile (\<lambda>c. c \<noteq> CHR ''#'') s = s" using assms(4) by (subst takeWhile_eq_all_conv) auto
  have "hd s \<noteq> CHR ''h''" "hd s \<noteq> CHR ''t''"
    using assms(2) by (auto simp: solid_def is_digit_def to_digit_def)
  then have auth: "endpoint_authority s = s"
    using assms(1,5) by (simp add: endpoint_authority_def strip_prefix_other)
  show ?thesis
    unfolding normalize_peer_endpoint_def cut trim_id [OF assms(1-3)] Let_def auth using assms(1,6) by simp
qed

lemma dec_ends: "is_digit 10 (hd (dec n))" "is_digit 10 (last (dec n))"
  using dec_is_digit [of "hd (dec n)" n] dec_is_digit [of "last (dec n)" n] dec_neq_Nil [of n] by simp_all

lemma dec_no_marks: "CHR ''#'' \<notin> set (dec n)" "CHR ''/'' \<notin> set (dec n)"
  using dec_is_digit [of "CHR ''#''" n] dec_is_digit [of "CHR ''/''" n] by (auto simp: is_digit_def to_digit_def)

lemma v4_shape:
  fixes a b c d port
  defines "s \<equiv> show_socket_addr (SocketAddrV4 a b c d port)"
  shows "s \<noteq> []" "solid (hd s)" "is_digit 10 (last s)" "CHR ''#'' \<notin> set s" "CHR ''/'' \<notin> set s"
  by (simp_all add: s_def show_ipv4_def solid_def dec_ends dec_no_marks dec_neq_Nil)

text \<open>
  IPv4 endpoints are canonical and filtered as stated: the printed form of every address and port is its own
  normal form (only 0.0.0.0 is rejected), and it counts as public exactly when the address is outside the
  private, loopback, link-local, broadcast, multicast, documentation, shared and benchmarking ranges.
\<close>

lemma ipv4_endpoint_roundtrip:
  "normalize_peer_endpoint (show_socket_addr (SocketAddrV4 a b c d port))
     = (if a = 0 \<and> b = 0 \<and> c = 0 \<and> d = 0 then None else Some (show_socket_addr (SocketAddrV4 a b c d port)))
   \<and> is_public_peer_endpoint (show_socket_addr (SocketAddrV4 a b c d port)) = (\<not> is_non_public_v4 a b c d)"
proof -
  have n: "normalize_peer_endpoint (show_socket_addr (SocketAddrV4 a b c d port))
     = (if a = 0 \<and> b = 0 \<and> c = 0 \<and> d = 0 then None else Some (show_socket_addr (SocketAddrV4 a b c d port)))"
    using normalize_canonical [OF v4_shape parse_show_v4] by simp
  moreover have "is_public_peer_endpoint (show_socket_addr (SocketAddrV4 a b c d port)) = (\<not> is_non_public_v4 a b c d)"
    unfolding is_public_peer_endpoint_def n using parse_show_v4 [of a b c d port]
    by (auto simp: is_non_public_v4_def simp del: show_socket_addr.simps)
  ultimately show ?thesis by blast
qed

section \<open>Addresses that slip through\<close>

definition mapped_segments :: "u8 \<Rightarrow> u8 \<Rightarrow> u8 \<Rightarrow> u8 \<Rightarrow> u16 list" where
  "mapped_segments a b c d = [0, 0, 0, 0, 0, 0xffff, ucast a * 256 + ucast b, ucast c * 256 + ucast d]"

lemma pair_bytes:
  "ucast (drop_bit 8 (ucast a * 256 + ucast b :: u16)) = (a :: u8)" "ucast (ucast a * 256 + ucast b :: u16) = (b :: u8)"
proof -
  have a: "unat a < 256" "unat b < 256"
    using unsigned_less [of a, where ?'a = nat] unsigned_less [of b, where ?'a = nat] by simp_all
  have "unat (ucast a * 256 + ucast b :: u16) = unat a * 256 + unat b"
    using a by (simp add: unat_word_ariths take_bit_eq_mod unsigned_ucast_eq)
  moreover have "unat (drop_bit 8 w) = unat w div 256" for w :: u16
    using unsigned_less [of w, where ?'a = nat]
    by (simp only: unsigned_drop_bit_eq) (simp add: drop_bit_eq_div take_bit_eq_mod)
  ultimately show "ucast (drop_bit 8 (ucast a * 256 + ucast b :: u16)) = a" "ucast (ucast a * 256 + ucast b :: u16) = b"
    using a by (auto intro!: unsigned_word_eqI [where 'a = nat] simp: unsigned_ucast_eq take_bit_eq_mod)
qed

lemma show_mapped: "show_ipv6 (mapped_segments a b c d) = ''::ffff:'' @ show_ipv4 a b c d"
  by (simp add: show_ipv6_def mapped_segments_def pair_bytes)

lemma read_groups_none:
  "read_number 16 (Some 4) True 65535 s = None \<Longrightarrow> read_ipv4_addr s = None \<Longrightarrow> read_groups (Suc n) 0 [] s = ([], False, s)"
  by (subst read_groups.simps) (simp add: read_separator_def)

lemma read_mapped:
  "read_ipv6_addr (''::ffff:'' @ show_ipv4 a b c d @ '']'' @ rest) = Some (mapped_segments a b c d, '']'' @ rest)"
proof -
  let ?v = "show_ipv4 a b c d @ '']'' @ rest"
  have dig: "to_digit 16 (CHR ''f'') = Some 15" "to_digit 16 (CHR '':'') = None" "to_digit 10 (CHR ''f'') = None"
    "to_digit 10 (CHR '':'') = None"
    by (simp_all add: to_digit_def)
  have head: "read_groups 8 0 [] (''::ffff:'' @ ?v) = ([], False, ''::ffff:'' @ ?v)"
    using read_groups_none [of "''::ffff:'' @ ?v" 7]
    by (simp add: read_number_def is_digit_def dig read_ipv4_addr_def read_octet_def read_separator_def Let_def)
  have "read_ipv4_addr ?v = Some ((a, b, c, d), '']'' @ rest)"
    using read_show_ipv4 [of "'']'' @ rest" a b c d] by simp
  then have "read_groups 7 1 [0xffff] (CHR '':'' # ?v) = ([0xffff, ucast a * 256 + ucast b, ucast c * 256 + ucast d], True, '']'' @ rest)"
    by (subst read_groups.simps) (simp add: read_separator_def read_given_char_def)
  then have tail: "read_groups 7 0 [] (''ffff:'' @ ?v)
      = ([0xffff, ucast a * 256 + ucast b, ucast c * 256 + ucast d], True, '']'' @ rest)"
    by (subst read_groups.simps)
      (simp add: read_separator_def read_ipv4_addr_def read_octet_def read_number_def is_digit_def dig digits_value_def Let_def)
  show ?thesis
    using head tail by (simp add: read_ipv6_addr_def read_given_char_def mapped_segments_def Let_def numeral_eq_Suc)
qed

lemma parse_mapped:
  "parse_socket_addr (''[::ffff:'' @ show_ipv4 a b c d @ '']:'' @ dec (unat port))
     = Some (SocketAddrV6 (mapped_segments a b c d) port 0)"
proof -
  let ?s = "''[::ffff:'' @ show_ipv4 a b c d @ '']:'' @ dec (unat port)"
  have "read_ipv4_addr ?s = None"
    by (simp add: read_ipv4_addr_def read_octet_def read_separator_def read_number_def is_digit_def to_digit_def Let_def)
  moreover have "unat port \<le> 65535" using unsigned_less [of port, where ?'a = nat] by simp
  then have "read_number 10 None True 65535 (dec (unat port) @ []) = Some (unat port, [])"
    by (intro read_number_dec) simp_all
  moreover have "read_scope_id (CHR '']'' # t) = None" for t
    by (simp add: read_scope_id_def read_given_char_def)
  ultimately show ?thesis
    using read_mapped [of a b c d "'':'' @ dec (unat port)"]
    by (simp add: parse_socket_addr_def read_socket_addr_v4_def read_socket_addr_v6_def read_given_char_def parse_all_def Let_def)
qed

text \<open>
  Private addresses pass the filter in IPv6 notation: the IPv4-mapped form of every IPv4 address, loopback and
  private ones included, is kept by normalisation and counts as public, since the IPv6 test does not look at
  the embedded address. Peers can so make a node remember and dial its own local services.
\<close>

lemma mapped_address_counts_public:
  "normalize_peer_endpoint (''[::ffff:'' @ show_ipv4 a b c d @ '']:'' @ dec (unat (port :: u16)))
     = Some (''[::ffff:'' @ show_ipv4 a b c d @ '']:'' @ dec (unat port))
   \<and> is_public_peer_endpoint (''[::ffff:'' @ show_ipv4 a b c d @ '']:'' @ dec (unat port))"
proof -
  let ?s = "''[::ffff:'' @ show_ipv4 a b c d @ '']:'' @ dec (unat port)"
  have "show_socket_addr (SocketAddrV6 (mapped_segments a b c d) port 0) = ?s"
    by (simp add: show_mapped)
  moreover have "\<not> is_unspecified_ip (V6 (mapped_segments a b c d))" by (simp add: mapped_segments_def)
  ultimately have n: "normalize_peer_endpoint ?s = Some ?s"
    using normalize_canonical [OF _ _ _ _ _ parse_mapped [of a b c d port]]
    by (simp add: solid_def show_ipv4_def dec_neq_Nil dec_ends dec_no_marks)
  then have "is_public_peer_endpoint ?s"
    unfolding is_public_peer_endpoint_def n option.case parse_mapped
    by (simp add: is_non_public_v6_def mapped_segments_def)
  with n show ?thesis by blast
qed

end
