(* ===== verification/PeerBook.thy ===== *)
theory PeerBook
  imports Endpoint
begin

text \<open>
  The peer book of \<^verbatim>\<open>src/src/store.rs\<close>: the persistent records of known peers, their quarantine after failed
  connections, pruning, and the candidates a node dials at start-up. Disk errors and records that do not
  decode are not modelled.
\<close>

definition KNOWN_PEER_FAILURE_QUARANTINE_THRESHOLD :: u64 where "KNOWN_PEER_FAILURE_QUARANTINE_THRESHOLD = 3"
definition KNOWN_PEER_QUARANTINE_BASE_MS :: u64 where "KNOWN_PEER_QUARANTINE_BASE_MS = 15 * 60 * 1000"
definition KNOWN_PEER_PRUNE_FAILURES :: u64 where "KNOWN_PEER_PRUNE_FAILURES = 8"

record known_peer_record =
  kp_addr :: string
  kp_source :: string
  kp_first_seen_ms :: u64
  kp_last_seen_ms :: u64
  kp_successful_connects :: u64
  kp_last_connected_ms :: u64
  kp_failed_connects :: u64
  kp_last_failed_ms :: u64
  kp_quarantined_until_ms :: u64

type_synonym peer_book = "(string, known_peer_record) tree"

definition quarantine_backoff_ms :: "u64 \<Rightarrow> u64" where
  "quarantine_backoff_ms failed_connects =
     saturating_mul KNOWN_PEER_QUARANTINE_BASE_MS
       (push_bit (unat (min (saturating_sub failed_connects KNOWN_PEER_FAILURE_QUARANTINE_THRESHOLD) 6)) 1)"

definition should_replace_source :: "string \<Rightarrow> string \<Rightarrow> bool" where
  "should_replace_source current incoming =
     (if incoming = [] then False
      else if incoming = ''bootstrap'' then True
      else trim current = [] \<or> current \<noteq> ''bootstrap'')"

definition new_peer_record :: "string \<Rightarrow> string \<Rightarrow> u64 \<Rightarrow> known_peer_record" where
  "new_peer_record addr source now =
     \<lparr>kp_addr = addr, kp_source = source, kp_first_seen_ms = now, kp_last_seen_ms = now, kp_successful_connects = 0,
      kp_last_connected_ms = 0, kp_failed_connects = 0, kp_last_failed_ms = 0, kp_quarantined_until_ms = 0\<rparr>"

definition touch_peer :: "string \<Rightarrow> string \<Rightarrow> u64 \<Rightarrow> known_peer_record \<Rightarrow> known_peer_record" where
  "touch_peer addr source now r =
     r\<lparr>kp_addr := addr, kp_last_seen_ms := now,
       kp_source := (if should_replace_source (kp_source r) (trim source) then source else kp_source r)\<rparr>"

definition connect_peer :: "u64 \<Rightarrow> known_peer_record \<Rightarrow> known_peer_record" where
  "connect_peer now r =
     r\<lparr>kp_successful_connects := saturating_add (kp_successful_connects r) 1, kp_last_connected_ms := now,
       kp_failed_connects := 0, kp_last_failed_ms := 0, kp_quarantined_until_ms := 0\<rparr>"

definition fail_peer :: "u64 \<Rightarrow> known_peer_record \<Rightarrow> known_peer_record" where
  "fail_peer now r =
     (let n = saturating_add (kp_failed_connects r) 1;
          r' = r\<lparr>kp_failed_connects := n, kp_last_failed_ms := now\<rparr>
      in if KNOWN_PEER_FAILURE_QUARANTINE_THRESHOLD \<le> n
         then r'\<lparr>kp_quarantined_until_ms := saturating_add now (quarantine_backoff_ms n)\<rparr> else r')"

definition upsert_known_peer :: "u64 \<Rightarrow> string \<Rightarrow> string \<Rightarrow> bool \<Rightarrow> bool \<Rightarrow> peer_book \<Rightarrow> peer_book" where
  "upsert_known_peer now addr0 source mark_connected mark_failed book =
     (let addr = trim addr0 in
      if addr = [] then book
      else
        let r0 = (case tree_get book addr of Some r \<Rightarrow> r | None \<Rightarrow> new_peer_record addr source now);
            r1 = touch_peer addr source now r0;
            r2 = (if mark_connected then connect_peer now r1 else r1);
            r3 = (if mark_failed then fail_peer now r2 else r2)
        in tree_insert addr r3 book)"

definition remember_peer :: "u64 \<Rightarrow> string \<Rightarrow> string \<Rightarrow> peer_book \<Rightarrow> peer_book" where
  "remember_peer now addr source book = upsert_known_peer now addr source False False book"

definition mark_peer_connected :: "u64 \<Rightarrow> string \<Rightarrow> string \<Rightarrow> peer_book \<Rightarrow> peer_book" where
  "mark_peer_connected now addr source book = upsert_known_peer now addr source True False book"

definition mark_peer_failed :: "u64 \<Rightarrow> string \<Rightarrow> string \<Rightarrow> peer_book \<Rightarrow> peer_book" where
  "mark_peer_failed now addr source book = upsert_known_peer now addr source False True book"

definition remove_known_peer :: "string \<Rightarrow> peer_book \<Rightarrow> bool \<times> peer_book" where
  "remove_known_peer addr0 book =
     (let addr = trim addr0 in
      if addr = [] then (False, book) else (tree_get book addr \<noteq> None, tree_remove addr book))"

definition sync_bootstrap_peers :: "string list \<Rightarrow> peer_book \<Rightarrow> nat \<times> peer_book" where
  "sync_bootstrap_peers current_bootstrap book =
     (let desired = List.map_filter normalize_peer_endpoint current_bootstrap;
          to_remove = map kp_addr (filter (\<lambda>r. kp_source r = ''bootstrap'' \<and> trim (kp_addr r) \<notin> set desired) (tree_values book))
      in (length to_remove, fold tree_remove to_remove book))"

text \<open>Most recently connected first, then most recently seen.\<close>

definition recency :: "known_peer_record \<Rightarrow> int" where
  "recency r = - (uint (kp_last_connected_ms r) * 2 ^ 64 + uint (kp_last_seen_ms r))"

definition list_known_peers :: "nat \<Rightarrow> peer_book \<Rightarrow> known_peer_record list" where
  "list_known_peers limit book =
     (let peers = filter (\<lambda>r. kp_addr r \<noteq> []) (map (\<lambda>r. r\<lparr>kp_addr := trim (kp_addr r)\<rparr>) (tree_values book))
      in take limit (sort_key recency peers))"

definition should_prune :: "string set \<Rightarrow> known_peer_record \<Rightarrow> bool" where
  "should_prune local_aliases r \<longleftrightarrow>
     trim (kp_addr r) \<in> local_aliases
     \<or> kp_source r \<noteq> ''bootstrap'' \<and> \<not> is_public_peer_endpoint (kp_addr r)
     \<or> kp_successful_connects r = 0 \<and> KNOWN_PEER_PRUNE_FAILURES \<le> kp_failed_connects r"

fun prune_each :: "string set \<Rightarrow> known_peer_record list \<Rightarrow> nat \<Rightarrow> peer_book \<Rightarrow> nat \<times> peer_book" where
  "prune_each local_aliases [] removed book = (removed, book)"
| "prune_each local_aliases (r # rs) removed book =
     (if should_prune local_aliases r
      then let (gone, book') = remove_known_peer (kp_addr r) book
           in prune_each local_aliases rs (if gone then Suc removed else removed) book'
      else prune_each local_aliases rs removed book)"

definition prune_known_peers :: "string set \<Rightarrow> peer_book \<Rightarrow> nat \<times> peer_book" where
  "prune_known_peers local_aliases book =
     prune_each local_aliases (list_known_peers (length book) book) 0 book"

definition dialable :: "u64 \<Rightarrow> string set \<Rightarrow> known_peer_record \<Rightarrow> bool" where
  "dialable now local_aliases r \<longleftrightarrow>
     trim (kp_addr r) \<notin> local_aliases
     \<and> (kp_quarantined_until_ms r = 0 \<or> kp_quarantined_until_ms r \<le> now)
     \<and> (kp_source r = ''bootstrap'' \<or> is_public_peer_endpoint (kp_addr r))"

definition list_bootstrap_peer_addresses :: "u64 \<Rightarrow> nat \<Rightarrow> string set \<Rightarrow> peer_book \<Rightarrow> string list" where
  "list_bootstrap_peer_addresses now limit local_aliases book =
     map kp_addr (take limit (filter (dialable now local_aliases) (list_known_peers (length book) book)))"

section \<open>Trimming\<close>

lemma strip_prefixes_stable: "w \<in> set ws \<Longrightarrow> w \<noteq> [] \<Longrightarrow> \<not> starts_with (strip_prefixes ws s) w"
proof (induction ws s rule: strip_prefixes.induct)
  case (1 ws s)
  show ?case
  proof (cases "find (\<lambda>w. w \<noteq> [] \<and> starts_with s w) ws")
    case None
    then have "strip_prefixes ws s = s" by (subst strip_prefixes.simps) simp
    with None 1(2,3) show ?thesis by (auto simp: find_None_iff)
  next
    case (Some v)
    with 1 show ?thesis by (subst strip_prefixes.simps) simp
  qed
qed

lemma strip_prefixes_suffix: "\<exists>u. s = u @ strip_prefixes ws s"
proof (induction ws s rule: strip_prefixes.induct)
  case (1 ws s)
  show ?case
  proof (cases "find (\<lambda>w. w \<noteq> [] \<and> starts_with s w) ws")
    case None
    then show ?thesis by (subst strip_prefixes.simps) simp
  next
    case (Some v)
    with 1 obtain u where "drop (length v) s = u @ strip_prefixes ws (drop (length v) s)" by blast
    with Some show ?thesis by (subst strip_prefixes.simps) (simp, metis append.assoc append_take_drop_id)
  qed
qed

lemma trim_idem [simp]: "trim (trim s) = trim s"
proof -
  let ?u = "trim_start s"
  have ws: "\<forall>w \<in> set white_space. w \<noteq> []" using white_space_ends by blast
  obtain v where v: "?u = trim_end ?u @ v"
    using strip_prefixes_suffix [of "rev ?u" "map rev white_space"]
    by (auto simp: trim_end_def) (metis rev_append rev_rev_ident)
  have "\<not> starts_with (trim s) w" if w: "w \<in> set white_space" for w
  proof
    assume "starts_with (trim s) w"
    then have "starts_with ?u w" unfolding trim_def starts_with_iff using v by (metis append.assoc)
    with strip_prefixes_stable [of w white_space s] w ws show False by (simp add: trim_start_def)
  qed
  then have 1: "trim_start (trim s) = trim s" by (simp add: trim_start_def strip_prefixes_id)
  have "\<not> starts_with (rev (trim s)) w" if "w \<in> set (map rev white_space)" for w
    using strip_prefixes_stable [of w "map rev white_space" "rev ?u"] that ws
    by (auto simp: trim_def trim_end_def)
  then have "trim_end (trim s) = trim s" by (simp add: trim_end_def strip_prefixes_id)
  with 1 show ?thesis by (simp add: trim_def)
qed

section \<open>The invariant of the book\<close>

definition book_ok :: "peer_book \<Rightarrow> bool" where
  "book_ok book \<longleftrightarrow> tree_wf book \<and> (\<forall>(k, r) \<in> set book. kp_addr r = k \<and> trim k = k \<and> k \<noteq> [])"

lemma upserted_addr [simp]:
  "kp_addr (touch_peer a s now r) = a"
  "kp_addr (connect_peer now r) = kp_addr r"
  "kp_addr (fail_peer now r) = kp_addr r"
  by (simp_all add: fail_peer_def connect_peer_def touch_peer_def Let_def)

lemma book_ok_insert: "book_ok book \<Longrightarrow> kp_addr r = k \<Longrightarrow> trim k = k \<Longrightarrow> k \<noteq> [] \<Longrightarrow> book_ok (tree_insert k r book)"
  using set_tree_insert_subset [of k r book] by (auto simp: book_ok_def)

lemma book_ok_upsert: "book_ok book \<Longrightarrow> book_ok (upsert_known_peer now a s c f book)"
  unfolding upsert_known_peer_def Let_def by (auto intro!: book_ok_insert)

lemma book_ok_remove: "book_ok book \<Longrightarrow> book_ok (tree_remove k book)"
  by (auto simp: book_ok_def tree_remove_def)

inductive book_reach :: "peer_book \<Rightarrow> bool" where
  new: "book_reach []"
| upsert: "book_reach book \<Longrightarrow> book_reach (upsert_known_peer now a s c f book)"
| remove: "book_reach book \<Longrightarrow> book_reach (snd (remove_known_peer a book))"
| sync: "book_reach book \<Longrightarrow> book_reach (snd (sync_bootstrap_peers seeds book))"
| prune: "book_reach book \<Longrightarrow> book_reach (snd (prune_known_peers aliases book))"

lemma book_ok_fold_remove: "book_ok book \<Longrightarrow> book_ok (fold tree_remove ks book)"
  by (induction ks arbitrary: book) (auto intro: book_ok_remove)

lemma book_ok_remove_known: "book_ok book \<Longrightarrow> book_ok (snd (remove_known_peer a book))"
  by (simp add: remove_known_peer_def Let_def book_ok_remove)

lemma book_ok_prune_each: "book_ok book \<Longrightarrow> book_ok (snd (prune_each al rs n book))"
proof (induction rs arbitrary: n book)
  case (Cons r rs)
  then show ?case
    using book_ok_remove_known [OF Cons.prems, of "kp_addr r"] by (auto simp: Let_def split: prod.split)
qed simp

lemma book_reach_ok: "book_reach book \<Longrightarrow> book_ok book"
proof (induction rule: book_reach.induct)
  case new
  show ?case by (simp add: book_ok_def)
qed (auto intro: book_ok_upsert book_ok_remove_known book_ok_fold_remove book_ok_prune_each
    simp: sync_bootstrap_peers_def prune_known_peers_def Let_def)

section \<open>Candidates\<close>

lemma list_known_all:
  assumes "book_ok book"
  shows "set (list_known_peers (length book) book) = snd ` set book"
proof -
  have m: "map (\<lambda>r. r\<lparr>kp_addr := trim (kp_addr r)\<rparr>) (tree_values book) = tree_values book"
    using assms by (auto simp: book_ok_def tree_values_def intro!: map_idI)
  have f: "filter (\<lambda>r. kp_addr r \<noteq> []) (tree_values book) = tree_values book"
    using assms by (auto simp: book_ok_def tree_values_def filter_id_conv)
  show ?thesis unfolding list_known_peers_def Let_def m f by (simp add: tree_values_def)
qed

lemma book_record_unique:
  assumes "book_ok book" "r \<in> snd ` set book"
  shows "tree_get book (kp_addr r) = Some r"
  using assms tree_get_Some_iff [of book "kp_addr r" r] by (auto simp: book_ok_def)

lemma listed_candidate:
  assumes "book_ok book" and "a \<in> set (list_bootstrap_peer_addresses now limit local_aliases book)"
  shows "\<exists>r. tree_get book a = Some r \<and> dialable now local_aliases r \<and> kp_addr r = a"
proof -
  obtain r where l: "r \<in> set (list_known_peers (length book) book)" and r: "dialable now local_aliases r" "kp_addr r = a"
    using assms(2) by (auto simp: list_bootstrap_peer_addresses_def dest!: in_set_takeD)
  from l have "r \<in> snd ` set book" by (simp only: list_known_all [OF assms(1)])
  from book_record_unique [OF assms(1) this] r show ?thesis by auto
qed

lemma unat_quarantine: "unat (quarantine_backoff_ms n) = 900000 * 2 ^ min (unat n - 3) 6"
proof -
  have m: "unat (min (saturating_sub n 3) 6) = min (unat n - 3) 6"
    by (simp add: min_def word_le_nat_alt unat_saturating_sub)
  have le: "(2::nat) ^ min (unat n - 3) 6 \<le> 2 ^ 6" by (intro power_increasing) simp_all
  then have "unat (of_nat (2 ^ min (unat n - 3) 6) :: u64) = 2 ^ min (unat n - 3) 6"
    by (intro unat_of_nat_u64) simp
  with le show ?thesis
    by (simp add: quarantine_backoff_ms_def KNOWN_PEER_QUARANTINE_BASE_MS_def KNOWN_PEER_FAILURE_QUARANTINE_THRESHOLD_def
        m unat_saturating_mul push_bit_eq_mult)
qed



end
