(* ===== verification/AgentStore.thy ===== *)
theory AgentStore
  imports RustStr
begin

text \<open>
  The agent trees of \<^verbatim>\<open>src/src/store.rs\<close>: registered nodes, heartbeats, messages, relay envelopes, spaces, knowledge,
  access profiles, encrypted memories, employee bindings and vault limits. Each tree maps a key to a JSON value. Disk
  errors and values that do not decode are not modelled, as for the other trees.
\<close>

section \<open>JSON values\<close>

text \<open>
  \<open>serde_json::Value\<close> as the sources use it: the number cases are those of its \<open>Number\<close> (a \<open>u64\<close>, a negative \<open>i64\<close> by its
  bits, an \<open>f64\<close> by its bits), and an object keeps its fields in key order.
\<close>

datatype json =
    JNull
  | JBool bool
  | JPosInt u64
  | JNegInt u64
  | JFloat f64
  | JString string
  | JArray "json list"
  | JObject "(string \<times> json) list"

fun json_get :: "string \<Rightarrow> json \<Rightarrow> json option" where
  "json_get k (JObject fields) = tree_get fields k"
| "json_get k v = None"

fun as_str :: "json \<Rightarrow> string option" where
  "as_str (JString s) = Some s"
| "as_str v = None"

fun as_bool :: "json \<Rightarrow> bool option" where
  "as_bool (JBool b) = Some b"
| "as_bool v = None"

text \<open>The \<open>json!\<close> macro on an object: the fields are inserted one after the other.\<close>

definition json_object :: "(string \<times> json) list \<Rightarrow> json" where
  "json_object fields = JObject (fold (\<lambda>(k, v). tree_insert k v) fields [])"

definition get_str :: "string \<Rightarrow> json \<Rightarrow> string option" where
  "get_str k v = Option.bind (json_get k v) as_str"

definition get_bool :: "string \<Rightarrow> json \<Rightarrow> bool option" where
  "get_bool k v = Option.bind (json_get k v) as_bool"

lemma tree_get_fold_insert:
  "tree_get (fold (\<lambda>(k, v). tree_insert k v) fields t) k =
     (case map_of (rev fields) k of None \<Rightarrow> tree_get t k | Some v \<Rightarrow> Some v)"
  by (induction fields arbitrary: t)
    (auto simp: tree_simps map_of_append map_add_def split: option.splits prod.splits)

lemma json_get_object [simp]: "json_get k (json_object fields) = map_of (rev fields) k"
  by (simp add: json_object_def tree_get_fold_insert tree_get_Nil split: option.split)

section \<open>The trees\<close>

record agent_store =
  ag_nodes :: "(string, json) tree"
  ag_heartbeats :: "(string, json) tree"
  ag_messages :: "(string, json) tree"
  ag_relay :: "(string, json) tree"
  ag_spaces :: "(string, json) tree"
  ag_knowledge :: "(string, json) tree"
  ag_profiles :: "(string, json) tree"
  ag_memory :: "(string, json) tree"
  ag_bindings :: "(string, json) tree"
  ag_vault_limits :: "(string, json) tree"

definition agent_store_empty :: agent_store where
  "agent_store_empty =
     \<lparr>ag_nodes = [], ag_heartbeats = [], ag_messages = [], ag_relay = [], ag_spaces = [], ag_knowledge = [],
      ag_profiles = [], ag_memory = [], ag_bindings = [], ag_vault_limits = []\<rparr>"

definition put_autonomo_node :: "string \<Rightarrow> json \<Rightarrow> agent_store \<Rightarrow> agent_store" where
  "put_autonomo_node node_id d s = s\<lparr>ag_nodes := tree_insert node_id d (ag_nodes s)\<rparr>"

definition list_autonomo_nodes :: "agent_store \<Rightarrow> json list" where
  "list_autonomo_nodes s = tree_values (ag_nodes s)"

definition put_heartbeat :: "string \<Rightarrow> json \<Rightarrow> agent_store \<Rightarrow> agent_store" where
  "put_heartbeat wallet d s = s\<lparr>ag_heartbeats := tree_insert wallet d (ag_heartbeats s)\<rparr>"

definition get_heartbeat :: "string \<Rightarrow> agent_store \<Rightarrow> json option" where
  "get_heartbeat wallet s = tree_get (ag_heartbeats s) wallet"

definition list_heartbeats :: "agent_store \<Rightarrow> json list" where
  "list_heartbeats s = tree_values (ag_heartbeats s)"

definition put_agent_message :: "string \<Rightarrow> json \<Rightarrow> agent_store \<Rightarrow> agent_store" where
  "put_agent_message message_id d s = s\<lparr>ag_messages := tree_insert message_id d (ag_messages s)\<rparr>"

text \<open>The listing loops push an element before they compare with the limit.\<close>

fun push_until :: "nat \<Rightarrow> ('a \<Rightarrow> bool) \<Rightarrow> 'a list \<Rightarrow> 'a list \<Rightarrow> 'a list" where
  "push_until limit wanted [] out = out"
| "push_until limit wanted (v # vs) out =
     (if wanted v
      then let out' = out @ [v] in if limit \<le> length out' then out' else push_until limit wanted vs out'
      else push_until limit wanted vs out)"

definition list_agent_messages :: "nat \<Rightarrow> agent_store \<Rightarrow> json list" where
  "list_agent_messages limit s = push_until limit (\<lambda>v. True) (rev (tree_values (ag_messages s))) []"

definition put_secure_relay_message :: "string \<Rightarrow> json \<Rightarrow> agent_store \<Rightarrow> agent_store" where
  "put_secure_relay_message message_id d s = s\<lparr>ag_relay := tree_insert message_id d (ag_relay s)\<rparr>"

definition list_secure_relay_messages :: "string \<Rightarrow> string \<Rightarrow> nat \<Rightarrow> agent_store \<Rightarrow> json list" where
  "list_secure_relay_messages app channel_tag limit s =
     push_until limit (\<lambda>v. get_str ''app'' v = Some app \<and> get_str ''channel_tag'' v = Some channel_tag)
       (rev (tree_values (ag_relay s))) []"

definition put_space :: "string \<Rightarrow> json \<Rightarrow> agent_store \<Rightarrow> agent_store" where
  "put_space space_id d s = s\<lparr>ag_spaces := tree_insert space_id d (ag_spaces s)\<rparr>"

definition get_space :: "string \<Rightarrow> agent_store \<Rightarrow> json option" where
  "get_space space_id s = tree_get (ag_spaces s) space_id"

definition list_spaces :: "agent_store \<Rightarrow> json list" where
  "list_spaces s = tree_values (ag_spaces s)"

definition put_knowledge :: "string \<Rightarrow> json \<Rightarrow> agent_store \<Rightarrow> agent_store" where
  "put_knowledge key d s = s\<lparr>ag_knowledge := tree_insert key d (ag_knowledge s)\<rparr>"

definition get_knowledge :: "string \<Rightarrow> agent_store \<Rightarrow> json option" where
  "get_knowledge key s = tree_get (ag_knowledge s) key"

definition put_access_profile :: "string \<Rightarrow> json \<Rightarrow> agent_store \<Rightarrow> agent_store" where
  "put_access_profile wallet d s = s\<lparr>ag_profiles := tree_insert wallet d (ag_profiles s)\<rparr>"

definition get_access_profile :: "string \<Rightarrow> agent_store \<Rightarrow> json option" where
  "get_access_profile wallet s = tree_get (ag_profiles s) wallet"

definition put_secure_memory :: "string \<Rightarrow> json \<Rightarrow> agent_store \<Rightarrow> agent_store" where
  "put_secure_memory key d s = s\<lparr>ag_memory := tree_insert key d (ag_memory s)\<rparr>"

definition get_secure_memory :: "string \<Rightarrow> agent_store \<Rightarrow> json option" where
  "get_secure_memory key s = tree_get (ag_memory s) key"

definition put_openclaw_binding :: "string \<Rightarrow> json \<Rightarrow> agent_store \<Rightarrow> agent_store" where
  "put_openclaw_binding employee_id d s = s\<lparr>ag_bindings := tree_insert employee_id d (ag_bindings s)\<rparr>"

definition get_openclaw_binding :: "string \<Rightarrow> agent_store \<Rightarrow> json option" where
  "get_openclaw_binding employee_id s = tree_get (ag_bindings s) employee_id"

definition list_openclaw_bindings :: "agent_store \<Rightarrow> json list" where
  "list_openclaw_bindings s = tree_values (ag_bindings s)"

definition list_openclaw_bindings_for_master :: "string \<Rightarrow> agent_store \<Rightarrow> json list" where
  "list_openclaw_bindings_for_master master_wallet s =
     filter (\<lambda>b. get_str ''master_wallet'' b = Some master_wallet) (list_openclaw_bindings s)"

definition put_vault_limits :: "string \<Rightarrow> json \<Rightarrow> agent_store \<Rightarrow> agent_store" where
  "put_vault_limits wallet d s = s\<lparr>ag_vault_limits := tree_insert wallet d (ag_vault_limits s)\<rparr>"

definition get_vault_limits :: "string \<Rightarrow> agent_store \<Rightarrow> json option" where
  "get_vault_limits wallet s = tree_get (ag_vault_limits s) wallet"

section \<open>Listings\<close>

lemma push_until_take:
  "length out < limit \<or> limit = 0 \<and> out = [] \<Longrightarrow>
     push_until limit P vs out = out @ take (max 1 limit - length out) (filter P vs)"
proof (induction vs arbitrary: out)
  case (Cons v vs)
  show ?case
  proof (cases "P v \<and> \<not> limit \<le> Suc (length out)")
    case True
    then have "max 1 limit - length out = Suc (max 1 limit - length (out @ [v]))" by auto
    with True Cons.IH [of "out @ [v]"] show ?thesis by (simp add: Let_def)
  next
    case False
    then show ?thesis using Cons by (cases "P v") (auto simp: Let_def max_def take_Cons split: nat.split)
  qed
qed simp

lemma push_until_all: "push_until limit P vs [] = take (max 1 limit) (filter P vs)"
  using push_until_take [of "[]" limit P vs] by (cases limit) simp_all

text \<open>A listing returns the last matching values of the tree, latest key first, and one value even for a limit of zero.\<close>

lemma list_agent_messages_eq:
  "list_agent_messages limit s = take (max 1 limit) (rev (tree_values (ag_messages s)))"
  by (simp add: list_agent_messages_def push_until_all)

lemma list_secure_relay_messages_eq:
  "list_secure_relay_messages app channel limit s =
     take (max 1 limit) (filter (\<lambda>v. get_str ''app'' v = Some app \<and> get_str ''channel_tag'' v = Some channel)
       (rev (tree_values (ag_relay s))))"
  by (simp add: list_secure_relay_messages_def push_until_all)

end
