(* ===== verification/Access.thy ===== *)
theory Access
  imports PeerBook AgentStore Crypto
begin

text \<open>
  Who may use the HTTP interface of \<^verbatim>\<open>src/src/api.rs\<close>: the gate in front of every route (\<open>enforce_api_access\<close>), the
  pairing of wallets and devices with the private layer (\<open>autonomo_register_access\<close>, \<open>is_mission_control_authorized\<close>) and the
  normalisation of clearances. Header names are lower case, as the HTTP library keeps them; environment variables are
  arguments. An error carries its status only.
\<close>

datatype api_error = Bad_request | Forbidden | Not_found | Conflict | Internal

definition CLEARANCE_PUBLIC :: string where "CLEARANCE_PUBLIC = ''public''"
definition CLEARANCE_INTERNAL :: string where "CLEARANCE_INTERNAL = ''internal''"
definition CLEARANCE_MISSION_CONTROL :: string where "CLEARANCE_MISSION_CONTROL = ''mission_control''"
definition PRIVATE_LAYER_CODENAME_00 :: string where "PRIVATE_LAYER_CODENAME_00 = ''00''"

lemmas clearance_defs = CLEARANCE_PUBLIC_def CLEARANCE_INTERNAL_def CLEARANCE_MISSION_CONTROL_def PRIVATE_LAYER_CODENAME_00_def

section \<open>Headers\<close>

type_synonym headers = "(string \<times> bytes) list"

text \<open>\<open>headers.get(name).and_then(|v| v.to_str().ok())\<close>: the first value, when its bytes are visible ASCII, spaces or tabs.\<close>

definition header_str :: "headers \<Rightarrow> string \<Rightarrow> string option" where
  "header_str h name =
     (case map_of h name of
        Some v \<Rightarrow> if list_all (\<lambda>c. 32 \<le> (of_char c :: nat) \<and> (of_char c :: nat) < 127 \<or> (of_char c :: nat) = 9) v
                  then Some v else None
      | None \<Rightarrow> None)"

definition contains_key :: "headers \<Rightarrow> string \<Rightarrow> bool" where
  "contains_key h name = (map_of h name \<noteq> None)"

record request_access_context =
  ctx_wallet :: "string option"
  ctx_device_hash :: "string option"
  ctx_access_token :: "string option"
  ctx_clearance_hint :: "string option"

definition read_header :: "headers \<Rightarrow> string \<Rightarrow> string option" where
  "read_header h name =
     (case header_str h name of None \<Rightarrow> None | Some v \<Rightarrow> if trim v = [] then None else Some (trim v))"

definition access_context_from_headers :: "headers \<Rightarrow> request_access_context" where
  "access_context_from_headers h =
     \<lparr>ctx_wallet = read_header h ''x-arobi-wallet'', ctx_device_hash = read_header h ''x-arobi-device-hash'',
      ctx_access_token = read_header h ''x-arobi-access-token'', ctx_clearance_hint = read_header h ''x-arobi-clearance''\<rparr>"

definition private_names :: "string list" where
  "private_names = [CLEARANCE_MISSION_CONTROL, ''mission-control'', ''missioncontrol'', PRIVATE_LAYER_CODENAME_00, ''private'',
     ''private_00'', ''private-00'']"

definition normalize_clearance :: "string option \<Rightarrow> string" where
  "normalize_clearance raw =
     (let s = to_ascii_lowercase (trim (case raw of Some r \<Rightarrow> r | None \<Rightarrow> CLEARANCE_INTERNAL)) in
      if s = CLEARANCE_PUBLIC then CLEARANCE_PUBLIC
      else if s \<in> set private_names then CLEARANCE_MISSION_CONTROL
      else CLEARANCE_INTERNAL)"

definition normalize_sensitivity :: "string option \<Rightarrow> string" where
  "normalize_sensitivity raw =
     (let s = to_ascii_lowercase (trim (case raw of Some r \<Rightarrow> r | None \<Rightarrow> CLEARANCE_INTERNAL)) in
      if s = CLEARANCE_PUBLIC then CLEARANCE_PUBLIC
      else if s = ''sensitive'' \<or> s \<in> set private_names then ''sensitive''
      else CLEARANCE_INTERNAL)"

section \<open>Pairing\<close>

definition compute_pairing_hash :: "primitives \<Rightarrow> string \<Rightarrow> string \<Rightarrow> string \<Rightarrow> string" where
  "compute_pairing_hash p wallet device_hash access_code =
     hex_encode p (sha256 p (wallet @ '':'' @ device_hash @ '':'' @ access_code))"

record access_register_req =
  rr_wallet :: string
  rr_device_hash :: string
  rr_access_code :: string
  rr_gov_portal_onboarded :: bool
  rr_mission_control :: "bool option"
  rr_clearance :: "string option"

record access_register_resp =
  rs_wallet :: string
  rs_clearance :: string
  rs_mission_control :: bool
  rs_gov_portal_onboarded :: bool
  rs_pairing_hash :: string
  rs_registered_at :: string
  rs_private_layer_codename :: "string option"

definition access_profile :: "string \<Rightarrow> string \<Rightarrow> string \<Rightarrow> string \<Rightarrow> bool \<Rightarrow> bool \<Rightarrow> string \<Rightarrow> json" where
  "access_profile wallet device_hash pairing_hash clearance mission gov now =
     json_object [(''wallet'', JString wallet), (''device_hash'', JString device_hash), (''pairing_hash'', JString pairing_hash),
       (''clearance'', JString clearance), (''mission_control'', JBool mission), (''gov_portal_onboarded'', JBool gov),
       (''updated_at'', JString now)]"

definition autonomo_register_access ::
    "primitives \<Rightarrow> string \<Rightarrow> access_register_req \<Rightarrow> agent_store \<Rightarrow> (access_register_resp \<times> agent_store, api_error) res" where
  "autonomo_register_access p now req s =
     (let wallet = trim (rr_wallet req); device_hash = trim (rr_device_hash req); access_code = trim (rr_access_code req) in
      if wallet = [] then Err Bad_request
      else if length device_hash < 16 then Err Bad_request
      else if length access_code < 6 then Err Bad_request
      else let mission_control = (case rr_mission_control req of Some b \<Rightarrow> b | None \<Rightarrow> False) in
        if mission_control \<and> \<not> rr_gov_portal_onboarded req then Err Bad_request
        else let requested = normalize_clearance (rr_clearance req);
                 clearance = (if mission_control \<or> requested = CLEARANCE_MISSION_CONTROL then CLEARANCE_MISSION_CONTROL else requested);
                 pairing_hash = compute_pairing_hash p wallet device_hash access_code;
                 mission = (mission_control \<or> clearance = CLEARANCE_MISSION_CONTROL);
                 profile = access_profile wallet device_hash pairing_hash clearance mission (rr_gov_portal_onboarded req) now
             in Ok (\<lparr>rs_wallet = wallet, rs_clearance = clearance, rs_mission_control = mission,
                      rs_gov_portal_onboarded = rr_gov_portal_onboarded req, rs_pairing_hash = pairing_hash,
                      rs_registered_at = now, rs_private_layer_codename = (if mission then Some PRIVATE_LAYER_CODENAME_00 else None)\<rparr>,
                    put_access_profile wallet profile s))"

definition is_mission_control_authorized :: "agent_store \<Rightarrow> headers \<Rightarrow> string option \<Rightarrow> bool" where
  "is_mission_control_authorized s h wallet_hint =
     (let ctx = access_context_from_headers h;
          hint = (case wallet_hint of Some v \<Rightarrow> if trim v = [] then None else Some v | None \<Rightarrow> None)
      in case (case hint of Some w \<Rightarrow> Some w | None \<Rightarrow> ctx_wallet ctx) of
           None \<Rightarrow> False
         | Some wallet \<Rightarrow>
             (case get_access_profile wallet s of
                None \<Rightarrow> False
              | Some profile \<Rightarrow>
                  let mission_control = (case get_bool ''mission_control'' profile of Some b \<Rightarrow> b | None \<Rightarrow> False);
                      gov = (case get_bool ''gov_portal_onboarded'' profile of Some b \<Rightarrow> b | None \<Rightarrow> False)
                  in if \<not> (mission_control \<and> gov) then False
                     else let expected_pairing = (case get_str ''pairing_hash'' profile of Some t \<Rightarrow> t | None \<Rightarrow> []);
                              expected_device = (case get_str ''device_hash'' profile of Some t \<Rightarrow> t | None \<Rightarrow> []);
                              provided_pairing = (case ctx_access_token ctx of Some t \<Rightarrow> t | None \<Rightarrow> []);
                              provided_device = (case ctx_device_hash ctx of Some t \<Rightarrow> t | None \<Rightarrow> [])
                          in if expected_pairing = [] \<or> expected_device = [] then False
                             else expected_pairing = provided_pairing \<and> expected_device = provided_device))"

definition can_read_sensitive_scope :: "agent_store \<Rightarrow> headers \<Rightarrow> string option \<Rightarrow> bool" where
  "can_read_sensitive_scope s h wallet_hint = is_mission_control_authorized s h wallet_hint"

section \<open>The gate\<close>

fun split_on :: "char \<Rightarrow> string \<Rightarrow> string list" where
  "split_on d [] = [[]]"
| "split_on d (c # s) =
     (if c = d then [] # split_on d s
      else case split_on d s of [] \<Rightarrow> [[c]] | w # ws \<Rightarrow> (c # w) # ws)"

definition split_once :: "char \<Rightarrow> string \<Rightarrow> (string \<times> string) option" where
  "split_once d s =
     (if d \<in> set s then Some (takeWhile (\<lambda>c. c \<noteq> d) s, tl (dropWhile (\<lambda>c. c \<noteq> d) s)) else None)"

definition is_allowed_cors_origin :: "string option \<Rightarrow> string \<Rightarrow> bool" where
  "is_allowed_cors_origin extra_origins origin =
     (let n = to_ascii_lowercase (trim origin) in
      if n = ''https://aura-genesis.org'' \<or> n = ''https://www.aura-genesis.org''
         \<or> starts_with n ''https://autonomo.'' \<and> ends_with n ''.aura-genesis.org''
         \<or> starts_with n ''https://arobi.'' \<and> ends_with n ''.aura-genesis.org''
         \<or> starts_with n ''https://'' \<and> ends_with n ''.aura-genesis.org''
         \<or> starts_with n ''http://localhost'' \<or> starts_with n ''http://127.0.0.1'' \<or> starts_with n ''http://[::1]''
      then True
      else case extra_origins of
             Some extra \<Rightarrow> list_ex (\<lambda>e. to_ascii_lowercase (trim e) \<noteq> [] \<and> to_ascii_lowercase (trim e) = n) (split_on (CHR '','') extra)
           | None \<Rightarrow> False)"

definition has_forwarded_client_ip :: "headers \<Rightarrow> bool" where
  "has_forwarded_client_ip h \<longleftrightarrow>
     contains_key h ''cf-connecting-ip'' \<or> contains_key h ''x-forwarded-for'' \<or> contains_key h ''x-real-ip''"

definition is_local_host_header :: "headers \<Rightarrow> bool" where
  "is_local_host_header h =
     (case header_str h ''host'' of
        None \<Rightarrow> False
      | Some host \<Rightarrow>
          let n = to_ascii_lowercase (rev (dropWhile (\<lambda>c. c = CHR ''.'') (rev (trim host)))) in
          if n = ''::1'' then True
          else let host_only =
                 (case n of
                    c # rest \<Rightarrow>
                      if c = CHR ''['' then (case split_once (CHR '']'') rest of Some (addr, _) \<Rightarrow> ''['' @ addr @ '']'' | None \<Rightarrow> n)
                      else (case split_once (CHR '':'') n of Some (addr, _) \<Rightarrow> addr | None \<Rightarrow> n)
                  | [] \<Rightarrow> n)
               in host_only \<in> {''localhost'', ''127.0.0.1'', ''[::1]''})"

primrec is_loopback_ip :: "ip_addr \<Rightarrow> bool" where
  "is_loopback_ip (V4 a b c d) = (a = 127)"
| "is_loopback_ip (V6 segs) = (segs = [0, 0, 0, 0, 0, 0, 0, 1])"

definition is_direct_local_request :: "socket_addr \<Rightarrow> headers \<Rightarrow> bool" where
  "is_direct_local_request remote h \<longleftrightarrow>
     is_loopback_ip (socket_ip remote) \<and> \<not> has_forwarded_client_ip h \<and> is_local_host_header h"

definition public_paths :: "string list" where
  "public_paths =
     [''/.env'', ''/wp-login.php'', ''/api/v1/info'', ''/api/v1/autonomo/status'', ''/api/v1/blocks'', ''/api/v1/blocks/latest'',
      ''/api/v1/compute/leaderboard'', ''/api/v1/compute/marketplace'', ''/api/v1/consensus/poi'', ''/api/v1/security/posture'',
      ''/api/v1/audit/verify'', ''/api/v1/fs/stats'', ''/api/v1/llm/marketplace'', ''/api/v1/chain/tokenomics'',
      ''/api/v1/tx/submit'', ''/api/v1/tools/list'', ''/api/v1/autonomo/relay/messages'']"

definition is_public_api_path :: "string \<Rightarrow> bool" where
  "is_public_api_path path \<longleftrightarrow>
     path \<in> set public_paths \<or> starts_with path ''/api/v1/blocks/'' \<or> starts_with path ''/api/v1/tx/''
     \<or> starts_with path ''/api/v1/wallet/'' \<and> (ends_with path ''/balance'' \<or> ends_with path ''/nonce'')"

datatype http_method = GET | HEAD | OPTIONS | POST | Other_method string

definition is_public_api_route :: "http_method \<Rightarrow> string \<Rightarrow> bool" where
  "is_public_api_route m path =
     (if m \<in> {GET, HEAD, OPTIONS} then is_public_api_path path
      else m = POST \<and> path \<in> {''/api/v1/tx/submit'', ''/api/v1/autonomo/relay/send''})"

definition configured_api_token :: "string option \<Rightarrow> string option" where
  "configured_api_token env =
     (case env of None \<Rightarrow> None | Some t \<Rightarrow> if trim t = [] then None else Some (trim t))"

definition bearer_token :: "headers \<Rightarrow> string option" where
  "bearer_token h =
     (case header_str h ''authorization'' of
        None \<Rightarrow> None
      | Some auth \<Rightarrow>
          if starts_with (trim auth) ''Bearer ''
          then let t = trim (drop (length ''Bearer '') (trim auth)) in if t = [] then None else Some t
          else None)"

definition extract_request_api_token :: "headers \<Rightarrow> string option" where
  "extract_request_api_token h =
     (case bearer_token h of Some t \<Rightarrow> Some t | None \<Rightarrow> read_header h ''x-arobi-access-token'')"

definition has_valid_api_token :: "string option \<Rightarrow> headers \<Rightarrow> bool" where
  "has_valid_api_token env h =
     (case configured_api_token env of
        None \<Rightarrow> False
      | Some expected \<Rightarrow> (case extract_request_api_token h of None \<Rightarrow> False | Some provided \<Rightarrow> provided = expected))"

text \<open>Whether the request reaches its handler; otherwise the answer is 403. \<open>remote\<close> is the connection's address, if known.\<close>

definition enforce_api_access :: "string option \<Rightarrow> http_method \<Rightarrow> string \<Rightarrow> socket_addr option \<Rightarrow> headers \<Rightarrow> bool" where
  "enforce_api_access env m path remote h =
     (if is_public_api_route m path then True
      else let local_only = (case remote of Some a \<Rightarrow> is_direct_local_request a h | None \<Rightarrow> False)
           in local_only \<or> has_valid_api_token env h)"

section \<open>Correctness\<close>

lemma configured_nonempty: "configured_api_token env = Some t \<Longrightarrow> t \<noteq> []"
  by (auto simp: configured_api_token_def split: option.splits if_splits)

lemma has_valid_api_token_iff:
  "has_valid_api_token env h \<longleftrightarrow> (\<exists>t. configured_api_token env = Some t \<and> extract_request_api_token h = Some t)"
  by (auto simp: has_valid_api_token_def split: option.splits)



lemma register_access_OkD:
  assumes "autonomo_register_access p now req s = Ok (resp, s')"
  shows "s' = put_access_profile (rs_wallet resp)
      (access_profile (rs_wallet resp) (trim (rr_device_hash req)) (rs_pairing_hash resp) (rs_clearance resp)
         (rs_mission_control resp) (rs_gov_portal_onboarded resp) now) s"
    and "rs_wallet resp = trim (rr_wallet req)" "rs_wallet resp \<noteq> []" "16 \<le> length (trim (rr_device_hash req))"
    and "rs_pairing_hash resp = compute_pairing_hash p (trim (rr_wallet req)) (trim (rr_device_hash req)) (trim (rr_access_code req))"
    and "rs_gov_portal_onboarded resp = rr_gov_portal_onboarded req"
  using assms by (auto simp: autonomo_register_access_def Let_def split: if_splits)

lemma read_header_nonempty: "read_header h n = Some t \<Longrightarrow> t \<noteq> []"
  by (auto simp: read_header_def split: option.splits if_splits)

lemma authorized_profile:
  assumes "get_access_profile w s = Some (access_profile w dev pairing cl mission gov now)" "trim w \<noteq> []" "pairing \<noteq> []" "dev \<noteq> []"
  shows "is_mission_control_authorized s h (Some w) \<longleftrightarrow>
     mission \<and> gov \<and> ctx_access_token (access_context_from_headers h) = Some pairing
       \<and> ctx_device_hash (access_context_from_headers h) = Some dev"
  using assms
  by (auto simp: is_mission_control_authorized_def Let_def access_profile_def get_bool_def get_str_def split: option.splits)

text \<open>
  Registering a pairing gives exactly the access it describes: afterwards a request for that wallet is authorised for the private
  layer if and only if the registration asked for mission control, the wallet's owner went through onboarding, and the
  request carries the returned pairing hash and the registered device hash. Asking for the clearance without onboarding gives
  a profile that authorises nothing, and other wallets keep the access they had.
\<close>

lemma registration_grants_exactly:
  assumes "autonomo_register_access p now req s = Ok (resp, s')" and "hex_codec p" "sha256_size p"
  shows "(is_mission_control_authorized s' h (Some (rs_wallet resp)) \<longleftrightarrow>
        rs_mission_control resp \<and> rr_gov_portal_onboarded req
          \<and> ctx_access_token (access_context_from_headers h) = Some (rs_pairing_hash resp)
          \<and> ctx_device_hash (access_context_from_headers h) = Some (trim (rr_device_hash req)))
     \<and> (w \<noteq> rs_wallet resp \<longrightarrow> get_access_profile w s' = get_access_profile w s)"
proof -
  note d = register_access_OkD [OF assms(1)]
  have "length (rs_pairing_hash resp) = 64"
    using assms(2,3) by (simp add: d(5) compute_pairing_hash_def hex_codec_def sha256_size_def)
  then have "rs_pairing_hash resp \<noteq> []" by auto
  moreover have "trim (rr_device_hash req) \<noteq> []" using d(4) by auto
  moreover have "get_access_profile (rs_wallet resp) s' = Some (access_profile (rs_wallet resp) (trim (rr_device_hash req))
      (rs_pairing_hash resp) (rs_clearance resp) (rs_mission_control resp) (rs_gov_portal_onboarded resp) now)"
    using d(1) by (simp add: put_access_profile_def get_access_profile_def tree_simps)
  moreover have "trim (rs_wallet resp) \<noteq> []" using d(2,3) by simp
  ultimately show ?thesis
    using d(6) by (auto simp: authorized_profile d(1) put_access_profile_def get_access_profile_def tree_simps)
qed

definition sample_registration :: access_register_req where
  "sample_registration = \<lparr>rr_wallet = ''w'', rr_device_hash = ''0123456789abcdef'', rr_access_code = ''secret'',
     rr_gov_portal_onboarded = False, rr_mission_control = None, rr_clearance = Some ''00''\<rparr>"

lemma sample_trims [simp]:
  "trim ''w'' = ''w''" "trim ''0123456789abcdef'' = ''0123456789abcdef''" "trim ''secret'' = ''secret''" "trim ''00'' = ''00''"
  by code_simp+

lemma registration_grants_exactly_sample:
  "\<exists>resp s'. autonomo_register_access sample_primitives ''t'' sample_registration agent_store_empty = Ok (resp, s')
     \<and> rs_mission_control resp \<and> \<not> is_mission_control_authorized s' [(''x-arobi-access-token'', rs_pairing_hash resp),
          (''x-arobi-device-hash'', ''0123456789abcdef'')] (Some ''w'')"
proof -
  have "\<exists>resp s'. autonomo_register_access sample_primitives ''t'' sample_registration agent_store_empty = Ok (resp, s')
      \<and> rs_mission_control resp"
    by (simp add: autonomo_register_access_def sample_registration_def Let_def normalize_clearance_def private_names_def clearance_defs)
      code_simp
  then obtain resp s' where r: "autonomo_register_access sample_primitives ''t'' sample_registration agent_store_empty = Ok (resp, s')"
    "rs_mission_control resp" by blast
  have "rs_wallet resp = ''w''" using register_access_OkD(2) [OF r(1)] by (simp add: sample_registration_def)
  with registration_grants_exactly [OF r(1) sample_primitives_ok(1,2)] r show ?thesis
    by (auto simp: sample_registration_def)
qed

end
