(* ===== verification/Float64.thy ===== *)
theory Float64
  imports Prelude Complex_Main "HOL-Library.Log_Nat"
begin

text \<open>
  IEEE-754 double arithmetic as Rust's \<open>f64\<close> has it: the value of a bit pattern as a sign and a rational magnitude, rounding to the
  nearest double with ties to even, and the operations as the exact result rounded. The bits of a NaN that an operation produces
  are one fixed pattern; nothing here depends on them.
\<close>

section \<open>Values\<close>

datatype f64_value = Nan | Inf bool | Fin bool rat

definition f64_exponent :: "f64 \<Rightarrow> nat" where
  "f64_exponent b = (unat b div 2 ^ 52) mod 2 ^ 11"

definition f64_mantissa :: "f64 \<Rightarrow> nat" where
  "f64_mantissa b = unat b mod 2 ^ 52"

definition f64_value_of :: "f64 \<Rightarrow> f64_value" where
  "f64_value_of b =
     (let s = (2 ^ 63 \<le> unat b); e = f64_exponent b; m = f64_mantissa b
      in if e = 2047 then (if m = 0 then Inf s else Nan)
         else if e = 0 then Fin s (of_nat m * 2 powi (- 1074))
         else Fin s (of_nat (2 ^ 52 + m) * 2 powi (int e - 1075)))"

section \<open>Rounding\<close>

text \<open>The exponent of the leading binary digit of a positive rational.\<close>

definition ilog2 :: "rat \<Rightarrow> int" where
  "ilog2 r =
     (if 1 \<le> r then int (floorlog 2 (nat \<lfloor>r\<rfloor>)) - 1 else - int (floorlog 2 (nat (\<lceil>1 / r\<rceil> - 1))))"

definition round_half_even :: "rat \<Rightarrow> nat" where
  "round_half_even x =
     (let f = \<lfloor>x\<rfloor>; d = x - of_int f
      in nat (if d < 1 / 2 \<or> d = 1 / 2 \<and> even f then f else f + 1))"

definition f64_magnitude :: "rat \<Rightarrow> nat" where
  "f64_magnitude r =
     (if r = 0 then 0
      else let k = max (ilog2 r) (- 1022)
           in min (nat (k + 1022) * 2 ^ 52 + round_half_even (r * 2 powi (52 - k))) (2047 * 2 ^ 52))"

definition f64_rounded :: "bool \<Rightarrow> rat \<Rightarrow> f64" where
  "f64_rounded s r = of_nat ((if s then 2 ^ 63 else 0) + f64_magnitude r)"

definition f64_nan :: f64 where "f64_nan = 0x7FF8000000000000"

definition f64_inf :: "bool \<Rightarrow> f64" where
  "f64_inf s = of_nat ((if s then 2 ^ 63 else 0) + 2047 * 2 ^ 52)"

section \<open>Operations\<close>

definition f64_mul :: "f64 \<Rightarrow> f64 \<Rightarrow> f64" where
  "f64_mul a b =
     (case (f64_value_of a, f64_value_of b) of
        (Fin s x, Fin t y) \<Rightarrow> f64_rounded (s \<noteq> t) (x * y)
      | (Inf s, Inf t) \<Rightarrow> f64_inf (s \<noteq> t)
      | (Inf s, Fin t y) \<Rightarrow> if y = 0 then f64_nan else f64_inf (s \<noteq> t)
      | (Fin s x, Inf t) \<Rightarrow> if x = 0 then f64_nan else f64_inf (s \<noteq> t)
      | _ \<Rightarrow> f64_nan)"

definition f64_div :: "f64 \<Rightarrow> f64 \<Rightarrow> f64" where
  "f64_div a b =
     (case (f64_value_of a, f64_value_of b) of
        (Fin s x, Fin t y) \<Rightarrow>
          if y = 0 then (if x = 0 then f64_nan else f64_inf (s \<noteq> t)) else f64_rounded (s \<noteq> t) (x / y)
      | (Inf s, Fin t y) \<Rightarrow> f64_inf (s \<noteq> t)
      | (Fin s x, Inf t) \<Rightarrow> f64_rounded (s \<noteq> t) 0
      | _ \<Rightarrow> f64_nan)"

text \<open>\<open>n as f64\<close>, \<open>f64::round\<close> (halves away from zero), and the saturating \<open>x as u64\<close>.\<close>

definition f64_of_u64 :: "u64 \<Rightarrow> f64" where
  "f64_of_u64 n = f64_rounded False (of_nat (unat n))"

definition f64_round :: "f64 \<Rightarrow> f64" where
  "f64_round a = (case f64_value_of a of Fin s x \<Rightarrow> f64_rounded s (of_int \<lfloor>x + 1 / 2\<rfloor>) | _ \<Rightarrow> a)"

definition f64_to_u64 :: "f64 \<Rightarrow> u64" where
  "f64_to_u64 a =
     (case f64_value_of a of
        Nan \<Rightarrow> 0
      | Inf s \<Rightarrow> if s then 0 else - 1
      | Fin s x \<Rightarrow> if s then 0 else of_nat (min (nat \<lfloor>x\<rfloor>) (2 ^ 64 - 1)))"

section \<open>Rounding errors\<close>

lemma rat_power_le: "2 ^ k \<le> n \<Longrightarrow> (2 :: rat) ^ k \<le> of_nat n"
  using of_nat_le_iff [of "2 ^ k" n, where 'a = rat] by (simp only: of_nat_power of_nat_numeral)

lemma rat_Suc_le_power: "n < 2 ^ k \<Longrightarrow> of_nat n + 1 \<le> (2 :: rat) ^ k"
  using of_nat_le_iff [of "Suc n" "2 ^ k", where 'a = rat]
  by (simp only: of_nat_power of_nat_numeral of_nat_Suc Suc_le_eq add.commute)

lemma ilog2_bounds:
  assumes "0 < r"
  shows "2 powi ilog2 r \<le> r" "r < 2 powi (ilog2 r + 1)"
proof -
  show "2 powi ilog2 r \<le> r"
  proof (cases "1 \<le> r")
    case True
    define n where "n = nat \<lfloor>r\<rfloor>"
    have n: "0 < n" "(of_nat n :: rat) \<le> r" using True by (simp_all add: n_def)
    have "(2 :: nat) ^ (floorlog 2 n - 1) \<le> n" "0 < floorlog 2 n"
      using floorlog_bounds [of n 2] floorlog_eq_zero_iff [of 2 n] n(1) by (cases "floorlog 2 n", simp_all)
    then have "(2 :: rat) ^ (floorlog 2 n - 1) \<le> of_nat n" by (intro rat_power_le)
    from order_trans [OF this n(2)] have "(2 :: rat) ^ (floorlog 2 n - 1) \<le> r" .
    moreover have "ilog2 r = int (floorlog 2 n - 1)" using True \<open>0 < floorlog 2 n\<close> by (simp add: ilog2_def n_def)
    ultimately show ?thesis by simp
  next
    case False
    define n where "n = nat (\<lceil>1 / r\<rceil> - 1)"
    have "1 < 1 / r" using False assms by simp
    then have n: "0 < n" "1 / r \<le> of_nat n + 1" unfolding n_def by linarith+
    have "n < 2 ^ floorlog 2 n" using floorlog_bounds [of n 2] n(1) by simp
    then have "of_nat n + 1 \<le> (2 :: rat) ^ floorlog 2 n" by (rule rat_Suc_le_power)
    with n(2) have "1 / r \<le> 2 ^ floorlog 2 n" by simp
    then have "1 / 2 ^ floorlog 2 n \<le> r" using assms by (simp add: field_simps)
    then show ?thesis using False by (simp add: ilog2_def n_def power_int_minus_divide)
  qed
  show "r < 2 powi (ilog2 r + 1)"
  proof (cases "1 \<le> r")
    case True
    define n where "n = nat \<lfloor>r\<rfloor>"
    have n: "0 < n" "r < of_nat n + 1" using True unfolding n_def by (simp, linarith)
    have "n < 2 ^ floorlog 2 n" using floorlog_bounds [of n 2] n(1) by simp
    then have "of_nat n + 1 \<le> (2 :: rat) ^ floorlog 2 n" by (rule rat_Suc_le_power)
    with n(2) True show ?thesis by (simp add: ilog2_def n_def)
  next
    case False
    define n where "n = nat (\<lceil>1 / r\<rceil> - 1)"
    have "1 < 1 / r" using False assms by simp
    then have n: "0 < n" "of_nat n < 1 / r" unfolding n_def by linarith+
    then obtain j where j: "floorlog 2 n = Suc j" by (cases "floorlog 2 n") (simp_all add: floorlog_eq_zero_iff)
    have "(2 :: nat) ^ j \<le> n" using floorlog_bounds [of n 2] n(1) j by simp
    then have "(2 :: rat) ^ j \<le> of_nat n" by (rule rat_power_le)
    from le_less_trans [OF this n(2)] have "2 ^ j < 1 / r" .
    then have "r < 1 / 2 ^ j" using assms by (simp add: field_simps)
    moreover have "ilog2 r + 1 = - int j" using False j by (simp add: ilog2_def n_def)
    ultimately show ?thesis by (simp add: power_int_minus_divide)
  qed
qed

lemma round_half_even_error: "0 \<le> x \<Longrightarrow> \<bar>of_nat (round_half_even x) - x\<bar> \<le> 1 / 2"
  using floor_correct [of x] unfolding round_half_even_def Let_def
  by (auto simp: abs_le_iff split: if_splits)

lemma round_half_even_range:
  assumes "of_nat a \<le> x" "x < of_nat b"
  shows "a \<le> round_half_even x" "round_half_even x \<le> b"
proof -
  have "int a \<le> \<lfloor>x\<rfloor>" "\<lfloor>x\<rfloor> < int b" using assms by (simp_all add: le_floor_iff floor_less_iff)
  then show "a \<le> round_half_even x" "round_half_even x \<le> b"
    unfolding round_half_even_def Let_def by (auto simp del: floor_less_iff)
qed

text \<open>The double nearest to a rational in the normal range, as a rational.\<close>

definition nearest :: "rat \<Rightarrow> rat" where
  "nearest r = of_nat (round_half_even (r * 2 powi (52 - ilog2 r))) * 2 powi (ilog2 r - 52)"

definition normal :: "rat \<Rightarrow> bool" where
  "normal r \<longleftrightarrow> 0 < r \<and> - 1022 \<le> ilog2 r \<and> ilog2 r \<le> 1022"

lemma scaled_range:
  assumes "0 < r"
  shows "2 ^ 52 \<le> r * 2 powi (52 - ilog2 r)" "r * 2 powi (52 - ilog2 r) < 2 ^ 53"
proof -
  have p: "(0 :: rat) < 2 powi (52 - ilog2 r)" by simp
  have "2 powi ilog2 r * 2 powi (52 - ilog2 r) = (2 :: rat) powi 52"
    "2 powi (ilog2 r + 1) * 2 powi (52 - ilog2 r) = (2 :: rat) powi 53"
    by (simp_all flip: power_int_add)
  then show "2 ^ 52 \<le> r * 2 powi (52 - ilog2 r)" "r * 2 powi (52 - ilog2 r) < 2 ^ 53"
    using mult_right_mono [OF ilog2_bounds(1) [OF assms], of "2 powi (52 - ilog2 r)"]
      mult_strict_right_mono [OF ilog2_bounds(2) [OF assms] p] by simp_all
qed

lemma unscale: "2 powi (52 - k) * 2 powi (k - 52) = (1 :: rat)"
  by (simp flip: power_int_add)

lemma nearest_error:
  assumes "0 < r"
  shows "\<bar>nearest r - r\<bar> \<le> r / 2 ^ 53"
proof -
  let ?k = "ilog2 r" and ?x = "r * 2 powi (52 - ilog2 r)"
  have "nearest r - r = (of_nat (round_half_even ?x) - ?x) * 2 powi (?k - 52)"
    using unscale [of ?k] by (simp add: nearest_def algebra_simps)
  then have "\<bar>nearest r - r\<bar> = \<bar>of_nat (round_half_even ?x) - ?x\<bar> * 2 powi (?k - 52)"
    by (simp add: abs_mult)
  also have "\<dots> \<le> 1 / 2 * 2 powi (?k - 52)"
    by (rule mult_right_mono) (use round_half_even_error [of ?x] assms in simp_all)
  also have "\<dots> = 2 powi ?k / 2 ^ 53"
    by (simp add: power_int_diff)
  also have "\<dots> \<le> r / 2 ^ 53" using ilog2_bounds(1) [OF assms] by (simp add: divide_right_mono)
  finally show ?thesis .
qed

lemma nearest_pos: "normal r \<Longrightarrow> 0 < nearest r"
  using nearest_error [of r, unfolded abs_le_iff] by (simp add: normal_def)

lemma f64_value_fields:
  "unat b div 2 ^ 52 mod 2 ^ 11 = e \<Longrightarrow> unat b mod 2 ^ 52 = m \<Longrightarrow> (2 ^ 63 \<le> unat b) = s \<Longrightarrow> 0 < e \<Longrightarrow> e < 2047 \<Longrightarrow>
     f64_value_of b = Fin s (of_nat (2 ^ 52 + m) * 2 powi (int e - 1075))"
  by (simp add: f64_value_of_def f64_exponent_def f64_mantissa_def)

lemma f64_value_rounded:
  assumes "normal r"
  shows "f64_value_of (f64_rounded s r) = Fin s (nearest r)"
proof -
  from assms have r: "0 < r" "- 1022 \<le> ilog2 r" "ilog2 r \<le> 1022" by (simp_all add: normal_def)
  define n K where "n = round_half_even (r * 2 powi (52 - ilog2 r))" and "K = nat (ilog2 r + 1022)"
  have n: "2 ^ 52 \<le> n" "n \<le> 2 ^ 53"
    unfolding n_def using round_half_even_range [of "2 ^ 52" _ "2 ^ 53"] scaled_range [OF r(1)] by simp_all
  have K: "K \<le> 2044" "int K = ilog2 r + 1022" using r by (simp_all add: K_def)
  let ?m = "K * 2 ^ 52 + n" and ?s = "if s then 2 ^ 63 else 0 :: nat"
  have "max (ilog2 r) (- 1022) = ilog2 r" using r by simp
  then have "f64_magnitude r = min ?m (2047 * 2 ^ 52)" using r(1) by (simp only: f64_magnitude_def Let_def n_def K_def) simp
  then have "f64_magnitude r = ?m" using n(2) K by simp
  moreover have "?s + ?m < 2 ^ 64" using n(2) K(1) by simp
  ultimately have u: "unat (f64_rounded s r) = ?s + ?m" by (simp only: f64_rounded_def unat_of_nat_u64)
  have sgn: "(2 ^ 63 \<le> ?s + ?m) = s" using n(2) K(1) by simp
  define q where "q = n - 2 ^ 52"
  have q: "n = 2 ^ 52 + q" "q \<le> 2 ^ 52" using n by (simp_all add: q_def)
  have nr: "nearest r = of_nat n * 2 powi (int K - 1074)" using K(2) by (simp add: nearest_def n_def)
  show ?thesis
  proof (cases "q < 2 ^ 52")
    case True
    let ?S = "if s then 2048 else 0 :: nat"
    have "?s + ?m = q + 2 ^ 52 * (?S + K + 1)" using q(1) by simp
    then have "(?s + ?m) div 2 ^ 52 = ?S + K + 1" "(?s + ?m) mod 2 ^ 52 = q"
      using True by (simp_all only: div_mult_self2 mod_mult_self2 power_not_zero zero_neq_numeral not_False_eq_True div_less mod_less add_0)
    moreover have "(?S + K + 1) mod 2 ^ 11 = K + 1" using K(1) by (simp add: mod_if)
    ultimately have "(?s + ?m) div 2 ^ 52 mod 2 ^ 11 = K + 1" "(?s + ?m) mod 2 ^ 52 = q" by simp_all
    from f64_value_fields [of "f64_rounded s r", unfolded u, OF this sgn] show ?thesis
      using K(1) by (simp add: nr q(1))
  next
    case False
    then have q2: "q = 2 ^ 52" using q(2) by simp
    let ?S = "if s then 2048 else 0 :: nat"
    have "?s + ?m = 2 ^ 52 * (?S + K + 2)" using q(1) q2 by simp
    then have "(?s + ?m) div 2 ^ 52 = ?S + K + 2" "(?s + ?m) mod 2 ^ 52 = 0"
      by (simp_all only: nonzero_mult_div_cancel_left mod_mult_self1_is_0 power_not_zero zero_neq_numeral not_False_eq_True)
    moreover have "(?S + K + 2) mod 2 ^ 11 = K + 2" using K(1) by (simp add: mod_if)
    ultimately have "(?s + ?m) div 2 ^ 52 mod 2 ^ 11 = K + 2" "(?s + ?m) mod 2 ^ 52 = 0" by simp_all
    from f64_value_fields [of "f64_rounded s r", unfolded u, OF this sgn]
    have "f64_value_of (f64_rounded s r) = Fin s (2 ^ 52 * 2 powi (int K - 1073))" using K(1) by simp
    moreover have "(2 :: rat) powi (int K - 1073) = 2 * 2 powi (int K - 1074)"
      using power_int_add_1' [of "2 :: rat" "int K - 1074"] by simp
    ultimately show ?thesis using q(1) q2 by (simp add: nr)
  qed
qed

text \<open>A positive double compares above zero.\<close>

lemma f64_value_sign: "f64_value_of b = Fin s x \<Longrightarrow> s = (2 ^ 63 \<le> unat b)"
  unfolding f64_value_of_def Let_def by (simp only: f64_value.distinct f64_value.inject split: if_splits)

lemma f64_value_zero: "f64_value_of 0 = Fin False 0"
  by (simp add: f64_value_of_def f64_exponent_def f64_mantissa_def)

lemma unsigned_above_zero:
  assumes "\<not> 2 ^ 63 \<le> unat b" "b \<noteq> 0"
  shows "\<not> f64_ge 0 b"
proof -
  have "int (unat b) < int (2 ^ 63)" using assms(1) by (simp only: of_nat_less_iff not_le)
  then have b: "uint b < 2 ^ 63" by (simp only: uint_nat of_nat_power of_nat_numeral)
  have pos: "0 < uint b" using assms(2) by (simp add: word_neq_0_conv word_less_def)
  have "uint (take_bit 63 b) = uint b" using b pos by (simp only: unsigned_take_bit_eq take_bit_int_eq_self_iff) simp
  moreover have "bit b 63 = bit (uint b) 63" by (simp add: bit_uint_iff)
  then have "\<not> bit b 63" using b pos by (simp only: bit_iff_odd) simp
  ultimately show ?thesis using pos by (simp add: f64_ge_def f64_key_def)
qed

lemma rounded_above_zero:
  assumes "normal r"
  shows "\<not> f64_ge 0 (f64_rounded False r)"
proof -
  have v: "f64_value_of (f64_rounded False r) = Fin False (nearest r)" using assms by (rule f64_value_rounded)
  let ?b = "f64_rounded False r"
  have "\<not> 2 ^ 63 \<le> unat ?b" using f64_value_sign [OF v] by (simp only: simp_thms)
  moreover have "?b \<noteq> 0"
  proof
    assume "?b = 0"
    then have "nearest r = 0" using v by (simp only: f64_value_zero f64_value.inject)
    with nearest_pos [OF assms] show False by simp
  qed
  ultimately show ?thesis by (rule unsigned_above_zero)
qed

section \<open>Whole numbers\<close>

lemma ilog2_nat:
  assumes "0 < n"
  shows "0 \<le> ilog2 (of_nat n)" "n < 2 ^ k \<Longrightarrow> ilog2 (of_nat n) < int k"
proof -
  have i: "ilog2 (of_nat n) = int (floorlog 2 n) - 1" using assms by (simp add: ilog2_def)
  show "0 \<le> ilog2 (of_nat n)" using assms floorlog_eq_zero_iff [of 2 n] by (cases "floorlog 2 n") (simp_all add: i)
  show "n < 2 ^ k \<Longrightarrow> ilog2 (of_nat n) < int k" using floorlog_leI [of n 2 k] by (simp add: i)
qed

lemma round_half_even_nat: "round_half_even (of_nat m) = m"
  by (simp add: round_half_even_def)

lemma nearest_nat:
  assumes "0 < n" "n < 2 ^ 53"
  shows "nearest (of_nat n) = of_nat n"
proof -
  let ?k = "ilog2 (of_nat n)"
  define j where "j = nat (52 - ?k)"
  have j: "52 - ?k = int j" using ilog2_nat(2) [OF assms] by (simp add: j_def)
  have "of_nat n * 2 powi (52 - ?k) = (of_nat (n * 2 ^ j) :: rat)" by (simp add: j)
  then have "round_half_even (of_nat n * 2 powi (52 - ?k)) = n * 2 ^ j" by (simp only: round_half_even_nat)
  then have "nearest (of_nat n) = of_nat n * (2 powi (52 - ?k) * 2 powi (?k - 52))"
    by (simp add: nearest_def j mult.assoc)
  then show ?thesis by (simp add: unscale)
qed

lemma f64_value_nat:
  assumes "0 < n" "n < 2 ^ 53"
  shows "f64_value_of (f64_rounded s (of_nat n)) = Fin s (of_nat n)"
proof -
  have "normal (of_nat n)" using ilog2_nat(1) [OF assms(1)] ilog2_nat(2) [OF assms] assms(1) by (simp add: normal_def)
  then show ?thesis by (simp add: f64_value_rounded nearest_nat [OF assms])
qed

section \<open>Scaling down and up again\<close>

lemma two_powi_less_iff: "(2 :: rat) powi a < 2 powi b \<longleftrightarrow> a < b"
  using power_int_strict_increasing [of a b "2 :: rat"] power_int_increasing [of b a "2 :: rat"] by (cases "a < b") auto

lemma normalI:
  assumes "2 powi (- 1022) \<le> r" "r < 2 powi 1023"
  shows "normal r"
proof -
  have r: "0 < r" using assms(1) by (rule less_le_trans [rotated]) simp
  have "(2 :: rat) powi (- 1022) < 2 powi (ilog2 r + 1)" using assms(1) ilog2_bounds(2) [OF r] by simp
  then have "- 1022 < ilog2 r + 1" by (simp only: two_powi_less_iff)
  moreover have "(2 :: rat) powi ilog2 r < 2 powi 1023" using ilog2_bounds(1) [OF r] assms(2) by simp
  then have "ilog2 r < 1023" by (simp only: two_powi_less_iff)
  ultimately show ?thesis using r by (simp add: normal_def)
qed

lemma two_powi_le_half: "(2 :: rat) powi (- 1022) \<le> 1 / 2 ^ 53"
  using power_int_increasing [of "- 1022" "- 53" "2 :: rat"] by (simp add: power_int_minus_divide)

lemma less_two_powi: "r \<le> 2 ^ 53 \<Longrightarrow> r < (2 :: rat) powi 1023"
  using two_powi_less_iff [of 53 1023] by simp

lemma two_roundings:
  fixes b y z :: rat
  assumes "\<bar>z - b\<bar> \<le> b * (1 / 2 ^ 53)" "\<bar>y - z\<bar> \<le> z * (1 / 2 ^ 53)" "1 \<le> b" "b \<le> 2 ^ 51 - 1"
  shows "\<bar>y - b\<bar> < 1 / 2"
proof -
  have z: "z \<le> b + b / 9007199254740992" "b - b / 9007199254740992 \<le> z" using assms(1) [unfolded abs_le_iff] by simp_all
  have y: "y \<le> z + z / 9007199254740992" "z - z / 9007199254740992 \<le> y" using assms(2) [unfolded abs_le_iff] by simp_all
  have "b \<le> 2251799813685247" using assms(4) by simp
  then have "y < b + 1 / 2" "b < y + 1 / 2" using z y assms(3) by linarith+
  then show ?thesis unfolding abs_less_iff by simp
qed

lemma scaled_rounding:
  fixes b d :: rat
  assumes "1 \<le> b" "b \<le> 2 ^ 51 - 1" "1 \<le> d" "d \<le> 2 ^ 53"
  shows "normal (b / d)" "normal (nearest (b / d) * d)" "\<bar>nearest (nearest (b / d) * d) - b\<bar> < 1 / 2"
proof -
  let ?x = "nearest (b / d)" and ?u = "1 / 2 ^ 53 :: rat"
  have pos: "0 < b / d" using assms by simp
  have "1 / 2 ^ 53 \<le> b / d" using assms by (simp add: field_simps)
  moreover have "b / d \<le> b" using assms by (simp add: divide_le_eq mult_le_cancel_left1)
  ultimately show "normal (b / d)"
    by (intro normalI order_trans [OF two_powi_le_half] less_two_powi) (use assms(2) in simp_all)
  have "\<bar>?x - b / d\<bar> * d \<le> b / d * ?u * d" by (rule mult_right_mono) (use nearest_error [OF pos] assms in simp_all)
  moreover have "\<bar>?x - b / d\<bar> * d = \<bar>(?x - b / d) * d\<bar>" using assms(3) by (simp add: abs_mult)
  then have "\<bar>?x - b / d\<bar> * d = \<bar>?x * d - b\<bar>" using assms(3) by (simp add: left_diff_distrib)
  moreover have "b / d * ?u * d = b * ?u" using assms(3) by simp
  ultimately have z: "\<bar>?x * d - b\<bar> \<le> b * ?u" by simp
  then have zb: "b - b * ?u \<le> ?x * d" "?x * d \<le> b + b * ?u" by linarith+
  have "0 < ?x * d" "?u \<le> ?x * d" "?x * d \<le> 2 ^ 53" using zb assms(1,2) by simp_all
  then show "normal (?x * d)" by (intro normalI order_trans [OF two_powi_le_half] less_two_powi)
  have "\<bar>nearest (?x * d) - ?x * d\<bar> \<le> ?x * d * ?u" using nearest_error [OF \<open>0 < ?x * d\<close>] by simp
  from two_roundings [OF z this assms(1,2)] show "\<bar>nearest (?x * d) - b\<bar> < 1 / 2" .
qed

lemma nat_quotient_bounds:
  assumes "0 < n" "n < 2 ^ 51" "0 < d" "d < 2 ^ 53"
  shows "(1 :: rat) \<le> of_nat n" "of_nat n \<le> (2 :: rat) ^ 51 - 1" "(1 :: rat) \<le> of_nat d" "of_nat d \<le> (2 :: rat) ^ 53"
proof -
  have "n \<le> 2 ^ 51 - 1" "d \<le> 2 ^ 53" using assms by simp_all
  then show "of_nat n \<le> (2 :: rat) ^ 51 - 1" "of_nat d \<le> (2 :: rat) ^ 53"
    by (simp_all only: of_nat_le_iff [symmetric, where 'a = rat] of_nat_diff of_nat_numeral of_nat_power of_nat_1 one_le_power)
qed (use assms in simp_all)

lemma nat_quotient_normal:
  assumes "0 < n" "n < 2 ^ 51" "0 < d" "d < 2 ^ 53"
  shows "normal (of_nat n / of_nat d)"
  by (rule scaled_rounding(1) [OF nat_quotient_bounds [OF assms]])

lemma f64_scale_nat:
  assumes "0 < n" "n < 2 ^ 51" "0 < d" "d < 2 ^ 53"
  shows "f64_round (f64_mul (f64_div (f64_rounded False (of_nat n)) (f64_rounded False (of_nat d))) (f64_rounded False (of_nat d))) =
     f64_rounded False (of_nat n)"
proof -
  let ?b = "of_nat n :: rat" and ?d = "of_nat d :: rat"
  have n: "normal (?b / ?d)" "normal (nearest (?b / ?d) * ?d)" "\<bar>nearest (nearest (?b / ?d) * ?d) - ?b\<bar> < 1 / 2"
    using scaled_rounding [OF nat_quotient_bounds [OF assms]] .
  have v: "f64_value_of (f64_rounded False ?b) = Fin False ?b" "f64_value_of (f64_rounded False ?d) = Fin False ?d"
    using assms by (simp_all add: f64_value_nat)
  have "\<lfloor>nearest (nearest (?b / ?d) * ?d) + 1 / 2\<rfloor> = int n"
    using n(3) unfolding floor_eq_iff of_int_of_nat_eq by linarith
  then show ?thesis
    using assms(3) by (simp add: f64_round_def f64_div_def f64_mul_def v f64_value_rounded [OF n(1)] f64_value_rounded [OF n(2)])
qed

lemma f64_scale_roundtrip:
  assumes "0 < unat b" "unat b < 2 ^ 51" "0 < unat d" "unat d < 2 ^ 53"
  shows "f64_to_u64 (f64_round (f64_mul (f64_div (f64_of_u64 b) (f64_of_u64 d)) (f64_of_u64 d))) = b"
proof -
  have "f64_value_of (f64_rounded False (of_nat (unat b))) = Fin False (of_nat (unat b))"
    by (rule f64_value_nat) (use assms in simp_all)
  then have "f64_to_u64 (f64_rounded False (of_nat (unat b))) = of_nat (min (nat \<lfloor>of_nat (unat b) :: rat\<rfloor>) (2 ^ 64 - 1))"
    by (simp only: f64_to_u64_def f64_value.case if_False)
  also have "\<dots> = b" using assms(2) by (simp only: floor_of_nat nat_int min_absorb1) simp
  finally show ?thesis using f64_scale_nat [OF assms] by (simp only: f64_of_u64_def)
qed

lemma f64_div_nat:
  assumes "0 < m" "m < 2 ^ 53" "0 < n" "n < 2 ^ 53"
  shows "f64_div (f64_rounded False (of_nat m)) (f64_rounded False (of_nat n)) = f64_rounded False (of_nat m / of_nat n)"
  using assms(3) by (simp add: f64_div_def f64_value_nat [OF assms(1,2)] f64_value_nat [OF assms(3,4)])

lemma f64_quotient_above_zero:
  assumes "0 < unat b" "unat b < 2 ^ 51" "0 < unat d" "unat d < 2 ^ 53"
  shows "\<not> f64_ge 0 (f64_div (f64_of_u64 b) (f64_of_u64 d))"
proof -
  have "unat b < 2 ^ 53" using assms(2) by simp
  then show ?thesis
    unfolding f64_of_u64_def f64_div_nat [OF assms(1) _ assms(3,4)]
    by (simp only: f64_div_nat [OF assms(1) _ assms(3,4)] rounded_above_zero [OF nat_quotient_normal [OF assms]] simp_thms)
qed

end
