(* ===== verification/Transfers.thy ===== *)
theory Transfers
  imports Consensus Access Float64
begin

text \<open>
  Moving funds through \<^verbatim>\<open>src/src/api.rs\<close>: the conversion of AURA amounts, transfers signed by a wallet of the node, the mission
  treasury, and the submission and look-up of transactions. The JSON printer is the argument \<open>json_text\<close>; clocks and random
  identifiers are arguments. Amounts in AURA are doubles, computed as in \<open>Float64\<close>.
\<close>

section \<open>State and requests\<close>

record app_state =
  ap_chain :: chain
  ap_mempool :: mempool
  ap_node_wallet :: "wallet option"
  ap_treasury_wallet :: "wallet option"
  ap_treasury_address :: string

record wallet_transfer_req =
  wt_from :: "string option"
  wt_to :: string
  wt_amount_aura :: f64
  wt_memo :: "string option"
  wt_fee :: "u64 option"

record mission_treasury_fund_req =
  mf_amount_aura :: f64
  mf_mission_id :: "string option"
  mf_mission_title :: "string option"
  mf_operator_wallet :: "string option"
  mf_strict_settlement :: "bool option"
  mf_fee :: "u64 option"

record mission_treasury_payout_req =
  mp_operator_wallet :: string
  mp_agent_wallet :: string
  mp_amount_aura :: f64
  mp_mission_id :: "string option"
  mp_agent_id :: "string option"
  mp_strict_settlement :: "bool option"
  mp_fee :: "u64 option"

record settlement_resp =
  se_tx_id :: string
  se_from :: string
  se_to :: string
  se_amount :: u64
  se_amount_aura :: f64
  se_fee :: u64
  se_status :: string
  se_treasury_wallet :: string
  se_pool_balance_aura :: f64

record wallet_transfer_resp =
  wr_tx_id :: string
  wr_from :: string
  wr_to :: string
  wr_amount :: u64
  wr_amount_aura :: f64
  wr_fee :: u64
  wr_status :: string

section \<open>Amounts\<close>

definition aura_to_raw :: "f64 \<Rightarrow> (u64, api_error) res" where
  "aura_to_raw amount_aura =
     (if f64_ge 0 amount_aura then Err Bad_request
      else let amount = f64_to_u64 (f64_round (f64_mul amount_aura (f64_of_u64 DECIMAL_FACTOR)))
           in if amount = 0 then Err Bad_request else Ok amount)"

definition raw_to_aura :: "u64 \<Rightarrow> f64" where
  "raw_to_aura amount = f64_div (f64_of_u64 amount) (f64_of_u64 DECIMAL_FACTOR)"

section \<open>Transfers signed by the node\<close>

definition add_pending :: "primitives \<Rightarrow> transaction \<Rightarrow> app_state \<Rightarrow> (app_state, api_error) res" where
  "add_pending p tx s =
     res_bind (res_map_err (\<lambda>_. Bad_request) (mempool_add p tx (ap_chain s) (ap_mempool s))) (\<lambda>m. Ok (s\<lparr>ap_mempool := m\<rparr>))"

definition submit_signed_transfer ::
    "primitives \<Rightarrow> u64 \<Rightarrow> wallet \<Rightarrow> string \<Rightarrow> f64 \<Rightarrow> u64 option \<Rightarrow> string option \<Rightarrow> app_state
       \<Rightarrow> ((string \<times> u64 \<times> u64) \<times> app_state, api_error) res" where
  "submit_signed_transfer p now_secs w to amount_aura fee_override memo s =
     (if trim to = [] then Err Bad_request
      else if to = w_address w then Err Bad_request
      else res_bind (aura_to_raw amount_aura) (\<lambda>amount.
        let fee = (case fee_override of None \<Rightarrow> MIN_FEE | Some f \<Rightarrow> f);
            nonce = get_nonce (ap_chain s) (w_address w);
            sign_msg = tx_sign_msg p (w_address w) to amount fee nonce now_secs memo in
        res_bind (res_map_err (\<lambda>_. Internal) (wallet_sign p w sign_msg)) (\<lambda>signature.
        let tx = \<lparr>tx_id = compute_id p (w_address w) to amount fee nonce now_secs None, tx_from = w_address w, tx_to = to,
                  tx_amount = amount, tx_fee = fee, tx_nonce = nonce, tx_data = memo, tx_signature = signature,
                  tx_public_key = w_verifying_key_hex w, tx_timestamp = now_secs\<rparr> in
        res_bind (add_pending p tx s) (\<lambda>s'. Ok ((tx_id tx, amount, fee), s')))))"

definition wallet_transfer ::
    "primitives \<Rightarrow> u64 \<Rightarrow> socket_addr \<Rightarrow> headers \<Rightarrow> wallet_transfer_req \<Rightarrow> app_state
       \<Rightarrow> (wallet_transfer_resp \<times> app_state, api_error) res" where
  "wallet_transfer p now_secs remote hs req s =
     (if \<not> is_direct_local_request remote hs then Err Forbidden
      else case ap_node_wallet s of
             None \<Rightarrow> Err Bad_request
           | Some w \<Rightarrow>
               if wt_from req \<noteq> None \<and> wt_from req \<noteq> Some (w_address w) then Err Bad_request
               else res_bind (submit_signed_transfer p now_secs w (wt_to req) (wt_amount_aura req) (wt_fee req) (wt_memo req) s)
                 (\<lambda>((i, amount, fee), s').
                    Ok (\<lparr>wr_tx_id = i, wr_from = w_address w, wr_to = wt_to req, wr_amount = amount,
                         wr_amount_aura = raw_to_aura amount, wr_fee = fee, wr_status = ''pending''\<rparr>, s')))"

section \<open>The mission treasury\<close>

definition json_opt :: "string option \<Rightarrow> json" where
  "json_opt v = (case v of None \<Rightarrow> JNull | Some t \<Rightarrow> JString t)"

definition autonomo_get_mission_treasury :: "app_state \<Rightarrow> (string \<times> u64 \<times> f64, api_error) res" where
  "autonomo_get_mission_treasury s =
     (let treasury_wallet = (case ap_treasury_wallet s of Some w \<Rightarrow> w_address w | None \<Rightarrow> ap_treasury_address s)
      in if trim treasury_wallet = [] then Err Not_found
         else let pool_balance = get_balance (ap_chain s) treasury_wallet
              in Ok (treasury_wallet, pool_balance, raw_to_aura pool_balance))"

definition mission_treasury_wallet_or_error :: "app_state \<Rightarrow> (wallet, api_error) res" where
  "mission_treasury_wallet_or_error s = (case ap_treasury_wallet s of None \<Rightarrow> Err Bad_request | Some w \<Rightarrow> Ok w)"

definition settlement :: "wallet \<Rightarrow> wallet \<Rightarrow> string \<Rightarrow> (string \<times> u64 \<times> u64) \<times> app_state \<Rightarrow> settlement_resp \<times> app_state" where
  "settlement treasury payer to r =
     (case r of ((i, amount, fee), s) \<Rightarrow>
        (\<lparr>se_tx_id = i, se_from = w_address payer, se_to = to, se_amount = amount, se_amount_aura = raw_to_aura amount, se_fee = fee,
          se_status = ''pending'', se_treasury_wallet = w_address treasury, se_pool_balance_aura = raw_to_aura (get_balance (ap_chain s) (w_address treasury))\<rparr>, s))"

definition autonomo_fund_mission_treasury ::
    "primitives \<Rightarrow> (json \<Rightarrow> string) \<Rightarrow> u64 \<Rightarrow> socket_addr \<Rightarrow> headers \<Rightarrow> mission_treasury_fund_req \<Rightarrow> app_state
       \<Rightarrow> (settlement_resp \<times> app_state, api_error) res" where
  "autonomo_fund_mission_treasury p json_text now_secs remote hs req s =
     (if \<not> is_direct_local_request remote hs then Err Forbidden
      else if mf_strict_settlement req = Some False then Err Bad_request
      else case ap_node_wallet s of
             None \<Rightarrow> Err Bad_request
           | Some node \<Rightarrow>
               if mf_operator_wallet req \<noteq> None \<and> mf_operator_wallet req \<noteq> Some (w_address node) then Err Bad_request
               else res_bind (mission_treasury_wallet_or_error s) (\<lambda>treasury.
                 if w_address treasury = w_address node then Err Bad_request
                 else let memo = json_text (json_object
                            [(''kind'', JString ''mission_treasury_fund''), (''mission_id'', json_opt (mf_mission_id req)),
                             (''mission_title'', json_opt (mf_mission_title req)), (''strict_settlement'', JBool True)])
                      in res_bind (submit_signed_transfer p now_secs node (w_address treasury) (mf_amount_aura req) (mf_fee req) (Some memo) s)
                           (\<lambda>r. Ok (settlement treasury node (w_address treasury) r))))"

definition autonomo_payout_mission_treasury ::
    "primitives \<Rightarrow> (json \<Rightarrow> string) \<Rightarrow> u64 \<Rightarrow> socket_addr \<Rightarrow> headers \<Rightarrow> mission_treasury_payout_req \<Rightarrow> app_state
       \<Rightarrow> (settlement_resp \<times> app_state, api_error) res" where
  "autonomo_payout_mission_treasury p json_text now_secs remote hs req s =
     (if \<not> is_direct_local_request remote hs then Err Forbidden
      else if mp_strict_settlement req = Some False then Err Bad_request
      else if trim (mp_operator_wallet req) = [] \<or> trim (mp_agent_wallet req) = [] then Err Bad_request
      else case ap_node_wallet s of
             None \<Rightarrow> Err Bad_request
           | Some node \<Rightarrow>
               if mp_operator_wallet req \<noteq> w_address node then Err Bad_request
               else res_bind (mission_treasury_wallet_or_error s) (\<lambda>treasury.
                 if mp_agent_wallet req = w_address treasury then Err Bad_request
                 else res_bind (aura_to_raw (mp_amount_aura req)) (\<lambda>amount_raw.
                   let fee = (case mp_fee req of None \<Rightarrow> MIN_FEE | Some f \<Rightarrow> f) in
                   if get_balance (ap_chain s) (w_address treasury) < saturating_add amount_raw fee then Err Bad_request
                   else let memo = json_text (json_object
                              [(''kind'', JString ''mission_treasury_payout''), (''operator_wallet'', JString (mp_operator_wallet req)),
                               (''agent_id'', json_opt (mp_agent_id req)), (''mission_id'', json_opt (mp_mission_id req)),
                               (''strict_settlement'', JBool True)])
                        in res_bind (submit_signed_transfer p now_secs treasury (mp_agent_wallet req) (mp_amount_aura req) (mp_fee req)
                                       (Some memo) s)
                             (\<lambda>r. Ok (settlement treasury treasury (mp_agent_wallet req) r)))))"

section \<open>Submission and look-up\<close>

definition submit_tx :: "primitives \<Rightarrow> transaction \<Rightarrow> app_state \<Rightarrow> (string \<times> app_state, api_error) res" where
  "submit_tx p tx s = res_bind (add_pending p tx s) (\<lambda>s'. Ok (tx_id tx, s'))"

datatype tx_status = Confirmed | Pending

definition get_tx :: "(transaction list \<Rightarrow> transaction list) \<Rightarrow> string \<Rightarrow> app_state \<Rightarrow> (transaction \<times> tx_status, api_error) res" where
  "get_tx order i s =
     (case get_transaction (ap_chain s) i of
        Some tx \<Rightarrow> Ok (tx, Confirmed)
      | None \<Rightarrow>
          (case find (\<lambda>tx. tx_id tx = i) (mempool_all order (ap_mempool s)) of
             Some tx \<Rightarrow> Ok (tx, Pending)
           | None \<Rightarrow> Err Not_found))"

text \<open>An unsigned entry of the action ledger, as agent actions and operator nudges submit it.\<close>

definition action_tx :: "string \<Rightarrow> string \<Rightarrow> u64 \<Rightarrow> transaction" where
  "action_tx uuid data now_secs =
     \<lparr>tx_id = uuid, tx_from = ''GENESIS'', tx_to = ''autonomo_action_ledger'', tx_amount = 0, tx_fee = 0, tx_nonce = 0, tx_data = Some data,
      tx_signature = ''GENESIS'', tx_public_key = ''GENESIS'', tx_timestamp = now_secs\<rparr>"

definition autonomo_agent_action ::
    "primitives \<Rightarrow> (json \<Rightarrow> string) \<Rightarrow> string \<Rightarrow> u64 \<Rightarrow> string \<Rightarrow> string \<Rightarrow> json \<Rightarrow> f64 option \<Rightarrow> app_state
       \<Rightarrow> (string \<times> app_state, api_error) res" where
  "autonomo_agent_action p json_text uuid now_secs action_type wallet payload risk_score s =
     (let tx_data = json_object
            [(''action_type'', JString action_type), (''actor_wallet'', JString wallet), (''payload'', payload),
             (''risk_score'', JFloat (case risk_score of None \<Rightarrow> 0 | Some r \<Rightarrow> r)), (''source'', JString ''autonomo'')];
          tx = action_tx uuid (json_text tx_data) now_secs
      in res_bind (add_pending p tx s) (\<lambda>s'. Ok (tx_id tx, s')))"

definition autonomo_nudge ::
    "primitives \<Rightarrow> (json \<Rightarrow> string) \<Rightarrow> string \<Rightarrow> u64 \<Rightarrow> u64 \<Rightarrow> string \<Rightarrow> string \<Rightarrow> string \<Rightarrow> u64 option \<Rightarrow> app_state
       \<Rightarrow> (string \<times> app_state, api_error) res" where
  "autonomo_nudge p json_text uuid now_secs now_ms agent_wallet operator_wallet command timestamp s =
     (if trim agent_wallet = [] \<or> trim operator_wallet = [] \<or> trim command = [] then Err Bad_request
      else let ts = (case timestamp of None \<Rightarrow> now_ms | Some t \<Rightarrow> t);
               payload = json_object
                 [(''agent_wallet'', JString agent_wallet), (''command'', JString command), (''operator_wallet'', JString operator_wallet),
                  (''timestamp'', JPosInt ts)];
               tx_data = json_object
                 [(''action_type'', JString ''nudge''), (''actor_wallet'', JString operator_wallet), (''payload'', payload),
                  (''risk_score'', JFloat 0), (''source'', JString ''autonomo'')];
               tx = action_tx uuid (json_text tx_data) now_secs
           in res_bind (add_pending p tx s) (\<lambda>s'. Ok (tx_id tx, s')))"

definition validate_wallet_address :: "string \<Rightarrow> bool" where
  "validate_wallet_address address \<longleftrightarrow>
     length address = 42 \<and> starts_with address ''ARLPh'' \<and> list_all (is_digit 16) (drop 5 address)"

record vesting_info =
  vi_genesis_allocation_aura :: f64
  vi_vested_aura :: f64
  vi_total_spendable_aura :: f64
  vi_vesting_months_remaining :: u64
  vi_vesting_end_ms :: u64

record balance_resp =
  br_address :: string
  br_balance :: u64
  br_balance_aura :: f64
  br_vesting :: "vesting_info option"

definition api_get_balance :: "u64 \<Rightarrow> string \<Rightarrow> app_state \<Rightarrow> (balance_resp, api_error) res" where
  "api_get_balance now_ms address s =
     (if \<not> validate_wallet_address address then Err Bad_request
      else let balance = get_balance (ap_chain s) address;
               months_elapsed = (if FOUNDER_VESTING_START_MS < now_ms
                 then min ((now_ms - FOUNDER_VESTING_START_MS) div VESTING_MONTH_MS) FOUNDER_VESTING_MONTHS else 0);
               vesting = (if address = FOUNDER_ADDRESS
                 then Some \<lparr>vi_genesis_allocation_aura = raw_to_aura FOUNDER_GENESIS_ALLOCATION,
                            vi_vested_aura = raw_to_aura (founder_vested now_ms),
                            vi_total_spendable_aura = raw_to_aura (founder_total_balance now_ms),
                            vi_vesting_months_remaining = saturating_sub FOUNDER_VESTING_MONTHS months_elapsed,
                            vi_vesting_end_ms = FOUNDER_VESTING_START_MS + FOUNDER_VESTING_MONTHS * VESTING_MONTH_MS\<rparr>
                 else None)
           in Ok \<lparr>br_address = address, br_balance = balance, br_balance_aura = raw_to_aura balance, br_vesting = vesting\<rparr>)"

definition api_get_nonce :: "string \<Rightarrow> app_state \<Rightarrow> (u64, api_error) res" where
  "api_get_nonce address s =
     (if \<not> validate_wallet_address address then Err Bad_request else Ok (get_nonce (ap_chain s) address))"

definition get_blocks_range :: "u64 option \<Rightarrow> u64 option \<Rightarrow> app_state \<Rightarrow> block list" where
  "get_blocks_range q_from q_to s =
     (let tip = chain_height (ap_chain s);
          fr = (case q_from of None \<Rightarrow> saturating_sub tip 9 | Some f \<Rightarrow> f);
          to = min (case q_to of None \<Rightarrow> tip | Some t \<Rightarrow> t) (saturating_add fr 100)
      in get_blocks (ap_chain s) fr to)"

section \<open>Amounts convert back\<close>

lemma amount_round_trip:
  assumes "0 < amount" "amount < 2 ^ 51"
  shows "aura_to_raw (raw_to_aura amount) = Ok amount"
proof -
  have a: "0 < unat amount" "unat amount < 2 ^ 51" using assms [unfolded word_less_nat_alt] by simp_all
  have d: "unat DECIMAL_FACTOR = 100000000" by (simp add: DECIMAL_FACTOR_def)
  have "f64_to_u64 (f64_round (f64_mul (raw_to_aura amount) (f64_of_u64 DECIMAL_FACTOR))) = amount"
    unfolding raw_to_aura_def by (rule f64_scale_roundtrip) (use a d in simp_all)
  moreover have "\<not> f64_ge 0 (raw_to_aura amount)"
    unfolding raw_to_aura_def by (rule f64_quotient_above_zero) (use a d in simp_all)
  ultimately show ?thesis using assms(1) by (simp add: aura_to_raw_def)
qed

text \<open>
  The AURA amount that an answer shows for a number of base units converts back to the same number, as long as it is below
  \<open>2 ^ 51\<close> (about 22.5 million AURA): neither the division nor the multiplication by the decimal factor loses a unit.
\<close>

lemma displayed_amount_round_trip:
  assumes "0 < amount" "amount < 2 ^ 51"
  shows "aura_to_raw (raw_to_aura amount) = Ok amount"
  using assms by (rule amount_round_trip)

lemma displayed_amount_round_trip_sample: "aura_to_raw (raw_to_aura 123456789) = Ok 123456789"
  by (rule displayed_amount_round_trip) simp_all

section \<open>Transfers and the mempool\<close>

lemma generated_address:
  assumes "hex_codec p" "sha256_size p" "wallet_generate p sk = (Ok w :: (wallet, unit) res)"
  shows "w_address w \<noteq> ''GENESIS''" "\<not> is_consensus_pool_address (w_address w)" "w_address w \<noteq> []"
proof -
  have "w_address w = ''ARLPh'' @ take 37 (hex_encode p (sha256 p (sha256 p (ed25519_public p sk))))"
    using wallet_generate_fields(3) [OF assms(3)] by (auto simp: derive_address_ok [OF assms(1,2)])
  then show "w_address w \<noteq> ''GENESIS''" "\<not> is_consensus_pool_address (w_address w)" "w_address w \<noteq> []"
    by (auto simp: is_consensus_pool_address_def starts_with_def)
qed

text \<open>What an accepted transfer added to the mempool.\<close>

lemma submit_signed_transfer_OkE:
  assumes "submit_signed_transfer p now w to x fee memo s = Ok r"
  obtains amount tx m where "aura_to_raw x = Ok amount" "tx_from tx = w_address w" "tx_to tx = to" "tx_amount tx = amount"
    "tx_data tx = memo" "tx_timestamp tx = now" "tx_nonce tx = get_nonce (ap_chain s) (w_address w)"
    "tx_id tx = compute_id p (w_address w) to amount (tx_fee tx) (tx_nonce tx) now None"
    "validate_basic p tx = Ok ()" "mempool_add p tx (ap_chain s) (ap_mempool s) = Ok m"
    "r = ((tx_id tx, amount, tx_fee tx), s\<lparr>ap_mempool := m\<rparr>)"
proof -
  from assms obtain amount signature m where "aura_to_raw x = Ok amount"
    and m: "mempool_add p \<lparr>tx_id = compute_id p (w_address w) to amount (case fee of None \<Rightarrow> MIN_FEE | Some f \<Rightarrow> f)
          (get_nonce (ap_chain s) (w_address w)) now None, tx_from = w_address w, tx_to = to, tx_amount = amount,
        tx_fee = (case fee of None \<Rightarrow> MIN_FEE | Some f \<Rightarrow> f), tx_nonce = get_nonce (ap_chain s) (w_address w), tx_data = memo,
        tx_signature = signature, tx_public_key = w_verifying_key_hex w, tx_timestamp = now\<rparr> (ap_chain s) (ap_mempool s) = Ok m"
    and r: "r = ((compute_id p (w_address w) to amount (case fee of None \<Rightarrow> MIN_FEE | Some f \<Rightarrow> f)
          (get_nonce (ap_chain s) (w_address w)) now None, amount, (case fee of None \<Rightarrow> MIN_FEE | Some f \<Rightarrow> f)), s\<lparr>ap_mempool := m\<rparr>)"
    by (auto simp: submit_signed_transfer_def add_pending_def Let_def res_simps split: if_splits)
  from m have "validate_basic p \<lparr>tx_id = compute_id p (w_address w) to amount (case fee of None \<Rightarrow> MIN_FEE | Some f \<Rightarrow> f)
          (get_nonce (ap_chain s) (w_address w)) now None, tx_from = w_address w, tx_to = to, tx_amount = amount,
        tx_fee = (case fee of None \<Rightarrow> MIN_FEE | Some f \<Rightarrow> f), tx_nonce = get_nonce (ap_chain s) (w_address w), tx_data = memo,
        tx_signature = signature, tx_public_key = w_verifying_key_hex w, tx_timestamp = now\<rparr> = Ok ()"
    unfolding mempool_add_def by (simp split: res.splits)
  then show thesis by (rule that [OF \<open>aura_to_raw x = Ok amount\<close> _ _ _ _ _ _ _ _ m, simplified]) (use r in simp_all)
qed

text \<open>
  Appending the hash of a memo changes the hash of a text: what the identifier of a transaction relies on to bind its memo.
\<close>

definition memo_binding :: "primitives \<Rightarrow> bool" where
  "memo_binding p \<longleftrightarrow> (\<forall>txt memo. blake3 p (txt @ hex_encode p (blake3 p memo)) \<noteq> blake3 p txt)"

lemma memo_id_differs:
  assumes "hex_codec p" "memo_binding p"
  shows "compute_id p fr to amount fee nonce ts None \<noteq> compute_id p fr to amount fee nonce ts (Some memo)"
proof
  assume "compute_id p fr to amount fee nonce ts None = compute_id p fr to amount fee nonce ts (Some memo)"
  then have "Some (blake3 p (fr @ to @ dec64 amount @ dec64 fee @ dec64 nonce @ dec64 ts)) =
      Some (blake3 p ((fr @ to @ dec64 amount @ dec64 fee @ dec64 nonce @ dec64 ts) @ hex_encode p (blake3 p memo)))"
    using assms(1) unfolding compute_id_def Let_def hex_codec_def by (metis append.assoc append_Nil2 option.case)
  with assms(2) show False unfolding memo_binding_def by (metis option.inject)
qed

lemma valid_has_expected_id: "validate_basic p tx = Ok () \<Longrightarrow> tx_from tx \<noteq> ''GENESIS'' \<Longrightarrow> has_expected_id p tx"
  by (auto simp: validate_basic_def split: if_splits option.splits)

lemma memo_transfer_rejected:
  assumes "hex_codec p" "memo_binding p" "w_address w \<noteq> ''GENESIS''"
  shows "submit_signed_transfer p now w to x fee (Some memo) s \<noteq> Ok r"
proof
  assume "submit_signed_transfer p now w to x fee (Some memo) s = Ok r"
  then show False
  proof (rule submit_signed_transfer_OkE)
    fix amount tx m
    assume tx: "tx_from tx = w_address w" "tx_to tx = to" "tx_amount tx = amount" "tx_data tx = Some memo" "tx_timestamp tx = now"
      and i: "tx_id tx = compute_id p (w_address w) to amount (tx_fee tx) (tx_nonce tx) now None" and v: "validate_basic p tx = Ok ()"
    from v have "has_expected_id p tx" by (rule valid_has_expected_id) (simp add: tx assms(3))
    then show False using memo_id_differs [OF assms(1,2)] by (simp add: has_expected_id_def tx i)
  qed
qed


lemma add_pending_valid:
  assumes "validate_basic p tx = Ok ()" "length (ap_mempool s) < MAX_SIZE" "tree_get (ap_mempool s) (tx_id tx) = None"
    "\<not> tx_exists (ap_chain s) (tx_id tx)"
    "tx_from tx = ''GENESIS'' \<or> tx_nonce tx = get_nonce (ap_chain s) (tx_from tx) \<and>
       tx_amount tx + tx_fee tx \<le> get_balance (ap_chain s) (tx_from tx)"
  shows "add_pending p tx s = Ok (s\<lparr>ap_mempool := tree_insert (tx_id tx) tx (ap_mempool s)\<rparr>)"
  using assms by (auto simp: add_pending_def mempool_add_def)

lemma evicted:
  assumes "tree_wf m" "tree_get m i = Some tx" "unat (tx_timestamp tx) + unat MAX_AGE_MS \<le> unat now_ms"
  shows "tree_get (evict_expired now_ms m) i = None"
proof -
  have "\<not> saturating_sub now_ms (tx_timestamp tx) < MAX_AGE_MS"
    using assms(3) by (simp add: word_less_nat_alt unat_saturating_sub)
  then show ?thesis using assms(1,2) by (simp add: evict_expired_def tree_get_filter)
qed

text \<open>
  A local transfer without memo from the node's wallet, for an amount the wallet can pay, is answered as pending and is in the
  mempool with the requested recipient and amount. Its timestamp is in seconds, though, and the mempool counts in milliseconds: the
  next eviction drops it however young it is.
\<close>

lemma node_transfer_pending_until_eviction:
  assumes "hex_codec p" "sha256_size p" "ed25519_scheme p" "length sk = 32" "wallet_generate p sk = (Ok w :: (wallet, unit) res)"
    "ap_node_wallet s = Some w" "is_direct_local_request remote hs" "wt_from req = None" "wt_memo req = None" "wt_fee req = None"
    "trim (wt_to req) \<noteq> []" "wt_to req \<noteq> w_address w" "aura_to_raw (wt_amount_aura req) = Ok amount"
    "unat amount + unat MIN_FEE \<le> unat (get_balance (ap_chain s) (w_address w))"
    "length (ap_mempool s) < MAX_SIZE" "tree_wf (ap_mempool s)"
    "i = compute_id p (w_address w) (wt_to req) amount MIN_FEE (get_nonce (ap_chain s) (w_address w)) now_secs None"
    "tree_get (ap_mempool s) i = None" "\<not> tx_exists (ap_chain s) i"
    "3604 \<le> unat now_secs" "1000 * unat now_secs \<le> unat now_ms"
  shows "\<exists>resp s' tx. wallet_transfer p now_secs remote hs req s = Ok (resp, s') \<and> wr_tx_id resp = i \<and>
     tree_get (ap_mempool s') i = Some tx \<and> tx_from tx = w_address w \<and> tx_to tx = wt_to req \<and> tx_amount tx = amount \<and>
     tree_get (evict_expired now_ms (ap_mempool s')) i = None"
proof -
  let ?nonce = "get_nonce (ap_chain s) (w_address w)"
  let ?msg = "tx_sign_msg p (w_address w) (wt_to req) amount MIN_FEE ?nonce now_secs None"
  obtain sig where sig: "wallet_sign p w ?msg = Ok sig"
    using sign_verify_roundtrip [OF assms(1,3,4,5)] by blast
  let ?tx = "\<lparr>tx_id = i, tx_from = w_address w, tx_to = wt_to req, tx_amount = amount, tx_fee = MIN_FEE, tx_nonce = ?nonce, tx_data = None,
     tx_signature = sig, tx_public_key = w_verifying_key_hex w, tx_timestamp = now_secs\<rparr>"
  have to: "wt_to req \<noteq> []" using assms(11) by auto
  have amount: "amount \<noteq> 0" using assms(13) by (auto simp: aura_to_raw_def Let_def split: if_splits)
  have valid: "validate_basic p ?tx = Ok ()"
    unfolding assms(17) by (rule wallet_transfer_accepted [OF assms(1-5) sig to assms(12) amount]) simp_all
  have "unat (amount + MIN_FEE) = unat amount + unat MIN_FEE"
    using assms(14) unat_u64_bound [of "get_balance (ap_chain s) (w_address w)"] by (intro unat_add_no_wrap) simp
  then have "amount + MIN_FEE \<le> get_balance (ap_chain s) (w_address w)" using assms(14) by (simp add: word_le_nat_alt)
  with valid assms(15,18,19) have add: "add_pending p ?tx s = Ok (s\<lparr>ap_mempool := tree_insert i ?tx (ap_mempool s)\<rparr>)"
    using add_pending_valid [of p ?tx s] by simp
  have "submit_signed_transfer p now_secs w (wt_to req) (wt_amount_aura req) None None s =
      Ok ((i, amount, MIN_FEE), s\<lparr>ap_mempool := tree_insert i ?tx (ap_mempool s)\<rparr>)"
    using assms(11-13) by (simp add: submit_signed_transfer_def sig add assms(17) [symmetric])
  then have "\<exists>resp. wallet_transfer p now_secs remote hs req s = Ok (resp, s\<lparr>ap_mempool := tree_insert i ?tx (ap_mempool s)\<rparr>) \<and> wr_tx_id resp = i"
    using assms(6-10) by (simp add: wallet_transfer_def)
  moreover have "tree_get (evict_expired now_ms (tree_insert i ?tx (ap_mempool s))) i = None"
    by (rule evicted [of _ _ ?tx]) (use assms(16,20,21) in \<open>simp_all add: tree_simps tree_wf_insert MAX_AGE_MS_def\<close>)
  ultimately show ?thesis by (auto simp: tree_simps)
qed

text \<open>
  C26. Anyone can mint: the public route for submissions accepts an unsigned transaction that names \<open>GENESIS\<close> as its sender, for any amount,
  and the next block the node produces from it credits the recipient.
\<close>

theorem public_submission_mints:
  assumes "hex_codec p" "blake3_size p" "iteration_order order" "tx_from tx = ''GENESIS''"
    "tx_to tx \<notin> {w_address w, NODE_OPS_POOL_ADDRESS}" "ap_mempool s = []" "\<not> tx_exists (ap_chain s) (tx_id tx)"
    "produce_block p fmt w order now gen (ap_chain s) [(tx_id tx, tx)] = Ok b"
  shows "enforce_api_access env POST ''/api/v1/tx/submit'' remote hs \<and>
     (\<exists>s' c' m'. submit_tx p tx s = Ok (tx_id tx, s') \<and>
        block_producer_tick p fmt w order now gen (ap_chain s') (ap_mempool s') = Ok (c', m', Some b) \<and>
        get_balance c' (tx_to tx) = get_balance (ap_chain s) (tx_to tx) + tx_amount tx)"
proof -
  let ?c = "ap_chain s" and ?m = "[(tx_id tx, tx)]"
  have "add_pending p tx s = Ok (s\<lparr>ap_mempool := tree_insert (tx_id tx) tx (ap_mempool s)\<rparr>)"
    using assms(4,6,7) by (intro add_pending_valid) (simp_all add: validate_basic_def MAX_SIZE_def tree_simps)
  then have sub: "submit_tx p tx s = Ok (tx_id tx, s\<lparr>ap_mempool := ?m\<rparr>)" using assms(6) by (simp add: submit_tx_def)
  note f = produce_block_Ok [OF assms(8)]
  have "mset (order [tx]) = {#tx#}" using assms(3) by (simp add: iteration_order_def)
  then have "order [tx] = [tx]" by (simp only: mset_single_iff)
  then have sel: "take_for_block order (MAX_TXS_PER_BLOCK - 1) ?m = [tx]"
    by (simp add: take_for_block_def tree_values_def MAX_TXS_PER_BLOCK_def)
  let ?r = "reward_tx p fmt (w_address w) ?c now"
  have txs: "b_transactions b = [?r, tx]" using f(4) sel by simp
  have "res_fold (check_tx ?c) (b_transactions b) ([], []) = Ok ([], [])"
    using assms(4) by (simp add: txs check_tx_skip is_user_tx_def)
  then have "apply_block ?c b = Ok (commit_block b ?c)" using f(1,2) by (simp add: apply_block_def)
  then have "block_producer_tick p fmt w order now gen ?c ?m = Ok (commit_block b ?c, remove_confirmed (map tx_id (b_transactions b)) ?m, Some b)"
    using assms(8) by (simp add: block_producer_tick_def produced_hash_slice [OF assms(1,2) f(6)])
  moreover have "get_balance (commit_block b ?c) (tx_to tx) = get_balance ?c (tx_to tx) + tx_amount tx"
    using assms(4,5) by (simp add: commit_block_def txs apply_tx_def Let_def chain_simps)
  ultimately show ?thesis using sub by (simp add: enforce_api_access_def is_public_api_route_def)
qed

section \<open>Samples\<close>

definition local_remote :: socket_addr where "local_remote = SocketAddrV4 127 0 0 1 8080"

definition local_headers :: headers where "local_headers = [(''host'', ''localhost:8080'')]"

lemma local_request: "is_direct_local_request local_remote local_headers"
  by code_simp

lemma generated_wallet:
  assumes "hex_codec p" "sha256_size p"
  obtains w where "wallet_generate p sk = (Ok w :: (wallet, unit) res)"
  using assms by (simp add: wallet_generate_def Let_def derive_address_ok that)

theorem public_submission_mints_witness:
  "\<exists>s' c' m' b. submit_tx sample_primitives forged_mint
       \<lparr>ap_chain = empty_chain, ap_mempool = [], ap_node_wallet = None, ap_treasury_wallet = None,
        ap_treasury_address = []\<rparr> = Ok (tx_id forged_mint, s') \<and>
     block_producer_tick sample_primitives (\<lambda>_ _. []) sample_wallet (\<lambda>xs. xs) 5 (Ok sample_proof) (ap_chain s') (ap_mempool s') = Ok (c', m', Some b) \<and>
     get_balance c' ''ARLPhb'' = get_balance empty_chain ''ARLPhb'' + 1000"
proof -
  let ?s = "\<lparr>ap_chain = empty_chain, ap_mempool = [], ap_node_wallet = None, ap_treasury_wallet = None,
    ap_treasury_address = []\<rparr>"
  obtain b where b: "produce_block sample_primitives (\<lambda>_ _. []) sample_wallet (\<lambda>xs. xs) 5 (Ok sample_proof) (ap_chain ?s)
      [(tx_id forged_mint, forged_mint)] = Ok b"
    using sample_produced_Ok [of "ap_chain ?s"] by auto
  have "tx_from forged_mint = ''GENESIS''" "tx_to forged_mint \<notin> {w_address sample_wallet, NODE_OPS_POOL_ADDRESS}"
    by (simp_all add: forged_mint_def sample_tx_def sample_wallet_def NODE_OPS_POOL_ADDRESS_def)
  moreover have "\<not> tx_exists (ap_chain ?s) (tx_id forged_mint)"
    by (simp add: tx_exists_def empty_chain_def tree_simps)
  ultimately obtain s' c' m' where "submit_tx sample_primitives forged_mint ?s = Ok (tx_id forged_mint, s')"
    "block_producer_tick sample_primitives (\<lambda>_ _. []) sample_wallet (\<lambda>xs. xs) 5 (Ok sample_proof) (ap_chain s') (ap_mempool s') = Ok (c', m', Some b)"
    "get_balance c' (tx_to forged_mint) = get_balance (ap_chain ?s) (tx_to forged_mint) + tx_amount forged_mint"
    using public_submission_mints [OF sample_primitives_ok(1,4) iteration_order_id _ _ _ _ b, of None None "[]", THEN conjunct2] by auto
  moreover have "tx_to forged_mint = ''ARLPhb''" "tx_amount forged_mint = 1000" by (simp_all add: forged_mint_def sample_tx_def)
  ultimately show ?thesis by auto
qed

definition sample_transfer :: wallet_transfer_req where
  "sample_transfer = \<lparr>wt_from = None, wt_to = ''ARLPhb'', wt_amount_aura = raw_to_aura 5, wt_memo = None, wt_fee = None\<rparr>"

lemma node_transfer_pending_until_eviction_sample:
  "\<exists>w resp s' tx. wallet_transfer sample_primitives 1700000000 local_remote local_headers sample_transfer
       \<lparr>ap_chain = set_balance_raw (w_address w) 5000 empty_chain, ap_mempool = [], ap_node_wallet = Some w, ap_treasury_wallet = None,
        ap_treasury_address = []\<rparr> = Ok (resp, s') \<and>
     tree_get (ap_mempool s') (wr_tx_id resp) = Some tx \<and> tx_amount tx = 5 \<and>
     tree_get (evict_expired 1700000000000 (ap_mempool s')) (wr_tx_id resp) = None"
proof -
  obtain w where w: "wallet_generate sample_primitives (replicate 32 (CHR 0x00)) = (Ok w :: (wallet, unit) res)"
    by (rule generated_wallet [OF sample_primitives_ok(1,2)])
  let ?s = "\<lparr>ap_chain = set_balance_raw (w_address w) 5000 empty_chain, ap_mempool = [], ap_node_wallet = Some w, ap_treasury_wallet = None,
    ap_treasury_address = []\<rparr>"
  have "w_address w = ''ARLPh'' @ take 37 (hex_encode sample_primitives (sha256 sample_primitives (sha256 sample_primitives
      (ed25519_public sample_primitives (replicate 32 (CHR 0x00))))))"
    using wallet_generate_fields(3) [OF w] by (auto simp: derive_address_ok [OF sample_primitives_ok(1,2)])
  then have "length (w_address w) = 42"
    using sample_primitives_ok(1,2) by (simp only: length_append length_take) (simp add: hex_codec_def sha256_size_def)
  then have ne: "''ARLPhb'' \<noteq> w_address w" by (auto dest: arg_cong [where f = length])
  have amount: "aura_to_raw (wt_amount_aura sample_transfer) = Ok 5"
    using amount_round_trip [of 5] by (simp add: sample_transfer_def)
  have t: "trim ''ARLPhb'' \<noteq> []" by code_simp
  have funds: "unat (5 :: u64) + unat MIN_FEE \<le> unat (get_balance (ap_chain ?s) (w_address w))" by (simp add: chain_simps MIN_FEE_def)
  have fresh: "\<not> tx_exists (ap_chain ?s) i" for i by (simp add: tx_exists_def set_balance_raw_def empty_chain_def tree_simps)
  have req: "wt_from sample_transfer = None" "wt_memo sample_transfer = None" "wt_fee sample_transfer = None" "wt_to sample_transfer = ''ARLPhb''"
    by (simp_all add: sample_transfer_def)
  have "\<exists>resp s' tx. wallet_transfer sample_primitives 1700000000 local_remote local_headers sample_transfer ?s = Ok (resp, s') \<and>
     tree_get (ap_mempool s') (wr_tx_id resp) = Some tx \<and> tx_amount tx = 5 \<and>
     tree_get (evict_expired 1700000000000 (ap_mempool s')) (wr_tx_id resp) = None"
    using node_transfer_pending_until_eviction [OF sample_primitives_ok(1-3) _ w _ local_request req(1-3) _ _ amount funds _ _ refl _ fresh,
        of 1700000000 1700000000000] t ne
    by (auto simp: req(4) MAX_SIZE_def tree_simps tree_wf_def)
  then show ?thesis by blast
qed

definition binding_primitives :: primitives where
  "binding_primitives = sample_primitives\<lparr>blake3 := \<lambda>x. replicate 32 (if even (length x div 64) then CHR 0x00 else CHR 0x01)\<rparr>"

lemma binding_primitives_ok: "hex_codec binding_primitives" "sha256_size binding_primitives" "memo_binding binding_primitives"
proof -
  show "hex_codec binding_primitives" "sha256_size binding_primitives"
    using sample_primitives_ok(1,2) by (simp_all add: binding_primitives_def hex_codec_def sha256_size_def)
  have "length (hex_encode binding_primitives (blake3 binding_primitives memo)) = 64" for memo
    using sample_primitives_ok(1) by (simp add: binding_primitives_def hex_codec_def)
  then show "memo_binding binding_primitives"
    unfolding memo_binding_def by (simp add: binding_primitives_def div_add_self2)
qed


end
