(* ===== verification/ToolPolicy.thy ===== *)
theory ToolPolicy
  imports Access Block
begin

text \<open>
  The runtime policy of \<^verbatim>\<open>src/src/agents/tool_executor.rs\<close>: which directories tools may run in, the virtual environment they
  run under, and how both are read from the environment at start-up. The operating system is the record \<open>host\<close>: its answers during
  one call are a snapshot, with the text of each error. Paths are those of a Unix host.
\<close>

section \<open>Paths\<close>

text \<open>\<open>Path::components\<close>: the root, then the parts between separators, without empty parts and without \<open>.\<close> except in front.\<close>

definition path_components :: "string \<Rightarrow> string list" where
  "path_components s =
     (let parts = filter (\<lambda>c. c \<noteq> []) (split_on (CHR ''/'') s); inner = filter (\<lambda>c. c \<noteq> ''.'')
      in if starts_with s ''/'' then ''/'' # inner parts
         else case parts of [] \<Rightarrow> [] | c # cs \<Rightarrow> c # inner cs)"

definition path_starts_with :: "string \<Rightarrow> string \<Rightarrow> bool" where
  "path_starts_with p base = (take (length (path_components base)) (path_components p) = path_components base)"

definition path_join :: "string \<Rightarrow> string \<Rightarrow> string" where
  "path_join base p =
     (if starts_with p ''/'' then p else if base = [] \<or> ends_with base ''/'' then base @ p else base @ ''/'' @ p)"

text \<open>\<open>split_paths\<close> and \<open>join_paths\<close> of the environment's search path; a part that contains the separator cannot be joined.\<close>

definition join_paths :: "string list \<Rightarrow> string option" where
  "join_paths ps = (if list_ex (\<lambda>p. CHR '':'' \<in> set p) ps then None else Some (str_join '':'' ps))"

section \<open>The policy\<close>

record process =
  pr_program :: string
  pr_args :: "string list"
  pr_dir :: "string option"
  pr_env :: "(string \<times> string) list"
  pr_limit_ms :: u64

datatype process_end =
    Not_spawned string
  | Not_awaited string
  | Timed_out
  | Exited "int option" bytes bytes

record http_request =
  hr_method :: string
  hr_url :: string
  hr_headers :: "(string \<times> string) list"
  hr_body :: "string option"
  hr_limit_ms :: u64

datatype http_end =
    No_client string
  | Not_sent string
  | No_body u16 string
  | Answered u16 string

record host =
  env_var :: "string \<Rightarrow> string option"
  current_dir :: "string option"
  temp_dir :: string
  path_exists :: "string \<Rightarrow> bool"
  canonicalize :: "string \<Rightarrow> (string, string) res"
  read_file :: "string \<Rightarrow> (bytes, string) res"
  open_append :: "string \<Rightarrow> (unit, string) res"
  write_file :: "string \<Rightarrow> bytes \<Rightarrow> bool \<Rightarrow> (unit, string) res"
  run_process :: "process \<Rightarrow> process_end"
  send_http :: "http_request \<Rightarrow> http_end"
  now_ms :: int
  now_text :: string
  elapsed_ms :: u64

definition TOOL_POLICY_VENV_ONLY_ENV :: string where "TOOL_POLICY_VENV_ONLY_ENV = ''AROBI_TOOL_VENV_ONLY''"
definition TOOL_POLICY_VENV_PATH_ENV :: string where "TOOL_POLICY_VENV_PATH_ENV = ''AROBI_TOOL_VENV_PATH''"
definition TOOL_POLICY_ALLOWED_ROOTS_ENV :: string where "TOOL_POLICY_ALLOWED_ROOTS_ENV = ''AROBI_TOOL_ALLOWED_ROOTS''"

record tool_runtime_policy =
  venv_only :: bool
  venv_path :: "string option"
  allowed_roots :: "string list"

primrec res_ok :: "('a, 'e) res \<Rightarrow> 'a option" where
  "res_ok (Ok a) = Some a"
| "res_ok (Err e) = None"
| "res_ok Panic = None"

definition read_env_bool :: "host \<Rightarrow> string \<Rightarrow> bool \<Rightarrow> bool" where
  "read_env_bool h name default_value =
     (case env_var h name of
        Some v \<Rightarrow> to_ascii_lowercase (trim v) \<in> set [''1'', ''true'', ''yes'', ''on'']
      | None \<Rightarrow> default_value)"

definition normalize_existing_path :: "host \<Rightarrow> string \<Rightarrow> string option" where
  "normalize_existing_path h path = (if \<not> path_exists h path then None else res_ok (canonicalize h path))"

definition path_key :: "string \<Rightarrow> string" where
  "path_key path = str_replace [CHR 0x5C] ''/'' path"

definition push_unique_path :: "string list \<Rightarrow> string \<Rightarrow> string list" where
  "push_unique_path paths candidate =
     (if list_ex (\<lambda>existing. path_key existing = path_key candidate) paths then paths else paths @ [candidate])"

definition parse_allowed_roots_from_env :: "host \<Rightarrow> string list" where
  "parse_allowed_roots_from_env h =
     (case env_var h TOOL_POLICY_ALLOWED_ROOTS_ENV of
        None \<Rightarrow> []
      | Some raw \<Rightarrow>
          fold (\<lambda>entry roots. case normalize_existing_path h entry of None \<Rightarrow> roots | Some path \<Rightarrow> push_unique_path roots path)
            (filter (\<lambda>e. e \<noteq> []) (map trim (concat (map (split_on (CHR '','')) (split_on (CHR '';'') raw))))) [])"

definition detect_venv_root :: "host \<Rightarrow> string option" where
  "detect_venv_root h =
     (case Option.bind (env_var h ''VIRTUAL_ENV'') (normalize_existing_path h) of
        Some path \<Rightarrow> Some path
      | None \<Rightarrow>
          (case current_dir h of
             None \<Rightarrow> None
           | Some cwd \<Rightarrow>
               (case normalize_existing_path h (path_join cwd ''.venv'') of
                  Some path \<Rightarrow> Some path
                | None \<Rightarrow> normalize_existing_path h (path_join cwd ''venv''))))"

definition load_runtime_policy :: "host \<Rightarrow> tool_runtime_policy \<times> string list \<times> string option" where
  "load_runtime_policy h =
     (let venv = read_env_bool h TOOL_POLICY_VENV_ONLY_ENV True;
          roots = parse_allowed_roots_from_env h;
          roots = (case Option.bind (current_dir h) (normalize_existing_path h) of
                     None \<Rightarrow> roots | Some normalized \<Rightarrow> push_unique_path roots normalized);
          configured = Option.bind (env_var h TOOL_POLICY_VENV_PATH_ENV) (normalize_existing_path h);
          venv_root = (case configured of None \<Rightarrow> detect_venv_root h | Some v \<Rightarrow> Some v)
      in (\<lparr>venv_only = venv, venv_path = venv_root, allowed_roots = roots\<rparr>, roots, venv_root))"

section \<open>The agent\<close>

record tool_result =
  tr_task_id :: string
  tr_tool_name :: string
  tr_success :: bool
  tr_result :: json
  tr_execution_time_ms :: u64
  tr_error :: "string option"

text \<open>\<open>db\<close> holds the sled trees by name.\<close>

record tool_agent =
  db :: "(string, (string, json) tree) tree"
  running_tasks :: "(string, tool_result) tree"
  runtime_policy :: tool_runtime_policy
  allowed_root_paths :: "string list"
  venv_root_path :: "string option"

definition tool_agent_new :: "host \<Rightarrow> (string, (string, json) tree) tree \<Rightarrow> tool_agent" where
  "tool_agent_new h trees =
     (let (policy, roots, venv) = load_runtime_policy h
      in \<lparr>db = trees, running_tasks = [], runtime_policy = policy, allowed_root_paths = roots, venv_root_path = venv\<rparr>)"

definition json_option :: "('a \<Rightarrow> json) \<Rightarrow> 'a option \<Rightarrow> json" where
  "json_option f v = (case v of None \<Rightarrow> JNull | Some a \<Rightarrow> f a)"

definition runtime_policy_snapshot :: "tool_agent \<Rightarrow> json" where
  "runtime_policy_snapshot a =
     json_object
       [(''venv_only'', JBool (venv_only (runtime_policy a))),
        (''venv_path'', json_option JString (venv_path (runtime_policy a))),
        (''allowed_roots'', JArray (map JString (allowed_roots (runtime_policy a)))),
        (''controls'', json_object
           [(''venv_env'', JString TOOL_POLICY_VENV_PATH_ENV),
            (''venv_only_env'', JString TOOL_POLICY_VENV_ONLY_ENV),
            (''allowed_roots_env'', JString TOOL_POLICY_ALLOWED_ROOTS_ENV)])]"

definition quoted :: "string \<Rightarrow> string" where
  "quoted s = [CHR 0x27] @ s @ [CHR 0x27]"

definition resolve_working_dir :: "tool_agent \<Rightarrow> host \<Rightarrow> string option \<Rightarrow> (string, string) res" where
  "resolve_working_dir a h requested =
     res_bind
       (case (case requested of Some raw \<Rightarrow> if trim raw \<noteq> [] then Some raw else None | None \<Rightarrow> None) of
          Some raw \<Rightarrow> Ok raw
        | None \<Rightarrow>
            (case allowed_root_paths a of
               root # roots \<Rightarrow> Ok root
             | [] \<Rightarrow> (case current_dir h of Some cwd \<Rightarrow> Ok cwd | None \<Rightarrow> Err ''Unable to determine working directory'')))
       (\<lambda>base. res_bind (res_map_err (\<lambda>e. ''Invalid working_dir '' @ quoted base @ '': '' @ e) (canonicalize h base))
         (\<lambda>canonical.
            if allowed_root_paths a \<noteq> [] \<and> \<not> list_ex (path_starts_with canonical) (allowed_root_paths a)
            then Err (''working_dir '' @ quoted canonical @ '' is outside allowed roots'')
            else Ok canonical))"

definition venv_required :: string where
  "venv_required = ''Virtual environment is required by policy. Configure '' @ TOOL_POLICY_VENV_PATH_ENV @ ''.''"

definition resolve_venv_bin_dir :: "tool_agent \<Rightarrow> host \<Rightarrow> (string, string) res" where
  "resolve_venv_bin_dir a h =
     (case venv_root_path a of
        None \<Rightarrow> Err venv_required
      | Some venv_root \<Rightarrow>
          let bin_dir = path_join venv_root ''bin''
          in if \<not> path_exists h bin_dir then Err (''Virtual environment bin directory not found: '' @ bin_dir) else Ok bin_dir)"

definition resolve_venv_python :: "tool_agent \<Rightarrow> host \<Rightarrow> (string, string) res" where
  "resolve_venv_python a h =
     res_bind (resolve_venv_bin_dir a h) (\<lambda>bin_dir.
       (case find (path_exists h) [path_join bin_dir ''python'', path_join bin_dir ''python3''] of
          Some candidate \<Rightarrow> Ok candidate
        | None \<Rightarrow> Err (''Python interpreter not found in virtual environment: '' @ bin_dir)))"

definition python_program :: "tool_agent \<Rightarrow> host \<Rightarrow> (string, string) res" where
  "python_program a h = (if venv_only (runtime_policy a) then resolve_venv_python a h else Ok ''python'')"

text \<open>The variables set on a command.\<close>

definition apply_runtime_env :: "tool_agent \<Rightarrow> host \<Rightarrow> ((string \<times> string) list, string) res" where
  "apply_runtime_env a h =
     (if \<not> venv_only (runtime_policy a) then Ok []
      else case venv_root_path a of
             None \<Rightarrow> Err venv_required
           | Some venv_root \<Rightarrow>
               res_bind (resolve_venv_bin_dir a h) (\<lambda>bin_dir.
                 let existing_path = (case env_var h ''PATH'' of None \<Rightarrow> [] | Some p \<Rightarrow> p)
                 in Ok ((''VIRTUAL_ENV'', venv_root) #
                        (case join_paths (bin_dir # split_on (CHR '':'') existing_path) of
                           None \<Rightarrow> [] | Some joined \<Rightarrow> [(''PATH'', joined)]))))"

section \<open>What the policy guarantees\<close>

text \<open>A directory that the policy lets a process run in.\<close>

definition dir_allowed :: "tool_agent \<Rightarrow> string \<Rightarrow> bool" where
  "dir_allowed a dir \<longleftrightarrow>
     list_ex (\<lambda>root. path_starts_with dir root) (allowed_root_paths a) \<or> allowed_root_paths a = []"

lemma resolve_working_dir_allowed:
  "resolve_working_dir a h requested = Ok dir \<Longrightarrow> dir_allowed a dir \<and> (\<exists>base. canonicalize h base = Ok dir)"
  by (auto simp: resolve_working_dir_def res_simps dir_allowed_def split: if_splits)

lemma join_paths_head: "join_paths (p # ps) = Some s \<Longrightarrow> ps \<noteq> [] \<Longrightarrow> starts_with s (p @ '':'')"
  by (cases ps) (auto simp: join_paths_def starts_with_iff split: if_splits)

lemma split_on_neq_Nil [simp]: "split_on d s \<noteq> []"
  by (cases s) (auto split: list.split)

lemma apply_runtime_env_venv:
  assumes "apply_runtime_env a h = Ok env" "venv_only (runtime_policy a)"
  obtains root where "venv_root_path a = Some root" "path_exists h (path_join root ''bin'')"
    "map_of env ''VIRTUAL_ENV'' = Some root"
    "\<And>p. map_of env ''PATH'' = Some p \<Longrightarrow> starts_with p (path_join root ''bin'' @ '':'')"
  using assms
  by (auto simp: apply_runtime_env_def resolve_venv_bin_dir_def res_simps Let_def join_paths_head
      split: option.splits if_splits)

lemma res_ok_eq_Some: "res_ok r = Some a \<longleftrightarrow> r = Ok a"
  by (cases r) auto

end
