(* ===== verification/Csv.thy ===== *)
theory Csv
  imports Block
begin

text \<open>
  The CSV text that the tool executor of \<^verbatim>\<open>src/src/agents/tool_executor.rs\<close> writes: the escaping of a field, a line, and a
  reader of quoted fields that gives the table back.
\<close>

definition escape_csv :: "string \<Rightarrow> string" where
  "escape_csv s =
     (if CHR '','' \<in> set s \<or> CHR 0x22 \<in> set s \<or> CHR 0x0A \<in> set s
      then [CHR 0x22] @ str_replace [CHR 0x22] [CHR 0x22, CHR 0x22] s @ [CHR 0x22]
      else s)"

definition csv_line :: "string list \<Rightarrow> string" where
  "csv_line cells = str_join '','' (map escape_csv cells) @ [CHR 0x0A]"

section \<open>Reading a table back\<close>

text \<open>
  The reference reader: a field is plain or quoted, inside quotes a doubled quote stands for one, and a line feed outside quotes
  ends the record.
\<close>

datatype csv_mode = Starting | Plain | Quoted | Closing

fun csv_read :: "csv_mode \<Rightarrow> string \<Rightarrow> string list \<Rightarrow> string \<Rightarrow> string list list option" where
  "csv_read m f r [] = (if m = Starting \<and> r = [] then Some [] else None)"
| "csv_read m f r (c # s) =
     (if m = Quoted then
        (if c = CHR 0x22 then csv_read Closing f r s else csv_read Quoted (f @ [c]) r s)
      else if c = CHR '','' then csv_read Starting [] (r @ [f]) s
      else if c = CHR 0x0A then map_option ((#) (r @ [f])) (csv_read Starting [] [] s)
      else if m = Closing then (if c = CHR 0x22 then csv_read Quoted (f @ [c]) r s else None)
      else if m = Starting \<and> c = CHR 0x22 then csv_read Quoted [] r s
      else csv_read Plain (f @ [c]) r s)"

definition csv_table :: "string \<Rightarrow> string list list option" where
  "csv_table s = csv_read Starting [] [] s"

lemma str_replace_char:
  "str_replace [c] rep s = concat (map (\<lambda>x. if x = c then rep else [x]) s)"
proof (induction s)
  case (Cons x s)
  then show ?case by (simp add: str_replace.simps [of "[c]" rep "x # s"] starts_with_def)
qed (simp add: str_replace.simps)

lemma read_quoted:
  "csv_read Quoted f r (concat (map (\<lambda>x. if x = CHR 0x22 then [CHR 0x22, CHR 0x22] else [x]) s) @ CHR 0x22 # t) =
     csv_read Closing (f @ s) r t"
  by (induction s arbitrary: f) simp_all

lemma read_plain:
  "CHR '','' \<notin> set s \<Longrightarrow> CHR 0x0A \<notin> set s \<Longrightarrow> csv_read Plain f r (s @ t) = csv_read Plain (f @ s) r t"
  by (induction s arbitrary: f) auto

text \<open>After a written field, the reader holds that field at the separator or the end of the line.\<close>

lemma read_escaped:
  assumes "d = CHR '','' \<or> d = CHR 0x0A"
  shows "csv_read Starting [] r (escape_csv s @ d # t) = csv_read Plain s r (d # t)"
proof (cases "CHR '','' \<in> set s \<or> CHR 0x22 \<in> set s \<or> CHR 0x0A \<in> set s")
  case True
  then have "csv_read Starting [] r (escape_csv s @ d # t) = csv_read Closing s r (d # t)"
    using read_quoted [of "[]" r s "d # t"] by (simp add: escape_csv_def str_replace_char)
  also have "\<dots> = csv_read Plain s r (d # t)" using assms by auto
  finally show ?thesis .
next
  case False
  show ?thesis
  proof (cases s)
    case Nil
    then show ?thesis using assms by (auto simp: escape_csv_def)
  next
    case (Cons c u)
    with False have "csv_read Starting [] r (escape_csv s @ d # t) = csv_read Plain [c] r (u @ d # t)"
      by (auto simp: escape_csv_def)
    also have "\<dots> = csv_read Plain s r (d # t)" using False Cons read_plain [of u "[c]" r "d # t"] by simp
    finally show ?thesis .
  qed
qed

lemma read_line:
  "cells \<noteq> [] \<Longrightarrow>
     csv_read Starting [] r (csv_line cells @ t) = map_option ((#) (r @ cells)) (csv_read Starting [] [] t)"
proof (induction cells arbitrary: r)
  case (Cons c cs)
  show ?case
  proof (cases cs)
    case Nil
    then show ?thesis using read_escaped [of "CHR 0x0A" r c t] by (simp add: csv_line_def)
  next
    case (Cons d ds)
    then have "csv_line (c # cs) @ t = escape_csv c @ CHR '','' # (csv_line cs @ t)" by (simp add: csv_line_def)
    then have "csv_read Starting [] r (csv_line (c # cs) @ t) = csv_read Starting [] (r @ [c]) (csv_line cs @ t)"
      using read_escaped [of "CHR '',''" r c] by simp
    also have "\<dots> = map_option ((#) (r @ c # cs)) (csv_read Starting [] [] t)"
      using Cons.IH [of "r @ [c]"] Cons by simp
    finally show ?thesis .
  qed
qed simp

lemma read_table: "list_all (\<lambda>r. r \<noteq> []) rows \<Longrightarrow> csv_table (concat (map csv_line rows)) = Some rows"
  by (induction rows) (simp_all add: csv_table_def read_line)

end
