(* ===== verification/ToolExecutor.thy ===== *)
theory ToolExecutor
  imports ToolPolicy Csv
begin

text \<open>
  The tools of \<^verbatim>\<open>src/src/agents/tool_executor.rs\<close>: shell, files, web, PDF, CSV, code and the knowledge base of an agent, the
  dispatcher \<open>execute\<close>, and the handlers of \<^verbatim>\<open>src/src/api.rs\<close> that call them. A tool returns its result and the effects it asks the
  host for, in order: processes, file writes and removals, HTTP requests. Unicode case mapping, the JSON printer and parser and the
  URL encoding are parameters, in the record \<open>texts\<close>. Failures of the knowledge trees on disk are not modelled.
\<close>

record texts =
  to_lowercase :: "string \<Rightarrow> string"
  to_uppercase :: "string \<Rightarrow> string"
  json_text :: "json \<Rightarrow> string"
  json_parse :: "string \<Rightarrow> json option"
  url_encode :: "string \<Rightarrow> string"

datatype effect =
    Spawned process
  | Wrote string bytes bool
  | Removed string
  | Requested http_request

type_synonym ('a, 'e) tool = "('a, 'e) res \<times> effect list"

definition tool_bind :: "('a, 'e) tool \<Rightarrow> ('a \<Rightarrow> ('b, 'e) tool) \<Rightarrow> ('b, 'e) tool" where
  "tool_bind t f =
     (case fst t of
        Ok a \<Rightarrow> (fst (f a), snd t @ snd (f a))
      | Err e \<Rightarrow> (Err e, snd t)
      | Panic \<Rightarrow> (Panic, snd t))"

definition pure :: "('a, 'e) res \<Rightarrow> ('a, 'e) tool" where
  "pure r = (r, [])"

definition SHELL_DENY_LIST :: "string list" where
  "SHELL_DENY_LIST =
     [''rm -rf /'', ''rm -rf /*'', ''mkfs'', ''dd if='', ''format'', '':(){'', ''fork'', ''shutdown'', ''reboot'', ''halt'', ''passwd'',
      ''chmod 777'', ''net user'', ''reg delete'']"

definition MAX_OUTPUT_SIZE :: nat where "MAX_OUTPUT_SIZE = 1048576"
definition MAX_SHELL_TIMEOUT_MS :: u64 where "MAX_SHELL_TIMEOUT_MS = 30000"

fun as_u64 :: "json \<Rightarrow> u64 option" where
  "as_u64 (JPosInt n) = Some n"
| "as_u64 v = None"

fun as_array :: "json \<Rightarrow> json list option" where
  "as_array (JArray vs) = Some vs"
| "as_array v = None"

definition get_u64 :: "string \<Rightarrow> json \<Rightarrow> u64 option" where
  "get_u64 k v = Option.bind (json_get k v) as_u64"

definition get_array :: "string \<Rightarrow> json \<Rightarrow> json list option" where
  "get_array k v = Option.bind (json_get k v) as_array"

definition or_else :: "'a option \<Rightarrow> 'a \<Rightarrow> 'a" where
  "or_else v d = (case v of None \<Rightarrow> d | Some a \<Rightarrow> a)"

definition ok_or :: "'a option \<Rightarrow> 'e \<Rightarrow> ('a, 'e) tool" where
  "ok_or v e = pure (case v of None \<Rightarrow> Err e | Some a \<Rightarrow> Ok a)"

definition json_int :: "int \<Rightarrow> json" where
  "json_int i = (if 0 \<le> i then JPosInt (of_int i) else JNegInt (of_int i))"

definition json_len :: "'a list \<Rightarrow> json" where
  "json_len xs = JPosInt (of_nat (length xs))"

definition slice_max :: "string \<Rightarrow> (string, 'e) res" where
  "slice_max s = str_slice_to s (min (length s) MAX_OUTPUT_SIZE)"

section \<open>Shell and code\<close>

definition exec_shell :: "tool_agent \<Rightarrow> texts \<Rightarrow> host \<Rightarrow> json \<Rightarrow> u64 \<Rightarrow> (json, string) tool" where
  "exec_shell a tx h params timeout_ms =
     tool_bind (ok_or (get_str ''command'' params) ''command parameter required'') (\<lambda>command.
     let timeout = min timeout_ms MAX_SHELL_TIMEOUT_MS in
     tool_bind (pure (resolve_working_dir a h (get_str ''working_dir'' params))) (\<lambda>exec_dir.
     case find (str_contains (to_lowercase tx command)) SHELL_DENY_LIST of
       Some denied \<Rightarrow> pure (Err (''Command denied by security policy: contains '' @ quoted denied))
     | None \<Rightarrow>
         tool_bind (pure (apply_runtime_env a h)) (\<lambda>env.
         let c = \<lparr>pr_program = ''sh'', pr_args = [''-c'', command], pr_dir = Some exec_dir, pr_env = env, pr_limit_ms = timeout\<rparr> in
         (case run_process h c of
            Not_spawned e \<Rightarrow> Err (''Failed to spawn process: '' @ e)
          | Timed_out \<Rightarrow> Err (''Command timed out after '' @ dec64 timeout @ ''ms'')
          | Not_awaited e \<Rightarrow> Err (''Command execution failed: '' @ e)
          | Exited code out err \<Rightarrow>
              Ok (json_object
                [(''exit_code'', json_option json_int code),
                 (''stdout'', JString (from_utf8_lossy (take (min (length out) MAX_OUTPUT_SIZE) out))),
                 (''stderr'', JString (from_utf8_lossy (take (min (length err) MAX_OUTPUT_SIZE) err))),
                 (''working_dir'', JString exec_dir),
                 (''venv_enforced'', JBool (venv_only (runtime_policy a)))]),
          [Spawned c]))))"

definition exec_code :: "tool_agent \<Rightarrow> host \<Rightarrow> json \<Rightarrow> u64 \<Rightarrow> (json, string) tool" where
  "exec_code a h params timeout_ms =
     tool_bind (ok_or (get_str ''language'' params) ''language parameter required'') (\<lambda>language.
     tool_bind (ok_or (get_str ''code'' params) ''code parameter required'') (\<lambda>code.
     let timeout = min timeout_ms MAX_SHELL_TIMEOUT_MS in
     tool_bind (pure (resolve_working_dir a h (get_str ''working_dir'' params))) (\<lambda>exec_dir.
     tool_bind (pure (if language = ''python'' then res_bind (python_program a h) (\<lambda>prog. Ok (prog, ''py''))
                      else if language = ''javascript'' \<or> language = ''node'' then Ok (''node'', ''js'')
                      else Err (''Unsupported language: '' @ language))) (\<lambda>(program, ext).
     let temp_file = path_join (temp_dir h) (''arobi_exec_'' @ dec_int (now_ms h) @ ''.'' @ ext) in
     tool_bind (res_map_err (\<lambda>e. ''Failed to write temp file: '' @ e) (write_file h temp_file code False),
                [Wrote temp_file code False]) (\<lambda>_.
     tool_bind (pure (apply_runtime_env a h)) (\<lambda>env.
     let c = \<lparr>pr_program = program, pr_args = [temp_file], pr_dir = Some exec_dir, pr_env = env, pr_limit_ms = timeout\<rparr> in
     (case run_process h c of
        Exited status out err \<Rightarrow>
          Ok (json_object
            [(''language'', JString language),
             (''exit_code'', json_option json_int status),
             (''stdout'', JString (from_utf8_lossy (take (min (length out) MAX_OUTPUT_SIZE) out))),
             (''stderr'', JString (from_utf8_lossy (take (min (length err) MAX_OUTPUT_SIZE) err))),
             (''working_dir'', JString exec_dir),
             (''venv_enforced'', JBool (venv_only (runtime_policy a)))])
      | Not_spawned e \<Rightarrow> Err (''Code execution failed: '' @ e)
      | Not_awaited e \<Rightarrow> Err (''Code execution failed: '' @ e)
      | Timed_out \<Rightarrow> Err (''Code execution timed out after '' @ dec64 timeout @ ''ms''),
      [Spawned c, Removed temp_file])))))))"

section \<open>Files and documents\<close>

definition exec_file_read :: "host \<Rightarrow> json \<Rightarrow> (json, string) tool" where
  "exec_file_read h params =
     tool_bind (ok_or (get_str ''path'' params) ''path parameter required'') (\<lambda>path.
     let max_bytes = unat (or_else (get_u64 ''max_bytes'' params) (of_nat MAX_OUTPUT_SIZE)) in
     tool_bind (pure (res_map_err (\<lambda>e. ''Failed to read file: '' @ e) (read_file h path))) (\<lambda>data.
     pure (Ok (json_object
       [(''path'', JString path),
        (''size'', json_len data),
        (''content'', JString (from_utf8_lossy (take (min (length data) max_bytes) data))),
        (''truncated'', JBool (max_bytes < length data))]))))"

definition exec_file_write :: "host \<Rightarrow> json \<Rightarrow> (json, string) tool" where
  "exec_file_write h params =
     tool_bind (ok_or (get_str ''path'' params) ''path parameter required'') (\<lambda>path.
     tool_bind (ok_or (get_str ''content'' params) ''content parameter required'') (\<lambda>content.
     let append = or_else (get_bool ''append'' params) False in
     tool_bind
       (if append
        then tool_bind (pure (res_map_err (\<lambda>e. ''Failed to open file: '' @ e) (open_append h path))) (\<lambda>_.
               (res_map_err (\<lambda>e. ''Failed to write file: '' @ e) (write_file h path content True), [Wrote path content True]))
        else (res_map_err (\<lambda>e. ''Failed to write file: '' @ e) (write_file h path content False), [Wrote path content False])) (\<lambda>_.
     pure (Ok (json_object
       [(''path'', JString path), (''bytes_written'', json_len content), (''append'', JBool append)])))))"

definition exec_pdf_extract :: "host \<Rightarrow> json \<Rightarrow> (json, string) tool" where
  "exec_pdf_extract h params =
     tool_bind (ok_or (get_str ''path'' params) ''path parameter required'') (\<lambda>path.
     let c = \<lparr>pr_program = ''pdftotext'', pr_args = [path, ''-''], pr_dir = None, pr_env = [], pr_limit_ms = 30000\<rparr> in
     (case run_process h c of
        Exited code out err \<Rightarrow>
          res_bind (slice_max (from_utf8_lossy out)) (\<lambda>text.
            Ok (json_object [(''path'', JString path), (''text'', JString text), (''bytes'', json_len out)]))
      | Not_spawned e \<Rightarrow> Err (''PDF extraction failed: '' @ e)
      | Not_awaited e \<Rightarrow> Err (''PDF extraction failed: '' @ e)
      | Timed_out \<Rightarrow> Err ''PDF extraction timed out'',
      [Spawned c]))"

definition csv_cell :: "texts \<Rightarrow> json \<Rightarrow> string" where
  "csv_cell tx v = (case v of JString s \<Rightarrow> s | _ \<Rightarrow> json_text tx v)"

definition exec_csv_write :: "texts \<Rightarrow> host \<Rightarrow> json \<Rightarrow> (json, string) tool" where
  "exec_csv_write tx h params =
     tool_bind (ok_or (get_str ''path'' params) ''path parameter required'') (\<lambda>path.
     tool_bind (ok_or (get_array ''headers'' params) ''headers parameter required'') (\<lambda>headers.
     tool_bind (ok_or (get_array ''rows'' params) ''rows parameter required'') (\<lambda>rows.
     let csv_content = csv_line (List.map_filter as_str headers) @
           concat (map (\<lambda>row. case as_array row of None \<Rightarrow> [] | Some cells \<Rightarrow> csv_line (map (csv_cell tx) cells)) rows) in
     tool_bind (res_map_err (\<lambda>e. ''Failed to write CSV: '' @ e) (write_file h path csv_content False), [Wrote path csv_content False])
       (\<lambda>_. pure (Ok (json_object
         [(''path'', JString path), (''rows_written'', json_len rows), (''columns'', json_len headers),
          (''bytes'', json_len csv_content)]))))))"

section \<open>The web\<close>

definition html_text :: "string \<Rightarrow> string" where
  "html_text body =
     str_join '' '' (split_whitespace
       (str_join '' '' (List.map_filter (\<lambda>s. map_option snd (split_once (CHR ''>'') s)) (split_on (CHR ''<'') body))))"

definition fetched_content :: "texts \<Rightarrow> string \<Rightarrow> string \<Rightarrow> (json, 'e) res" where
  "fetched_content tx extract body =
     (if extract = ''json'' then Ok (or_else (json_parse tx body) (JString body))
      else if extract = ''html_text'' then res_bind (slice_max (html_text body)) (\<lambda>t. Ok (JString t))
      else res_bind (slice_max body) (\<lambda>t. Ok (JString t)))"

definition exec_web_fetch :: "texts \<Rightarrow> host \<Rightarrow> json \<Rightarrow> u64 \<Rightarrow> (json, string) tool" where
  "exec_web_fetch tx h params timeout_ms =
     tool_bind (ok_or (get_str ''url'' params) ''url parameter required'') (\<lambda>url.
     let meth = or_else (get_str ''method'' params) ''GET''; extract = or_else (get_str ''extract'' params) ''text'';
         limit = min timeout_ms 30000;
         req = (if to_uppercase tx meth = ''POST''
                then \<lparr>hr_method = ''POST'', hr_url = url, hr_headers = [(''Content-Type'', ''application/json'')],
                      hr_body = Some (or_else (get_str ''body'' params) []), hr_limit_ms = limit\<rparr>
                else \<lparr>hr_method = ''GET'', hr_url = url, hr_headers = [], hr_body = None, hr_limit_ms = limit\<rparr>) in
     (case send_http h req of
        No_client e \<Rightarrow> pure (Err (''Failed to create HTTP client: '' @ e))
      | Not_sent e \<Rightarrow> (Err (''HTTP request failed: '' @ e), [Requested req])
      | No_body status e \<Rightarrow> (Err (''Failed to read response body: '' @ e), [Requested req])
      | Answered status body \<Rightarrow>
          (res_bind (fetched_content tx extract body) (\<lambda>content.
             Ok (json_object [(''url'', JString url), (''status'', JPosInt (ucast status)), (''content'', content)])),
           [Requested req])))"

definition related_topic :: "json \<Rightarrow> json option" where
  "related_topic item =
     (case (get_str ''Text'' item, get_str ''FirstURL'' item) of
        (Some text, Some url) \<Rightarrow> Some (json_object [(''text'', JString text), (''url'', JString url)])
      | _ \<Rightarrow> None)"

definition exec_web_search :: "texts \<Rightarrow> host \<Rightarrow> json \<Rightarrow> (json, string) tool" where
  "exec_web_search tx h params =
     tool_bind (ok_or (get_str ''query'' params) ''query parameter required'') (\<lambda>query.
     let url = ''https://api.duckduckgo.com/?q='' @ url_encode tx query @ ''&format=json&no_html=1&skip_disambig=1'';
         req = \<lparr>hr_method = ''GET'', hr_url = url, hr_headers = [(''User-Agent'', ''ArobiNetwork/1.0'')], hr_body = None,
                hr_limit_ms = 10000\<rparr> in
     (case send_http h req of
        No_client e \<Rightarrow> pure (Err (''HTTP client error: '' @ e))
      | Not_sent e \<Rightarrow> (Err (''Search request failed: '' @ e), [Requested req])
      | No_body status e \<Rightarrow> (Err (''Failed to read search response: '' @ e), [Requested req])
      | Answered status body \<Rightarrow>
          let answer = or_else (json_parse tx body) (json_object [(''AbstractText'', JString []), (''RelatedTopics'', JArray [])]);
              text = (\<lambda>k. JString (or_else (get_str k answer) []));
              related = (case get_array ''RelatedTopics'' answer of None \<Rightarrow> [] | Some arr \<Rightarrow> List.map_filter related_topic (take 5 arr)) in
          (Ok (json_object
             [(''query'', JString query), (''abstract'', text ''AbstractText''), (''source'', text ''AbstractSource''),
              (''url'', text ''AbstractURL''), (''related'', JArray related)]),
           [Requested req])))"

section \<open>The knowledge base\<close>

definition kb_tree :: "tool_agent \<Rightarrow> string \<Rightarrow> (string, json) tree" where
  "kb_tree a wallet = or_else (tree_get (db a) (''agent_kb_'' @ wallet)) []"

definition kb_entry :: "string \<Rightarrow> string \<Rightarrow> json \<Rightarrow> string \<Rightarrow> json" where
  "kb_entry key content meta stored_at =
     json_object [(''key'', JString key), (''content'', JString content), (''metadata'', meta), (''stored_at'', JString stored_at)]"

text \<open>The log line after the insertion slices the wallet at its twelfth byte.\<close>

definition knowledge_store :: "host \<Rightarrow> string \<Rightarrow> string \<Rightarrow> string \<Rightarrow> json \<Rightarrow> tool_agent \<Rightarrow> (tool_agent, 'e) res" where
  "knowledge_store h wallet key content meta a =
     (let t = tree_insert key (kb_entry key content meta (now_text h)) (kb_tree a wallet);
          a' = a\<lparr>db := tree_insert (''agent_kb_'' @ wallet) t (db a)\<rparr>
      in res_bind (str_slice_to wallet (min 12 (length wallet))) (\<lambda>_. Ok a'))"

definition mentions :: "texts \<Rightarrow> string \<Rightarrow> json \<Rightarrow> bool" where
  "mentions tx query v =
     (let has = (\<lambda>k. str_contains (to_lowercase tx (or_else (get_str k v) [])) (to_lowercase tx query))
      in has ''content'' \<or> has ''key'')"

definition knowledge_query :: "texts \<Rightarrow> tool_agent \<Rightarrow> string \<Rightarrow> string \<Rightarrow> json list" where
  "knowledge_query tx a wallet query =
     (let t = kb_tree a wallet;
          results = push_until 20 (\<lambda>v. True) (map snd (filter (\<lambda>e. starts_with (fst e) query) t)) []
      in if results = [] then push_until 20 (mentions tx query) (tree_values t) [] else results)"

section \<open>Dispatch\<close>

definition dispatch :: "texts \<Rightarrow> host \<Rightarrow> string \<Rightarrow> json \<Rightarrow> string \<Rightarrow> u64 \<Rightarrow> tool_agent \<Rightarrow> (json \<times> tool_agent, string) tool" where
  "dispatch tx h tool_name parameters agent_wallet timeout_ms a =
     (let stateless = (\<lambda>t. tool_bind t (\<lambda>v. pure (Ok (v, a))))
      in if tool_name = ''shell_execute'' then stateless (exec_shell a tx h parameters timeout_ms)
         else if tool_name = ''file_read'' then stateless (exec_file_read h parameters)
         else if tool_name = ''file_write'' then stateless (exec_file_write h parameters)
         else if tool_name = ''web_fetch'' then stateless (exec_web_fetch tx h parameters timeout_ms)
         else if tool_name = ''web_search'' then stateless (exec_web_search tx h parameters)
         else if tool_name = ''pdf_extract'' then stateless (exec_pdf_extract h parameters)
         else if tool_name = ''csv_write'' then stateless (exec_csv_write tx h parameters)
         else if tool_name = ''code_execute'' then stateless (exec_code a h parameters timeout_ms)
         else if tool_name = ''knowledge_store'' then
           (let key = or_else (get_str ''key'' parameters) []
            in pure (res_bind (knowledge_store h agent_wallet key (or_else (get_str ''content'' parameters) [])
                                 (or_else (json_get ''metadata'' parameters) JNull) a)
                  (\<lambda>a'. Ok (json_object [(''stored'', JBool True), (''key'', JString key)], a'))))
         else if tool_name = ''knowledge_query'' then
           pure (Ok (json_object [(''results'', JArray (knowledge_query tx a agent_wallet (or_else (get_str ''query'' parameters) [])))], a))
         else pure (Err (''Unknown tool: '' @ tool_name)))"

definition finish_task :: "host \<Rightarrow> string \<Rightarrow> string \<Rightarrow> bool \<Rightarrow> json \<Rightarrow> string option \<Rightarrow> tool_agent \<Rightarrow> json \<times> tool_agent" where
  "finish_task h task_id tool_name success v error a =
     (json_object
        [(''task_id'', JString task_id), (''success'', JBool success), (''result'', v),
         (''execution_time_ms'', JPosInt (elapsed_ms h)), (''error'', json_option JString error)],
      a\<lparr>running_tasks := tree_insert task_id
          \<lparr>tr_task_id = task_id, tr_tool_name = tool_name, tr_success = success, tr_result = v,
           tr_execution_time_ms = elapsed_ms h, tr_error = error\<rparr> (running_tasks a)\<rparr>)"

definition execute :: "primitives \<Rightarrow> texts \<Rightarrow> host \<Rightarrow> string \<Rightarrow> json \<Rightarrow> string \<Rightarrow> u64 \<Rightarrow> tool_agent \<Rightarrow> (json \<times> tool_agent, 'e) tool" where
  "execute p tx h tool_name parameters agent_wallet timeout_ms a =
     tool_bind (pure (str_slice_to (hex_encode p (blake3 p (tool_name @ '':'' @ agent_wallet @ '':'' @ dec_int (now_ms h)))) 16))
     (\<lambda>task_hash.
     let task_id = ''task_'' @ task_hash;
         result = dispatch tx h tool_name parameters agent_wallet timeout_ms a
     in (case fst result of
           Ok (v, a') \<Rightarrow> Ok (finish_task h task_id tool_name True v None a')
         | Err e \<Rightarrow> Ok (finish_task h task_id tool_name False JNull (Some e) a)
         | Panic \<Rightarrow> Panic,
         snd result))"

end
