(* ===== verification/Machine.thy ===== *)
theory Machine
  imports Prelude
begin

text \<open>
  What runs of a component's steps keep, stated once for the components that are driven by a sequence of events: a read loop
  over messages, an agent over its calls, a limiter over requests.
\<close>

section \<open>Invariants with a budget of steps\<close>

text \<open>
  A step may use up part of a bounded resource (a block height, a ledger position); the invariant is indexed by what has
  been used, and is kept by the allowed events.
\<close>

locale weighted_machine =
  fixes step :: "'e \<Rightarrow> 's \<Rightarrow> ('s, 'x) res"
    and allowed :: "'e \<Rightarrow> bool"
    and weight :: "'e \<Rightarrow> nat"
    and limit :: nat
    and inv :: "nat \<Rightarrow> 's \<Rightarrow> bool"
  assumes step_inv: "inv n s \<Longrightarrow> allowed e \<Longrightarrow> step e s = Ok s' \<Longrightarrow> n + weight e < limit \<Longrightarrow> inv (n + weight e) s'"
begin

lemma run_inv:
  "inv n s \<Longrightarrow> list_all allowed es \<Longrightarrow> res_fold step es s = Ok s' \<Longrightarrow> n + sum_list (map weight es) < limit \<Longrightarrow>
     inv (n + sum_list (map weight es)) s'"
proof (induction es arbitrary: n s)
  case (Cons e es)
  from Cons.prems(3) obtain t where t: "step e s = Ok t" "res_fold step es t = Ok s'" by (auto simp: res_simps)
  have "inv (n + weight e) t" using step_inv [OF Cons.prems(1) _ t(1)] Cons.prems(2,4) by simp
  from Cons.IH [OF this _ t(2)] Cons.prems(2,4) show ?case by (simp add: add.assoc)
qed simp

end

text \<open>The unbounded case.\<close>

locale machine =
  fixes step :: "'e \<Rightarrow> 's \<Rightarrow> ('s, 'x) res"
    and inv :: "'s \<Rightarrow> bool"
  assumes step_inv: "inv s \<Longrightarrow> step e s = Ok s' \<Longrightarrow> inv s'"

sublocale machine \<subseteq> counted: weighted_machine step "\<lambda>e. True" "\<lambda>e. 0" 1 "\<lambda>n. inv"
  by unfold_locales (rule step_inv)

context machine begin

lemma run_keeps: "inv s \<Longrightarrow> res_fold step es s = Ok s' \<Longrightarrow> inv s'"
  using counted.run_inv [of s es s'] by (simp add: list_all_iff)

end

section \<open>Potentials\<close>

text \<open>A step yields something and pays for it from a potential.\<close>

locale potential =
  fixes step :: "'e \<Rightarrow> 's \<Rightarrow> nat \<times> 's"
    and allowed :: "'e \<Rightarrow> bool"
    and inv :: "'s \<Rightarrow> bool"
    and pot :: "'s \<Rightarrow> nat"
  assumes step_inv: "inv s \<Longrightarrow> allowed e \<Longrightarrow> inv (snd (step e s))"
    and step_pays: "inv s \<Longrightarrow> allowed e \<Longrightarrow> fst (step e s) + pot (snd (step e s)) \<le> pot s"
begin

fun yield :: "'e list \<Rightarrow> 's \<Rightarrow> nat" where
  "yield [] s = 0"
| "yield (e # es) s = fst (step e s) + yield es (snd (step e s))"

lemma yield_bounded: "inv s \<Longrightarrow> list_all allowed es \<Longrightarrow> yield es s \<le> pot s"
proof (induction es arbitrary: s)
  case (Cons e es)
  then have "yield es (snd (step e s)) \<le> pot (snd (step e s))" by (simp add: step_inv)
  with step_pays [of s e] Cons.prems show ?case by simp
qed simp

end

end
