(* ===== verification/OpenClaw.thy ===== *)
theory OpenClaw
  imports ToolExecutor Machine
begin

text \<open>
  Binding employees to master wallets, and the stored vault limits, of \<^verbatim>\<open>src/src/api.rs\<close>: one binding per normalised employee id,
  which later requests update field by field. Upper-casing a name is the parameter of \<open>texts\<close>; the clock and the random identifier of a
  new binding are arguments.
\<close>

definition normalize_employee_id :: "string \<Rightarrow> string" where
  "normalize_employee_id raw = to_ascii_lowercase (trim raw)"

definition derive_openclaw_employee_wallet :: "primitives \<Rightarrow> string \<Rightarrow> string \<Rightarrow> (string, 'e) res" where
  "derive_openclaw_employee_wallet p master_wallet employee_id =
     derive_address p (sha256 p (''openclaw:'' @ master_wallet @ '':'' @ normalize_employee_id employee_id))"

record open_claw_binding_input =
  oi_master_wallet :: string
  oi_employee_id :: string
  oi_employee_wallet :: "string option"
  oi_employee_name :: "string option"
  oi_role :: "string option"
  oi_division :: "string option"
  oi_status :: "string option"
  oi_source :: "string option"
  oi_tags :: "string list option"
  oi_capability_profile :: "json option"
  oi_metadata :: "json option"
  oi_force :: bool

definition default_openclaw_capability_profile :: json where
  "default_openclaw_capability_profile =
     json_object
       [(''ability'', json_object
           [(''model_id'', JString ''Ability''), (''provider'', JString ''arobiLLM''), (''inference_route'', JString ''/api/v1/llm/inference'')]),
        (''instinct'', json_object
           [(''enabled'', JBool True), (''bridge'', JString ''arobi-network''), (''heartbeat_route'', JString ''/api/v1/autonomo/heartbeat'')]),
        (''runtime'', json_object [(''vm_required'', JBool True), (''terminal_required'', JBool True)])]"

text \<open>The trimmed text of a request, else the text of the stored binding, else a default.\<close>

definition non_empty :: "string option \<Rightarrow> string option" where
  "non_empty v = (case v of None \<Rightarrow> None | Some t \<Rightarrow> if trim t = [] then None else Some (trim t))"

definition stored_str :: "json option \<Rightarrow> string \<Rightarrow> string option" where
  "stored_str existing k = Option.bind existing (get_str k)"

definition updated_str :: "string option \<Rightarrow> json option \<Rightarrow> string \<Rightarrow> string \<Rightarrow> string" where
  "updated_str incoming existing k d = or_else (case non_empty incoming of None \<Rightarrow> stored_str existing k | Some t \<Rightarrow> Some t) d"

definition string_list :: "json \<Rightarrow> string list option" where
  "string_list v =
     (case as_array v of
        None \<Rightarrow> None
      | Some vs \<Rightarrow> if list_all (\<lambda>x. as_str x \<noteq> None) vs then Some (List.map_filter as_str vs) else None)"

definition upsert_openclaw_binding ::
    "primitives \<Rightarrow> texts \<Rightarrow> string \<Rightarrow> string \<Rightarrow> open_claw_binding_input \<Rightarrow> agent_store \<Rightarrow> (json \<times> agent_store, api_error) res" where
  "upsert_openclaw_binding p tx now uuid input s =
     (let master_wallet = trim (oi_master_wallet input); employee_id = normalize_employee_id (oi_employee_id input) in
      if master_wallet = [] then Err Bad_request
      else if employee_id = [] then Err Bad_request
      else
        let existing = get_openclaw_binding employee_id s;
            existing_master = or_else (stored_str existing ''master_wallet'') [] in
        if existing \<noteq> None \<and> existing_master \<noteq> [] \<and> existing_master \<noteq> master_wallet \<and> \<not> oi_force input then Err Conflict
        else res_bind
          (case (case non_empty (oi_employee_wallet input) of None \<Rightarrow> stored_str existing ''employee_wallet'' | Some w \<Rightarrow> Some w) of
             Some w \<Rightarrow> Ok w
           | None \<Rightarrow> derive_openclaw_employee_wallet p master_wallet employee_id) (\<lambda>employee_wallet.
        let bound_at = or_else (stored_str existing ''bound_at'') now;
            binding_id = or_else (stored_str existing ''binding_id'') (''ocb_'' @ uuid);
            tags = or_else (case oi_tags input of
                      None \<Rightarrow> Option.bind (Option.bind existing (json_get ''tags'')) string_list | Some t \<Rightarrow> Some t) [];
            capability_profile = or_else (case oi_capability_profile input of
                      None \<Rightarrow> Option.bind existing (json_get ''capability_profile'') | Some c \<Rightarrow> Some c) default_openclaw_capability_profile;
            meta = or_else (case oi_metadata input of
                      None \<Rightarrow> Option.bind existing (json_get ''metadata'') | Some m \<Rightarrow> Some m) (JObject []);
            instinct_enabled = or_else (Option.bind (json_get ''instinct'' capability_profile) (get_bool ''enabled'')) True;
            ability_model = or_else (Option.bind (json_get ''ability'' capability_profile) (get_str ''model_id'')) ''Ability'';
            binding = json_object
              [(''binding_id'', JString binding_id), (''master_wallet'', JString master_wallet), (''employee_id'', JString employee_id),
               (''employee_wallet'', JString employee_wallet),
               (''employee_name'', JString (updated_str (oi_employee_name input) existing ''employee_name'' (to_uppercase tx employee_id))),
               (''role'', JString (updated_str (oi_role input) existing ''role'' ''Unassigned'')),
               (''division'', JString (updated_str (oi_division input) existing ''division'' ''general'')),
               (''status'', JString (updated_str (oi_status input) existing ''status'' ''bound'')),
               (''binding_source'', JString (updated_str (oi_source input) existing ''binding_source'' ''openclaw_integration'')),
               (''tags'', JArray (map JString tags)), (''capability_profile'', capability_profile), (''metadata'', meta),
               (''instinct_enabled'', JBool instinct_enabled), (''ability_model'', JString ability_model),
               (''bound_at'', JString bound_at), (''updated_at'', JString now)]
        in Ok (binding, put_openclaw_binding (or_else (get_str ''employee_id'' binding) []) binding s)))"

definition autonomo_bind_openclaw_employee ::
    "primitives \<Rightarrow> texts \<Rightarrow> string \<Rightarrow> string \<Rightarrow> open_claw_binding_input \<Rightarrow> agent_store \<Rightarrow> (json \<times> agent_store, api_error) res" where
  "autonomo_bind_openclaw_employee p tx now uuid input s =
     res_bind (upsert_openclaw_binding p tx now uuid input s) (\<lambda>(binding, s').
       Ok (json_object [(''ok'', JBool True), (''binding'', binding)], s'))"

text \<open>
  The bulk request stores one binding after the other and stops at the first error: the store is part of the result in both cases.
  Each employee has its own clock reading and identifier, and
  takes the master wallet, source and force flag of the request.
\<close>

fun bind_employees ::
    "primitives \<Rightarrow> texts \<Rightarrow> (string \<times> string \<times> open_claw_binding_input) list \<Rightarrow> json list \<Rightarrow> agent_store \<Rightarrow> (json list, api_error) res \<times> agent_store" where
  "bind_employees p tx [] bindings s = (Ok bindings, s)"
| "bind_employees p tx ((now, uuid, input) # rest) bindings s =
     (case upsert_openclaw_binding p tx now uuid input s of
        Ok (binding, s') \<Rightarrow> bind_employees p tx rest (bindings @ [binding]) s'
      | Err e \<Rightarrow> (Err e, s)
      | Panic \<Rightarrow> (Panic, s))"

definition autonomo_bind_openclaw_bulk ::
    "primitives \<Rightarrow> texts \<Rightarrow> string \<Rightarrow> string option \<Rightarrow> bool option \<Rightarrow> (string \<times> string \<times> open_claw_binding_input) list \<Rightarrow> agent_store
       \<Rightarrow> (json, api_error) res \<times> agent_store" where
  "autonomo_bind_openclaw_bulk p tx master_wallet source force employees s =
     (if employees = [] then (Err Bad_request, s)
      else let inputs = map (\<lambda>(now, uuid, e). (now, uuid, e\<lparr>oi_master_wallet := master_wallet, oi_source := source, oi_force := or_else force False\<rparr>)) employees;
               (r, s') = bind_employees p tx inputs [] s
           in (res_bind r (\<lambda>bindings. Ok (json_object
                 [(''ok'', JBool True), (''count'', json_len bindings), (''bindings'', JArray bindings)])), s'))"

definition field_matches :: "string \<Rightarrow> string option \<Rightarrow> json \<Rightarrow> bool" where
  "field_matches k wanted item =
     (case non_empty wanted of
        None \<Rightarrow> True
      | Some w \<Rightarrow> (case get_str k item of None \<Rightarrow> False | Some v \<Rightarrow> eq_ignore_ascii_case v w))"

definition autonomo_list_openclaw_bindings :: "string option \<Rightarrow> string option \<Rightarrow> string option \<Rightarrow> agent_store \<Rightarrow> json" where
  "autonomo_list_openclaw_bindings master_wallet division status s =
     (let bindings = (case non_empty master_wallet of
                        Some m \<Rightarrow> list_openclaw_bindings_for_master m s
                      | None \<Rightarrow> list_openclaw_bindings s);
          bindings = sort_key (\<lambda>item. or_else (get_str ''employee_id'' item) [])
                       (filter (field_matches ''status'' status) (filter (field_matches ''division'' division) bindings))
      in json_object [(''count'', json_len bindings), (''bindings'', JArray bindings)])"

definition autonomo_get_openclaw_binding :: "string \<Rightarrow> agent_store \<Rightarrow> (json, api_error) res" where
  "autonomo_get_openclaw_binding employee_id s =
     (let normalized = normalize_employee_id employee_id
      in if normalized = [] then Err Bad_request
         else case get_openclaw_binding normalized s of Some binding \<Rightarrow> Ok binding | None \<Rightarrow> Err Not_found)"

section \<open>Vault limits\<close>

definition autonomo_get_vault_limits :: "string \<Rightarrow> agent_store \<Rightarrow> json" where
  "autonomo_get_vault_limits wallet s =
     (case get_vault_limits wallet s of
        Some limits \<Rightarrow> limits
      | None \<Rightarrow> json_object
          [(''wallet'', JString wallet), (''daily_limit'', JFloat 0x4049000000000000), (''single_tx_max'', JFloat 0x4024000000000000),
           (''approval_threshold'', JFloat 0x4039000000000000)])"

definition autonomo_set_vault_limits :: "string \<Rightarrow> string \<Rightarrow> f64 \<Rightarrow> f64 \<Rightarrow> f64 \<Rightarrow> agent_store \<Rightarrow> json \<times> agent_store" where
  "autonomo_set_vault_limits now wallet daily_limit single_tx_max approval_threshold s =
     (let data = json_object
            [(''wallet'', JString wallet), (''daily_limit'', JFloat daily_limit), (''single_tx_max'', JFloat single_tx_max),
             (''approval_threshold'', JFloat approval_threshold), (''updated_at'', JString now)]
      in (data, put_vault_limits wallet data s))"

section \<open>A binding keeps its master\<close>

text \<open>What a successful request stores, and under which key.\<close>

lemma upsert_OkE:
  assumes "upsert_openclaw_binding p tx now uuid input s = Ok (b, s')"
  obtains "s' = put_openclaw_binding (normalize_employee_id (oi_employee_id input)) b s"
    "get_str ''master_wallet'' b = Some (trim (oi_master_wallet input))"
    "get_str ''binding_id'' b = Some (or_else (stored_str (get_openclaw_binding (normalize_employee_id (oi_employee_id input)) s) ''binding_id'') (''ocb_'' @ uuid))"
    "get_str ''bound_at'' b = Some (or_else (stored_str (get_openclaw_binding (normalize_employee_id (oi_employee_id input)) s) ''bound_at'') now)"
    "get_openclaw_binding (normalize_employee_id (oi_employee_id input)) s = None \<or>
      or_else (stored_str (get_openclaw_binding (normalize_employee_id (oi_employee_id input)) s) ''master_wallet'') [] \<in> {[], trim (oi_master_wallet input)} \<or>
      oi_force input"
  using assms unfolding upsert_openclaw_binding_def Let_def
  by (auto simp: res_simps get_str_def or_else_def [of "Some x" for x] split: if_splits intro: that)

definition bound_as :: "string \<Rightarrow> string \<Rightarrow> string \<Rightarrow> string \<Rightarrow> agent_store \<Rightarrow> bool" where
  "bound_as e m i t s \<longleftrightarrow>
     m \<noteq> [] \<and> (\<exists>b. get_openclaw_binding e s = Some b \<and> get_str ''master_wallet'' b = Some m \<and> get_str ''binding_id'' b = Some i \<and>
        get_str ''bound_at'' b = Some t)"

type_synonym bind_request = "texts \<times> string \<times> string \<times> open_claw_binding_input"

definition bind_step :: "primitives \<Rightarrow> bind_request \<Rightarrow> agent_store \<Rightarrow> (agent_store, unit) res" where
  "bind_step p req s =
     (case req of (tx, now, uuid, input) \<Rightarrow>
        (case upsert_openclaw_binding p tx now uuid input s of Ok (b, s') \<Rightarrow> Ok s' | Err e \<Rightarrow> Ok s | Panic \<Rightarrow> Panic))"

lemma bind_step_keeps:
  assumes "bound_as e m i t s" "\<not> oi_force (snd (snd (snd req)))" "bind_step p req s = Ok s'"
  shows "bound_as e m i t s'"
proof -
  obtain tx now uuid input where req: "req = (tx, now, uuid, input)" by (cases req)
  show ?thesis
  proof (cases "upsert_openclaw_binding p tx now uuid input s")
    case (Ok r)
    obtain b s1 where r: "r = (b, s1)" by (cases r)
    have s': "s' = s1" using assms(3) Ok r req by (simp add: bind_step_def)
    show ?thesis
      using Ok [unfolded r]
    proof (rule upsert_OkE)
      assume u: "s1 = put_openclaw_binding (normalize_employee_id (oi_employee_id input)) b s"
        "get_str ''master_wallet'' b = Some (trim (oi_master_wallet input))"
        "get_str ''binding_id'' b = Some (or_else (stored_str (get_openclaw_binding (normalize_employee_id (oi_employee_id input)) s) ''binding_id'') (''ocb_'' @ uuid))"
        "get_str ''bound_at'' b = Some (or_else (stored_str (get_openclaw_binding (normalize_employee_id (oi_employee_id input)) s) ''bound_at'') now)"
        "get_openclaw_binding (normalize_employee_id (oi_employee_id input)) s = None \<or>
          or_else (stored_str (get_openclaw_binding (normalize_employee_id (oi_employee_id input)) s) ''master_wallet'') [] \<in> {[], trim (oi_master_wallet input)} \<or>
          oi_force input"
      show ?thesis
      proof (cases "normalize_employee_id (oi_employee_id input) = e")
        case True
        with u assms(1,2) req show ?thesis
          by (auto simp: bound_as_def s' put_openclaw_binding_def get_openclaw_binding_def tree_simps stored_str_def or_else_def)
      next
        case False
        with u(1) assms(1) show ?thesis
          by (simp add: bound_as_def s' put_openclaw_binding_def get_openclaw_binding_def tree_simps)
      qed
    qed
  qed (use assms(1,3) req in \<open>simp_all add: bind_step_def\<close>)
qed

interpretation binding: weighted_machine "bind_step p" "\<lambda>req. \<not> oi_force (snd (snd (snd req)))" "\<lambda>req. 0" 1 "\<lambda>n. bound_as e m i t" for p e m i t
  by unfold_locales (simp add: bind_step_keeps)

text \<open>
  Once an employee is bound to a master wallet, no sequence of bind requests without \<open>force\<close>, for this or other employees and whatever
  they succeed or fail with, moves it to another master or changes the binding's identifier and date.
\<close>

lemma binding_keeps_master:
  assumes "bound_as employee master binding_id bound_at s" "list_all (\<lambda>req. \<not> oi_force (snd (snd (snd req)))) reqs"
    "res_fold (bind_step p) reqs s = Ok s'"
  shows "bound_as employee master binding_id bound_at s'"
  using binding.run_inv [OF assms(1) assms(2) assms(3)] by simp

definition sample_bind :: open_claw_binding_input where
  "sample_bind =
     \<lparr>oi_master_wallet = ''m'', oi_employee_id = ''e'', oi_employee_wallet = Some ''w'', oi_employee_name = None, oi_role = None,
      oi_division = None, oi_status = None, oi_source = None, oi_tags = None, oi_capability_profile = None, oi_metadata = None, oi_force = False\<rparr>"

definition bound_store :: agent_store where
  "bound_store = put_openclaw_binding ''e''
     (json_object [(''master_wallet'', JString ''m''), (''binding_id'', JString ''ocb_1''), (''bound_at'', JString ''t0'')]) agent_store_empty"

lemma sample_bind_normal: "trim ''other'' = ''other''" "normalize_employee_id ''e'' = ''e''"
  by code_simp+

definition plain_texts :: texts where
  "plain_texts = \<lparr>to_lowercase = id, to_uppercase = id, json_text = (\<lambda>v. []), json_parse = (\<lambda>s. None), url_encode = id\<rparr>"

lemma binding_keeps_master_sample:
  "bound_as ''e'' ''m'' ''ocb_1'' ''t0'' bound_store \<and>
     res_fold (bind_step sample_primitives) [(plain_texts, ''t1'', ''u'', sample_bind\<lparr>oi_master_wallet := ''other''\<rparr>)] bound_store = Ok bound_store"
proof -
  have b: "bound_as ''e'' ''m'' ''ocb_1'' ''t0'' bound_store"
    by (simp add: bound_as_def bound_store_def get_openclaw_binding_def put_openclaw_binding_def tree_simps get_str_def)
  have "get_openclaw_binding ''e'' bound_store = Some (json_object [(''master_wallet'', JString ''m''), (''binding_id'', JString ''ocb_1''), (''bound_at'', JString ''t0'')])"
    by (simp add: bound_store_def get_openclaw_binding_def put_openclaw_binding_def tree_simps)
  then have "upsert_openclaw_binding sample_primitives plain_texts ''t1'' ''u'' (sample_bind\<lparr>oi_master_wallet := ''other''\<rparr>) bound_store = Err Conflict"
    by (simp add: upsert_openclaw_binding_def sample_bind_def sample_bind_normal stored_str_def get_str_def or_else_def)
  then have run: "res_fold (bind_step sample_primitives) [(plain_texts, ''t1'', ''u'', sample_bind\<lparr>oi_master_wallet := ''other''\<rparr>)] bound_store = Ok bound_store"
    by (simp add: bind_step_def)
  from binding_keeps_master [OF b _ run] run show ?thesis by (simp add: sample_bind_def)
qed

text \<open>A bulk request is not atomic: what was bound before the failing employee stays bound although the request is answered with an error.\<close>

lemma bind_employees_append:
  "bind_employees p tx reqs bs s = (Ok bs', s1) \<Longrightarrow> upsert_openclaw_binding p tx now uuid bad s1 = Err e \<Longrightarrow>
     bind_employees p tx (reqs @ [(now, uuid, bad)]) bs s = (Err e, s1)"
  by (induction p tx reqs bs s rule: bind_employees.induct) (auto split: res.splits)

end
