(* ===== verification/Scheduler.thy ===== *)
theory Scheduler
  imports RustStr
begin

text \<open>
  \<^verbatim>\<open>src/src/compute/types.rs\<close> and \<^verbatim>\<open>src/src/compute/scheduler.rs\<close>: compute jobs, the workers' bids, assignment, and
  verification of results by majority. Reputation scores are compared on their bits. The log lines slice
  identifiers, which panics inside a multi-byte character. The order in which the result counts are
  visited is the argument \<open>order\<close>.
\<close>

section \<open>Types\<close>

datatype compute_runtime = Wasm_runtime | NativeRust | Onnx | Candle | Custom string

record gpu_capability =
  g_model :: string
  g_vram_mb :: u64
  g_cuda_cores :: u32
  g_compute_capability :: string
  g_supports_f16 :: bool
  g_supports_int8 :: bool

record node_capability =
  nc_node_address :: string
  nc_cpu_cores :: u16
  nc_cpu_model :: string
  nc_ram_mb :: u64
  nc_gpu :: "gpu_capability option"
  nc_storage_available_mb :: u64
  nc_network_bandwidth_mbps :: u32
  nc_os :: string
  nc_supported_runtimes :: "compute_runtime list"
  nc_registered_at :: u64
  nc_last_heartbeat :: u64
  nc_reputation_score :: f64

datatype compute_task =
    Wasm string string "string option" u32
  | OnnxInference string string "string list"
  | LlmInference string string u32 u32 u32
  | Deterministic string bytes u64

record job_requirements =
  jr_min_cpu_cores :: u16
  jr_min_ram_mb :: u64
  jr_requires_gpu :: bool
  jr_min_gpu_vram_mb :: u64
  jr_min_reputation :: f64
  jr_redundancy :: u8

definition job_requirements_default :: job_requirements where
  "job_requirements_default = \<lparr>jr_min_cpu_cores = 1, jr_min_ram_mb = 256, jr_requires_gpu = False,
     jr_min_gpu_vram_mb = 0, jr_min_reputation = 0, jr_redundancy = 3\<rparr>"

record job_budget =
  jb_max_cost_aura :: u64
  jb_cost_per_cpu_sec :: u64
  jb_cost_per_gpu_sec :: u64

datatype job_status = Pending | Assigned | Running | Verifying | Completed | Failed string | Disputed

record worker_result =
  wr_worker :: string
  wr_output_file_id :: "string option"
  wr_output_data :: "bytes option"
  wr_execution_time_ms :: u64
  wr_cpu_time_ms :: u64
  wr_peak_memory_mb :: u64
  wr_result_hash :: string
  wr_submitted_at :: u64

record compute_job =
  cj_job_id :: string
  cj_submitter :: string
  cj_task :: compute_task
  cj_requirements :: job_requirements
  cj_budget :: job_budget
  cj_status :: job_status
  cj_created_at :: u64
  cj_deadline_ms :: u64
  cj_assigned_workers :: "string list"
  cj_results :: "worker_result list"

record worker_bid =
  wb_job_id :: string
  wb_worker :: string
  wb_bid_aura :: u64
  wb_estimated_time_ms :: u64
  wb_reputation_score :: f64
  wb_submitted_at :: u64

record marketplace_stats =
  ms_total_nodes :: u64
  ms_total_cpu_cores :: u64
  ms_total_gpu_nodes :: u64
  ms_total_ram_mb :: u64
  ms_active_jobs :: u64
  ms_completed_jobs :: u64
  ms_total_aura_spent :: u64

section \<open>The scheduler\<close>

record scheduler =
  sc_capabilities :: "(string, node_capability) tree"
  sc_jobs :: "(string, compute_job) tree"
  sc_bids :: "(string, worker_bid list) tree"
  sc_completed_count :: u64

datatype sched_error =
    Job_exists string | Job_not_found string | Job_not_pending string | Worker_not_registered string
  | Requirements_not_met | No_bids string | Too_few_bids u8 nat | Worker_not_assigned string string

definition scheduler_new :: scheduler where
  "scheduler_new = \<lparr>sc_capabilities = [], sc_jobs = [], sc_bids = [], sc_completed_count = 0\<rparr>"

text \<open>\<open>&s[..n.min(s.len())]\<close> in a log line: only whether it panics matters.\<close>

definition log_prefix :: "string \<Rightarrow> nat \<Rightarrow> (string, 'e) res" where
  "log_prefix s n = str_slice_to s (min n (length s))"

definition register_capability :: "node_capability \<Rightarrow> scheduler \<Rightarrow> (scheduler, sched_error) res" where
  "register_capability cap s =
     res_bind (log_prefix (nc_node_address cap) 12)
       (\<lambda>_. Ok (s\<lparr>sc_capabilities := tree_insert (nc_node_address cap) cap (sc_capabilities s)\<rparr>))"

definition list_capabilities :: "scheduler \<Rightarrow> node_capability list" where
  "list_capabilities s = tree_values (sc_capabilities s)"

definition get_capability :: "string \<Rightarrow> scheduler \<Rightarrow> node_capability option" where
  "get_capability address s = tree_get (sc_capabilities s) address"

definition node_count :: "scheduler \<Rightarrow> nat" where
  "node_count s = length (sc_capabilities s)"

definition submit_job :: "compute_job \<Rightarrow> scheduler \<Rightarrow> (scheduler, sched_error) res" where
  "submit_job job s =
     (if tree_get (sc_jobs s) (cj_job_id job) \<noteq> None then Err (Job_exists (cj_job_id job))
      else res_bind (log_prefix (cj_job_id job) 16)
             (\<lambda>_. Ok (s\<lparr>sc_jobs := tree_insert (cj_job_id job) job (sc_jobs s)\<rparr>)))"

definition get_job :: "string \<Rightarrow> scheduler \<Rightarrow> compute_job option" where
  "get_job i s = tree_get (sc_jobs s) i"

definition list_jobs :: "scheduler \<Rightarrow> compute_job list" where
  "list_jobs s = tree_values (sc_jobs s)"

definition meets_requirements :: "node_capability \<Rightarrow> job_requirements \<Rightarrow> bool" where
  "meets_requirements cap req =
     (if nc_cpu_cores cap < jr_min_cpu_cores req then False
      else if nc_ram_mb cap < jr_min_ram_mb req then False
      else if jr_requires_gpu req \<and> nc_gpu cap = None then False
      else if jr_requires_gpu req \<and> (case nc_gpu cap of Some g \<Rightarrow> g_vram_mb g < jr_min_gpu_vram_mb req | None \<Rightarrow> False) then False
      else if f64_lt (nc_reputation_score cap) (jr_min_reputation req) then False
      else True)"

definition submit_bid :: "worker_bid \<Rightarrow> scheduler \<Rightarrow> (scheduler, sched_error) res" where
  "submit_bid bid s =
     (case tree_get (sc_jobs s) (wb_job_id bid) of
        None \<Rightarrow> Err (Job_not_found (wb_job_id bid))
      | Some job \<Rightarrow>
          if cj_status job \<noteq> Pending then Err (Job_not_pending (wb_job_id bid))
          else (case tree_get (sc_capabilities s) (wb_worker bid) of
                  None \<Rightarrow> Err (Worker_not_registered (wb_worker bid))
                | Some cap \<Rightarrow>
                    if \<not> meets_requirements cap (cj_requirements job) then Err Requirements_not_met
                    else let old = (case tree_get (sc_bids s) (wb_job_id bid) of Some bs \<Rightarrow> bs | None \<Rightarrow> [])
                         in Ok (s\<lparr>sc_bids := tree_insert (wb_job_id bid) (old @ [bid]) (sc_bids s)\<rparr>)))"

definition eligible_bids :: "job_requirements \<Rightarrow> worker_bid list \<Rightarrow> worker_bid list" where
  "eligible_bids req bids =
     sort_key wb_bid_aura (filter (\<lambda>b. f64_ge (wb_reputation_score b) (jr_min_reputation req)) bids)"

definition assign_workers :: "string \<Rightarrow> scheduler \<Rightarrow> (string list \<times> scheduler, sched_error) res" where
  "assign_workers i s =
     (case tree_get (sc_jobs s) i of
        None \<Rightarrow> Err (Job_not_found i)
      | Some job \<Rightarrow>
          if cj_status job \<noteq> Pending then Err (Job_not_pending i)
          else (case tree_get (sc_bids s) i of
                  None \<Rightarrow> Err (No_bids i)
                | Some job_bids \<Rightarrow>
                    let redundancy = unat (jr_redundancy (cj_requirements job)) in
                    if length job_bids < redundancy then
                      Err (Too_few_bids (jr_redundancy (cj_requirements job)) (length job_bids))
                    else
                      let selected = map wb_worker (take redundancy (eligible_bids (cj_requirements job) job_bids));
                          job' = job\<lparr>cj_assigned_workers := selected, cj_status := Assigned\<rparr>
                      in res_bind (log_prefix i 16)
                           (\<lambda>_. Ok (selected, s\<lparr>sc_jobs := tree_insert i job' (sc_jobs s)\<rparr>))))"

definition count_hash :: "worker_result \<Rightarrow> (string, nat) tree \<Rightarrow> (string, nat) tree" where
  "count_hash r counts =
     (let n = (case tree_get counts (wr_result_hash r) of Some n \<Rightarrow> n | None \<Rightarrow> 0)
      in tree_insert (wr_result_hash r) (n + 1) counts)"

definition hash_counts :: "worker_result list \<Rightarrow> (string, nat) tree" where
  "hash_counts rs = fold count_hash rs []"

definition majority_threshold :: "u8 \<Rightarrow> nat" where
  "majority_threshold redundancy = (unat redundancy + 1) div 2"

text \<open>The job with its verdict, and by how much the completed count grows.\<close>

definition verify_results ::
    "((string \<times> nat) list \<Rightarrow> (string \<times> nat) list) \<Rightarrow> compute_job \<Rightarrow> (compute_job \<times> u64, sched_error) res" where
  "verify_results order job =
     (case find (\<lambda>(_, count). majority_threshold (jr_redundancy (cj_requirements job)) \<le> count)
             (order (hash_counts (cj_results job))) of
        Some (hash, _) \<Rightarrow>
          res_bind (log_prefix (cj_job_id job) 16) (\<lambda>_. res_bind (log_prefix hash 16)
            (\<lambda>_. Ok (job\<lparr>cj_status := Completed\<rparr>, 1)))
      | None \<Rightarrow> res_bind (log_prefix (cj_job_id job) 16) (\<lambda>_. Ok (job\<lparr>cj_status := Disputed\<rparr>, 0)))"

definition submit_result ::
    "((string \<times> nat) list \<Rightarrow> (string \<times> nat) list) \<Rightarrow> string \<Rightarrow> worker_result \<Rightarrow> scheduler \<Rightarrow> (scheduler, sched_error) res" where
  "submit_result order i result s =
     (case tree_get (sc_jobs s) i of
        None \<Rightarrow> Err (Job_not_found i)
      | Some job \<Rightarrow>
          if wr_worker result \<notin> set (cj_assigned_workers job) then Err (Worker_not_assigned (wr_worker result) i)
          else
            let job1 = job\<lparr>cj_results := cj_results job @ [result], cj_status := Verifying\<rparr> in
            res_bind (if unat (jr_redundancy (cj_requirements job)) \<le> length (cj_results job1)
                      then verify_results order job1 else Ok (job1, 0))
              (\<lambda>(job2, inc). Ok (s\<lparr>sc_jobs := tree_insert i job2 (sc_jobs s),
                                   sc_completed_count := sc_completed_count s + inc\<rparr>)))"

definition marketplace_stats :: "scheduler \<Rightarrow> marketplace_stats" where
  "marketplace_stats s =
     \<lparr>ms_total_nodes = of_nat (length (sc_capabilities s)),
      ms_total_cpu_cores = sum_list (map (\<lambda>c. ucast (nc_cpu_cores c)) (tree_values (sc_capabilities s))),
      ms_total_gpu_nodes = of_nat (length (filter (\<lambda>c. nc_gpu c \<noteq> None) (tree_values (sc_capabilities s)))),
      ms_total_ram_mb = sum_list (map nc_ram_mb (tree_values (sc_capabilities s))),
      ms_active_jobs = of_nat (length (filter (\<lambda>j. cj_status j \<in> {Running, Assigned}) (tree_values (sc_jobs s)))),
      ms_completed_jobs = sc_completed_count s,
      ms_total_aura_spent = 0\<rparr>"

section \<open>Facts\<close>

lemma hash_counts_get:
  "tree_get (hash_counts rs) h =
     (let n = length (filter (\<lambda>r. wr_result_hash r = h) rs) in if n = 0 then None else Some n)"
proof -
  have "tree_get (fold count_hash rs t) h =
     (let n = length (filter (\<lambda>r. wr_result_hash r = h) rs) in
      if n = 0 then tree_get t h else Some (n + (case tree_get t h of Some m \<Rightarrow> m | None \<Rightarrow> 0)))" for t
    by (induction rs arbitrary: t)
       (auto simp: count_hash_def Let_def tree_simps split: option.split)
  then show ?thesis by (simp add: hash_counts_def tree_simps Let_def)
qed

lemma tree_wf_hash_counts: "tree_wf (hash_counts rs)"
proof -
  have "tree_wf t \<Longrightarrow> tree_wf (fold count_hash rs t)" for t
    by (induction rs arbitrary: t) (auto simp: count_hash_def Let_def)
  then show ?thesis by (simp add: hash_counts_def)
qed

definition agreeing :: "worker_result list \<Rightarrow> string \<Rightarrow> nat" where
  "agreeing rs h = length (filter (\<lambda>r. wr_result_hash r = h) rs)"

text \<open>Whatever the order of the counts, the verdict depends only on whether some hash has a majority.\<close>

lemma verify_results_status:
  assumes "iteration_order order" "verify_results order job = Ok (job', inc)"
  shows "(\<exists>h. 0 < agreeing (cj_results job) h \<and> majority_threshold (jr_redundancy (cj_requirements job)) \<le> agreeing (cj_results job) h
       \<and> job' = job\<lparr>cj_status := Completed\<rparr> \<and> inc = 1) \<or>
    (\<forall>h. 0 < agreeing (cj_results job) h \<longrightarrow> agreeing (cj_results job) h < majority_threshold (jr_redundancy (cj_requirements job)))
       \<and> job' = job\<lparr>cj_status := Disputed\<rparr> \<and> inc = 0"
proof -
  let ?k = "majority_threshold (jr_redundancy (cj_requirements job))"
  have mem: "(h, n) \<in> set (hash_counts (cj_results job)) \<longleftrightarrow> n = agreeing (cj_results job) h \<and> 0 < n" for h n
    by (auto simp flip: tree_get_Some_iff [OF tree_wf_hash_counts]
        simp: hash_counts_get Let_def agreeing_def split: if_splits)
  show ?thesis
  proof (cases "find (\<lambda>(_, count). ?k \<le> count) (order (hash_counts (cj_results job)))")
    case None
    have "agreeing (cj_results job) h < ?k" if "0 < agreeing (cj_results job) h" for h
    proof -
      have "(h, agreeing (cj_results job) h) \<in> set (order (hash_counts (cj_results job)))"
        using that by (simp add: iteration_order_set [OF assms(1)] mem)
      then show ?thesis using None unfolding find_None_iff by force
    qed
    moreover have "job' = job\<lparr>cj_status := Disputed\<rparr> \<and> inc = 0"
      using assms(2) None by (auto simp: verify_results_def res_simps)
    ultimately show ?thesis by blast
  next
    case (Some e)
    obtain h n where e: "e = (h, n)" by fastforce
    have "(h, n) \<in> set (hash_counts (cj_results job))" "?k \<le> n"
      using find_in_set [OF Some] e by (auto simp: iteration_order_set [OF assms(1)])
    then have "n = agreeing (cj_results job) h" "0 < n" "?k \<le> n" unfolding mem by auto
    moreover have "job' = job\<lparr>cj_status := Completed\<rparr> \<and> inc = 1"
      using assms(2) Some by (auto simp: verify_results_def res_simps e)
    ultimately show ?thesis by blast
  qed
qed

section \<open>Runs\<close>

definition fresh_job :: "compute_job \<Rightarrow> bool" where
  "fresh_job j \<longleftrightarrow> cj_status j = Pending \<and> cj_assigned_workers j = [] \<and> cj_results j = []"

inductive sched_reach :: "((string \<times> nat) list \<Rightarrow> (string \<times> nat) list) \<Rightarrow> scheduler \<Rightarrow> bool" for order where
  s_new: "sched_reach order scheduler_new"
| s_register: "sched_reach order s \<Longrightarrow> register_capability cap s = Ok s' \<Longrightarrow> sched_reach order s'"
| s_submit: "sched_reach order s \<Longrightarrow> fresh_job j \<Longrightarrow> submit_job j s = Ok s' \<Longrightarrow> sched_reach order s'"
| s_bid: "sched_reach order s \<Longrightarrow> submit_bid b s = Ok s' \<Longrightarrow> sched_reach order s'"
| s_assign: "sched_reach order s \<Longrightarrow> assign_workers i s = Ok (ws, s') \<Longrightarrow> sched_reach order s'"
| s_result: "sched_reach order s \<Longrightarrow> submit_result order i r s = Ok s' \<Longrightarrow> sched_reach order s'"

definition majority_reached :: "compute_job \<Rightarrow> bool" where
  "majority_reached j \<longleftrightarrow> (\<exists>r \<in> set (cj_results j).
     majority_threshold (jr_redundancy (cj_requirements j)) \<le> agreeing (cj_results j) (wr_result_hash r))"

definition job_ok :: "string set \<Rightarrow> string \<Rightarrow> compute_job \<Rightarrow> bool" where
  "job_ok nodes i j \<longleftrightarrow> cj_job_id j = i \<and>
     length (cj_assigned_workers j) \<le> unat (jr_redundancy (cj_requirements j)) \<and>
     set (cj_assigned_workers j) \<subseteq> nodes \<and>
     wr_worker ` set (cj_results j) \<subseteq> set (cj_assigned_workers j) \<and>
     (cj_status j = Pending \<longrightarrow> cj_results j = []) \<and>
     (cj_status j = Completed \<longrightarrow> majority_reached j)"

definition sched_inv :: "scheduler \<Rightarrow> bool" where
  "sched_inv s \<longleftrightarrow>
     (\<forall>i j. tree_get (sc_jobs s) i = Some j \<longrightarrow> job_ok (tree_keys (sc_capabilities s)) i j) \<and>
     (\<forall>i bs. tree_get (sc_bids s) i = Some bs \<longrightarrow> wb_worker ` set bs \<subseteq> tree_keys (sc_capabilities s))"

lemma job_ok_mono: "job_ok a i j \<Longrightarrow> a \<subseteq> b \<Longrightarrow> job_ok b i j"
  by (auto simp: job_ok_def)

lemma majority_of_agreeing:
  assumes "0 < agreeing (cj_results j) h" "majority_threshold (jr_redundancy (cj_requirements j)) \<le> agreeing (cj_results j) h"
  shows "majority_reached j"
proof -
  have "filter (\<lambda>r. wr_result_hash r = h) (cj_results j) \<noteq> []" using assms(1) by (auto simp: agreeing_def)
  then obtain r where "r \<in> set (cj_results j)" "wr_result_hash r = h" by (auto simp: filter_empty_conv)
  with assms(2) show ?thesis by (auto simp: majority_reached_def)
qed

lemma sched_inv_jobD:
  "sched_inv s \<Longrightarrow> tree_get (sc_jobs s) i = Some j \<Longrightarrow> job_ok (tree_keys (sc_capabilities s)) i j"
  by (simp add: sched_inv_def)

lemma sched_inv_bidD:
  "sched_inv s \<Longrightarrow> tree_get (sc_bids s) i = Some bs \<Longrightarrow> wb_worker ` set bs \<subseteq> tree_keys (sc_capabilities s)"
  by (simp add: sched_inv_def)

lemma sched_inv_set_job:
  "sched_inv s \<Longrightarrow> job_ok (tree_keys (sc_capabilities s)) i j \<Longrightarrow>
   sched_inv (s\<lparr>sc_jobs := tree_insert i j (sc_jobs s), sc_completed_count := n\<rparr>)"
  by (simp add: sched_inv_def tree_simps)

lemma sched_inv_set_bids:
  "sched_inv s \<Longrightarrow> wb_worker ` set bs \<subseteq> tree_keys (sc_capabilities s) \<Longrightarrow>
   sched_inv (s\<lparr>sc_bids := tree_insert i bs (sc_bids s)\<rparr>)"
  by (simp add: sched_inv_def tree_simps)

lemma set_job_only: "s\<lparr>sc_jobs := x\<rparr> = s\<lparr>sc_jobs := x, sc_completed_count := sc_completed_count s\<rparr>"
  by simp

lemma sched_inv_register:
  assumes "sched_inv s" "register_capability cap s = Ok s'"
  shows "sched_inv s'"
proof -
  have s': "s' = s\<lparr>sc_capabilities := tree_insert (nc_node_address cap) cap (sc_capabilities s)\<rparr>"
    using assms(2) by (auto simp: register_capability_def res_simps)
  show ?thesis
    using assms(1) job_ok_mono [OF _ subset_insertI] unfolding sched_inv_def s'
    by (simp add: tree_simps) blast
qed

lemma sched_inv_submit:
  assumes "sched_inv s" "fresh_job j" "submit_job j s = Ok s'"
  shows "sched_inv s'"
proof -
  have "s' = s\<lparr>sc_jobs := tree_insert (cj_job_id j) j (sc_jobs s)\<rparr>"
    using assms(3) by (auto simp: submit_job_def res_simps split: if_splits)
  moreover have "job_ok (tree_keys (sc_capabilities s)) (cj_job_id j) j"
    using assms(2) by (simp add: fresh_job_def job_ok_def)
  ultimately show ?thesis using sched_inv_set_job [OF assms(1)] by (metis set_job_only)
qed

lemma sched_inv_bid:
  assumes "sched_inv s" "submit_bid b s = Ok s'"
  shows "sched_inv s'"
proof -
  let ?old = "case tree_get (sc_bids s) (wb_job_id b) of Some bs \<Rightarrow> bs | None \<Rightarrow> []"
  obtain cap where "tree_get (sc_capabilities s) (wb_worker b) = Some cap"
    and s': "s' = s\<lparr>sc_bids := tree_insert (wb_job_id b) (?old @ [b]) (sc_bids s)\<rparr>"
    using assms(2) by (auto simp: submit_bid_def Let_def split: option.splits if_splits)
  then have "wb_worker b \<in> tree_keys (sc_capabilities s)" by (metis option.distinct(1) tree_get_None_iff)
  moreover have "wb_worker ` set ?old \<subseteq> tree_keys (sc_capabilities s)"
    using sched_inv_bidD [OF assms(1), of "wb_job_id b"] by (cases "tree_get (sc_bids s) (wb_job_id b)") auto
  ultimately show ?thesis unfolding s' by (intro sched_inv_set_bids [OF assms(1)]) simp
qed

lemma set_eligible: "set (eligible_bids req bs) \<subseteq> set bs"
  by (auto simp: eligible_bids_def)

lemma assign_workers_Ok:
  assumes "assign_workers i s = Ok (ws, s')"
  obtains job bs where "tree_get (sc_jobs s) i = Some job" "cj_status job = Pending" "tree_get (sc_bids s) i = Some bs"
    "unat (jr_redundancy (cj_requirements job)) \<le> length bs"
    "ws = map wb_worker (take (unat (jr_redundancy (cj_requirements job))) (eligible_bids (cj_requirements job) bs))"
    "s' = s\<lparr>sc_jobs := tree_insert i (job\<lparr>cj_assigned_workers := ws, cj_status := Assigned\<rparr>) (sc_jobs s)\<rparr>"
  using assms by (auto simp: assign_workers_def Let_def res_simps not_less split: option.splits if_splits)

lemma sched_inv_assign:
  assumes "sched_inv s" "assign_workers i s = Ok (ws, s')"
  shows "sched_inv s'"
  using assms(2)
proof (rule assign_workers_Ok)
  fix job bs
  assume a: "tree_get (sc_jobs s) i = Some job" "tree_get (sc_bids s) i = Some bs"
    "ws = map wb_worker (take (unat (jr_redundancy (cj_requirements job))) (eligible_bids (cj_requirements job) bs))"
    "s' = s\<lparr>sc_jobs := tree_insert i (job\<lparr>cj_assigned_workers := ws, cj_status := Assigned\<rparr>) (sc_jobs s)\<rparr>"
    and "cj_status job = Pending"
  have "set ws \<subseteq> tree_keys (sc_capabilities s)"
    using a(3) sched_inv_bidD [OF assms(1) a(2)] set_eligible [of "cj_requirements job" bs]
    by (auto dest!: in_set_takeD)
  moreover have "job_ok (tree_keys (sc_capabilities s)) i job" by (rule sched_inv_jobD [OF assms(1) a(1)])
  ultimately have "job_ok (tree_keys (sc_capabilities s)) i (job\<lparr>cj_assigned_workers := ws, cj_status := Assigned\<rparr>)"
    using a(3) \<open>cj_status job = Pending\<close> by (simp add: job_ok_def)
  then show "sched_inv s'" using sched_inv_set_job [OF assms(1)] a(4) by (metis set_job_only)
qed

lemma submit_result_Ok:
  assumes "submit_result order i r s = Ok s'"
  obtains job job1 job2 inc where "tree_get (sc_jobs s) i = Some job" "wr_worker r \<in> set (cj_assigned_workers job)"
    "job1 = job\<lparr>cj_results := cj_results job @ [r], cj_status := Verifying\<rparr>"
    "(if unat (jr_redundancy (cj_requirements job)) \<le> length (cj_results job1) then verify_results order job1 else Ok (job1, 0)) = Ok (job2, inc)"
    "s' = s\<lparr>sc_jobs := tree_insert i job2 (sc_jobs s), sc_completed_count := sc_completed_count s + inc\<rparr>"
  using assms unfolding submit_result_def Let_def res_bind_eq_Ok
  by (auto simp: res_simps split: option.splits if_splits)

lemma sched_inv_result:
  assumes "sched_inv s" "iteration_order order" "submit_result order i r s = Ok s'"
  shows "sched_inv s'"
  using assms(3)
proof (rule submit_result_Ok)
  fix job job1 job2 inc
  assume a: "tree_get (sc_jobs s) i = Some job" "wr_worker r \<in> set (cj_assigned_workers job)"
    "job1 = job\<lparr>cj_results := cj_results job @ [r], cj_status := Verifying\<rparr>"
    "(if unat (jr_redundancy (cj_requirements job)) \<le> length (cj_results job1) then verify_results order job1 else Ok (job1, 0)) = Ok (job2, inc)"
    "s' = s\<lparr>sc_jobs := tree_insert i job2 (sc_jobs s), sc_completed_count := sc_completed_count s + inc\<rparr>"
  have ok1: "job_ok (tree_keys (sc_capabilities s)) i job1"
    using sched_inv_jobD [OF assms(1) a(1)] a(2,3) by (auto simp: job_ok_def)
  have maj: "majority_reached (job1\<lparr>cj_status := Completed\<rparr>)"
    if "0 < agreeing (cj_results job1) h" "majority_threshold (jr_redundancy (cj_requirements job1)) \<le> agreeing (cj_results job1) h" for h
    using majority_of_agreeing [of "job1\<lparr>cj_status := Completed\<rparr>" h] that by simp
  have "job2 = job1 \<or> job2 = job1\<lparr>cj_status := Disputed\<rparr> \<or>
      job2 = job1\<lparr>cj_status := Completed\<rparr> \<and> majority_reached job2"
  proof (cases "unat (jr_redundancy (cj_requirements job)) \<le> length (cj_results job1)")
    case True
    with a(4) have "verify_results order job1 = Ok (job2, inc)" by simp
    from verify_results_status [OF assms(2) this] maj show ?thesis by blast
  qed (use a(4) in simp)
  with ok1 have "job_ok (tree_keys (sc_capabilities s)) i job2" by (auto simp: job_ok_def image_subset_iff)
  then show "sched_inv s'" unfolding a(5) by (rule sched_inv_set_job [OF assms(1)])
qed

lemma sched_reach_inv: "sched_reach order s \<Longrightarrow> iteration_order order \<Longrightarrow> sched_inv s"
proof (induction rule: sched_reach.induct)
  case s_new
  show ?case by (simp add: sched_inv_def scheduler_new_def tree_simps)
qed (blast intro: sched_inv_register sched_inv_submit sched_inv_bid sched_inv_assign sched_inv_result)+

section \<open>A run\<close>

definition sample_cap :: node_capability where
  "sample_cap = \<lparr>nc_node_address = ''n1'', nc_cpu_cores = 4, nc_cpu_model = [], nc_ram_mb = 1024, nc_gpu = None,
     nc_storage_available_mb = 0, nc_network_bandwidth_mbps = 0, nc_os = [], nc_supported_runtimes = [],
     nc_registered_at = 0, nc_last_heartbeat = 0, nc_reputation_score = 0\<rparr>"

definition sample_job :: compute_job where
  "sample_job = \<lparr>cj_job_id = ''j1'', cj_submitter = [], cj_task = Deterministic [] [] 0,
     cj_requirements = job_requirements_default\<lparr>jr_redundancy := 1\<rparr>,
     cj_budget = \<lparr>jb_max_cost_aura = 0, jb_cost_per_cpu_sec = 0, jb_cost_per_gpu_sec = 0\<rparr>, cj_status = Pending,
     cj_created_at = 0, cj_deadline_ms = 0, cj_assigned_workers = [], cj_results = []\<rparr>"

definition sample_bid :: worker_bid where
  "sample_bid = \<lparr>wb_job_id = ''j1'', wb_worker = ''n1'', wb_bid_aura = 5, wb_estimated_time_ms = 0,
     wb_reputation_score = 0, wb_submitted_at = 0\<rparr>"

definition sample_result :: worker_result where
  "sample_result = \<lparr>wr_worker = ''n1'', wr_output_file_id = None, wr_output_data = None, wr_execution_time_ms = 0,
     wr_cpu_time_ms = 0, wr_peak_memory_mb = 0, wr_result_hash = ''h'', wr_submitted_at = 0\<rparr>"

definition sample_bidding :: scheduler where
  "sample_bidding = scheduler_new\<lparr>sc_capabilities := [(''n1'', sample_cap)], sc_jobs := [(''j1'', sample_job)],
     sc_bids := [(''j1'', [sample_bid])]\<rparr>"

definition sample_assigned :: scheduler where
  "sample_assigned = sample_bidding\<lparr>sc_jobs :=
     [(''j1'', sample_job\<lparr>cj_assigned_workers := [''n1''], cj_status := Assigned\<rparr>)]\<rparr>"

definition sample_done :: scheduler where
  "sample_done = sample_bidding\<lparr>sc_jobs := [(''j1'', sample_job\<lparr>cj_assigned_workers := [''n1''],
     cj_results := [sample_result], cj_status := Completed\<rparr>)], sc_completed_count := 1\<rparr>"

lemma sample_steps:
  "\<exists>s1 s2. register_capability sample_cap scheduler_new = Ok s1 \<and> submit_job sample_job s1 = Ok s2 \<and>
     submit_bid sample_bid s2 = Ok sample_bidding"
  "assign_workers ''j1'' sample_bidding = Ok ([''n1''], sample_assigned)"
  "submit_result (\<lambda>xs. xs) ''j1'' sample_result sample_assigned = Ok sample_done"
  by (simp add: register_capability_def submit_job_def submit_bid_def log_prefix_def str_slice_to_def is_char_boundary_def
      sample_cap_def sample_job_def sample_bid_def sample_bidding_def scheduler_new_def tree_simps
      meets_requirements_def job_requirements_default_def f64_lt_def)
     code_simp+

lemma sample_done_reach: "sched_reach (\<lambda>xs. xs) sample_done"
proof -
  obtain s1 s2 where s: "register_capability sample_cap scheduler_new = Ok s1" "submit_job sample_job s1 = Ok s2"
    "submit_bid sample_bid s2 = Ok sample_bidding" using sample_steps(1) by blast
  have "fresh_job sample_job" by (simp add: fresh_job_def sample_job_def)
  then have "sched_reach (\<lambda>xs. xs) sample_bidding"
    by (rule s_bid [OF s_submit [OF s_register [OF s_new s(1)] _ s(2)] s(3)])
  then show ?thesis by (rule s_result [OF s_assign [OF _ sample_steps(2)] sample_steps(3)])
qed

section \<open>Properties\<close>



text \<open>
  Assignment takes the cheapest: the workers assigned are those of the lowest bids among the bids with
  enough reputation, at most \<open>redundancy\<close> of them, in order of their bids, and no eligible bid that is left
  out is lower than one that is taken.
\<close>

lemma assign_cheapest:
  assumes "assign_workers i s = Ok (ws, s')" "tree_get (sc_jobs s) i = Some job" "tree_get (sc_bids s) i = Some bs"
  shows "\<exists>sel. ws = map wb_worker sel \<and> length sel \<le> unat (jr_redundancy (cj_requirements job)) \<and>
    sorted (map wb_bid_aura sel) \<and> set sel \<subseteq> set bs \<and>
    (\<forall>b \<in> set sel. f64_ge (wb_reputation_score b) (jr_min_reputation (cj_requirements job))) \<and>
    (\<forall>b \<in> set bs - set sel. f64_ge (wb_reputation_score b) (jr_min_reputation (cj_requirements job)) \<longrightarrow>
       (\<forall>c \<in> set sel. wb_bid_aura c \<le> wb_bid_aura b))"
  using assms(1)
proof (rule assign_workers_Ok)
  fix job' bs'
  assume "tree_get (sc_jobs s) i = Some job'" "tree_get (sc_bids s) i = Some bs'"
    and ws: "ws = map wb_worker (take (unat (jr_redundancy (cj_requirements job'))) (eligible_bids (cj_requirements job') bs'))"
  with assms(2,3) have eq: "job' = job" "bs' = bs" by auto
  let ?n = "unat (jr_redundancy (cj_requirements job))"
  let ?ok = "\<lambda>b. f64_ge (wb_reputation_score b) (jr_min_reputation (cj_requirements job))"
  let ?sel = "take ?n (sort_key wb_bid_aura (filter ?ok bs))"
  have "sorted (map wb_bid_aura ?sel)"
    by (metis sorted_sort_key sorted_wrt_take take_map)
  moreover have "set ?sel \<subseteq> set (filter ?ok bs)" by (metis set_sort set_take_subset)
  moreover have "wb_bid_aura c \<le> wb_bid_aura b" if "b \<in> set bs - set ?sel" "?ok b" "c \<in> set ?sel" for b c
    using take_sort_key_least [of b "filter ?ok bs" ?n wb_bid_aura c] that by simp
  moreover have "ws = map wb_worker ?sel" using ws by (simp add: eq eligible_bids_def)
  moreover have "length ?sel \<le> ?n" by simp
  ultimately show ?thesis by (intro exI [of _ ?sel]) auto
qed

lemma assign_cheapest_sample:
  "\<exists>sel. [''n1''] = map wb_worker sel \<and> set sel \<subseteq> {sample_bid} \<and> sorted (map wb_bid_aura sel)"
proof -
  have "tree_get (sc_jobs sample_bidding) ''j1'' = Some sample_job"
    "tree_get (sc_bids sample_bidding) ''j1'' = Some [sample_bid]"
    by (simp_all add: sample_bidding_def tree_simps)
  from assign_cheapest [OF sample_steps(2) this] obtain sel where
    "[''n1''] = map wb_worker sel" "sorted (map wb_bid_aura sel)" "set sel \<subseteq> set [sample_bid]"
    by (elim exE conjE) (rule that)
  then show ?thesis by (intro exI [of _ sel]) simp
qed

lemma agreeing_append: "agreeing (rs @ [r]) h = agreeing rs h + (if wr_result_hash r = h then 1 else 0)"
  by (simp add: agreeing_def)

lemma verify_results_completes:
  assumes "iteration_order order" "majority_reached job" "log_prefix (cj_job_id job) 16 \<noteq> (Panic :: (string, sched_error) res)"
    "\<forall>r \<in> set (cj_results job). log_prefix (wr_result_hash r) 16 \<noteq> (Panic :: (string, sched_error) res)"
  shows "verify_results order job = Ok (job\<lparr>cj_status := Completed\<rparr>, 1)"
proof -
  have ok: "\<exists>v. log_prefix x 16 = (Ok v :: (string, sched_error) res)"
    if "log_prefix x 16 \<noteq> (Panic :: (string, sched_error) res)" for x
    using that by (cases "is_char_boundary x (min 16 (length x))") (auto simp: log_prefix_def str_slice_to_def)
  have hash: "log_prefix h 16 \<noteq> (Panic :: (string, sched_error) res)" if "(h, n) \<in> set (order (hash_counts (cj_results job)))" for h n
  proof -
    have "tree_get (hash_counts (cj_results job)) h = Some n"
      using that tree_get_Some_iff [OF tree_wf_hash_counts] iteration_order_set [OF assms(1)] by blast
    then have "filter (\<lambda>r. wr_result_hash r = h) (cj_results job) \<noteq> []"
      by (auto simp: hash_counts_get Let_def split: if_splits)
    then show ?thesis using assms(4) by (auto simp: filter_empty_conv)
  qed
  obtain v where "verify_results order job = Ok v"
  proof (cases "find (\<lambda>(_, count). majority_threshold (jr_redundancy (cj_requirements job)) \<le> count) (order (hash_counts (cj_results job)))")
    case None
    then show ?thesis using that ok [OF assms(3)] by (auto simp: verify_results_def)
  next
    case (Some e)
    obtain h n where e: "e = (h, n)" by fastforce
    have "(h, n) \<in> set (order (hash_counts (cj_results job)))" using find_in_set [OF Some] e by simp
    from ok [OF hash [OF this]] ok [OF assms(3)] obtain a b where
      "log_prefix h 16 = (Ok a :: (string, sched_error) res)" "log_prefix (cj_job_id job) 16 = (Ok b :: (string, sched_error) res)"
      by blast
    then show ?thesis using that Some e by (simp add: verify_results_def)
  qed
  moreover obtain r where "r \<in> set (cj_results job)"
    "majority_threshold (jr_redundancy (cj_requirements job)) \<le> agreeing (cj_results job) (wr_result_hash r)"
    using assms(2) by (auto simp: majority_reached_def)
  moreover from this(1) have "0 < agreeing (cj_results job) (wr_result_hash r)"
    by (auto simp: agreeing_def filter_empty_conv)
  ultimately show ?thesis
    using verify_results_status [OF assms(1), of job "fst v" "snd v"] by (cases v) (auto simp: not_less dest: leD)
qed

lemma completed_after_result:
  assumes "iteration_order order" "submit_result order i r s = Ok s1" "tree_get (sc_jobs s1) i = Some j" "cj_status j = Completed"
  shows "majority_reached j \<and> unat (jr_redundancy (cj_requirements j)) \<le> length (cj_results j) \<and>
    wr_worker r \<in> set (cj_assigned_workers j) \<and> r \<in> set (cj_results j) \<and>
    log_prefix (cj_job_id j) 16 \<noteq> (Panic :: (string, sched_error) res)"
  using assms(2)
proof (rule submit_result_Ok)
  fix job job1 job2 inc
  assume a: "tree_get (sc_jobs s) i = Some job" "wr_worker r \<in> set (cj_assigned_workers job)"
    "job1 = job\<lparr>cj_results := cj_results job @ [r], cj_status := Verifying\<rparr>"
    "(if unat (jr_redundancy (cj_requirements job)) \<le> length (cj_results job1) then verify_results order job1 else Ok (job1, 0)) = Ok (job2, inc)"
    "s1 = s\<lparr>sc_jobs := tree_insert i job2 (sc_jobs s), sc_completed_count := sc_completed_count s + inc\<rparr>"
  have j: "j = job2" using assms(3) a(5) by (simp add: tree_simps)
  have v: "verify_results order job1 = Ok (j, inc)" "unat (jr_redundancy (cj_requirements job)) \<le> length (cj_results job1)"
    using a(3,4) assms(4) j by (auto split: if_splits)
  obtain h where "0 < agreeing (cj_results job1) h" "majority_threshold (jr_redundancy (cj_requirements job1)) \<le> agreeing (cj_results job1) h"
    and j1: "j = job1\<lparr>cj_status := Completed\<rparr>"
    using verify_results_status [OF assms(1) v(1)] assms(4) by auto
  then have "majority_reached j" using majority_of_agreeing [of j h] by simp
  moreover have "log_prefix (cj_job_id job1) 16 \<noteq> (Panic :: (string, sched_error) res)"
    using v(1) by (auto simp: verify_results_def split: option.splits)
  ultimately show ?thesis using v(2) a(2,3) by (simp add: j1)
qed

text \<open>
  A completed job can be completed again: \<open>submit_result\<close> does not look at the job's status, so a
  worker that repeats the result that completed a job raises the count of completed jobs again.
\<close>

lemma resubmission_recounts:
  assumes "iteration_order order" "submit_result order i r s = Ok s1" "tree_get (sc_jobs s1) i = Some j"
    "cj_status j = Completed"
    "\<forall>r' \<in> set (cj_results j). log_prefix (wr_result_hash r') 16 \<noteq> (Panic :: (string, sched_error) res)"
  shows "\<exists>s2. submit_result order i r s1 = Ok s2 \<and> sc_completed_count s2 = sc_completed_count s1 + 1"
proof -
  let ?j1 = "j\<lparr>cj_results := cj_results j @ [r], cj_status := Verifying\<rparr>"
  note c = completed_after_result [OF assms(1-4)]
  obtain r0 where r0: "r0 \<in> set (cj_results j)"
    "majority_threshold (jr_redundancy (cj_requirements j)) \<le> agreeing (cj_results j) (wr_result_hash r0)"
    using c by (auto simp: majority_reached_def)
  then have "majority_reached ?j1"
    unfolding majority_reached_def by (intro bexI [of _ r0]) (simp_all add: agreeing_append)
  then have "verify_results order ?j1 = Ok (?j1\<lparr>cj_status := Completed\<rparr>, 1)"
    using assms(5) c by (intro verify_results_completes [OF assms(1)]) auto
  then show ?thesis using c assms(3) by (simp add: submit_result_def)
qed

lemma resubmission_recounts_sample:
  "\<exists>s2. submit_result (\<lambda>xs. xs) ''j1'' sample_result sample_done = Ok s2 \<and> sc_completed_count s2 = 2"
proof -
  let ?j = "sample_job\<lparr>cj_assigned_workers := [''n1''], cj_results := [sample_result], cj_status := Completed\<rparr>"
  have "tree_get (sc_jobs sample_done) ''j1'' = Some ?j" by (simp add: sample_done_def tree_simps)
  from resubmission_recounts [OF iteration_order_id sample_steps(3) this]
  show ?thesis
    by (simp add: log_prefix_def str_slice_to_def is_char_boundary_def sample_result_def) (simp add: sample_done_def)
qed

end
