(* ===== verification/FloatArith.thy ===== *)
theory FloatArith
  imports Float64
begin

text \<open>
  The rest of the \<open>f64\<close> arithmetic the code uses: sums, differences, square roots, minimum, maximum and clamping, on the values
  of \<open>Float64\<close>; the \<open>f32\<close> operations of one of the proof-of-intelligence models; and the bounds that show that such computations
  stay finite and within their range. A number the source writes in decimal is the double nearest to it.
\<close>

section \<open>Exact results\<close>

fun neg_value :: "f64_value \<Rightarrow> f64_value" where
  "neg_value Nan = Nan"
| "neg_value (Inf s) = Inf (\<not> s)"
| "neg_value (Fin s x) = Fin (\<not> s) x"

fun add_value :: "f64_value \<Rightarrow> f64_value \<Rightarrow> f64_value" where
  "add_value (Fin s x) (Fin t y) =
     (if s = t then Fin s (x + y) else if x = y then Fin False 0 else if y < x then Fin s (x - y) else Fin t (y - x))"
| "add_value (Inf s) (Inf t) = (if s = t then Inf s else Nan)"
| "add_value (Inf s) (Fin t y) = Inf s"
| "add_value (Fin s x) (Inf t) = Inf t"
| "add_value _ _ = Nan"

definition f64_of_value :: "f64_value \<Rightarrow> f64" where
  "f64_of_value v = (case v of Nan \<Rightarrow> f64_nan | Inf s \<Rightarrow> f64_inf s | Fin s x \<Rightarrow> f64_rounded s x)"

definition f64_add :: "f64 \<Rightarrow> f64 \<Rightarrow> f64" where
  "f64_add a b = f64_of_value (add_value (f64_value_of a) (f64_value_of b))"

definition f64_sub :: "f64 \<Rightarrow> f64 \<Rightarrow> f64" where
  "f64_sub a b = f64_of_value (add_value (f64_value_of a) (neg_value (f64_value_of b)))"

definition f64_neg :: "f64 \<Rightarrow> f64" where "f64_neg a = flip_bit 63 a"

definition f64_abs :: "f64 \<Rightarrow> f64" where "f64_abs a = take_bit 63 a"

definition f64_of_nat :: "nat \<Rightarrow> f64" where "f64_of_nat n = f64_rounded False (of_nat n)"

text \<open>\<open>f64::min\<close> and \<open>f64::max\<close> ignore a NaN; \<open>clamp\<close> keeps it. The limits of every \<open>clamp\<close> are constants in the right order.\<close>

definition f64_min :: "f64 \<Rightarrow> f64 \<Rightarrow> f64" where
  "f64_min a b = (if f64_is_nan a then b else if f64_lt b a then b else a)"

definition f64_max :: "f64 \<Rightarrow> f64 \<Rightarrow> f64" where
  "f64_max a b = (if f64_is_nan a then b else if f64_lt a b then b else a)"

definition f64_clamp :: "f64 \<Rightarrow> f64 \<Rightarrow> f64 \<Rightarrow> f64" where
  "f64_clamp lo hi a = (let a' = (if f64_lt a lo then lo else a) in if f64_lt hi a' then hi else a')"

text \<open>The square root, rounded: \<open>isqrt\<close> gives the leading digits of the root and the remainder decides the rounding.\<close>

fun isqrt :: "nat \<Rightarrow> nat" where
  "isqrt n = (if n = 0 then 0 else let r = 2 * isqrt (n div 4) in if (r + 1)\<^sup>2 \<le> n then r + 1 else r)"

declare isqrt.simps [simp del]

definition f64_sqrt :: "f64 \<Rightarrow> f64" where
  "f64_sqrt a =
     (case f64_value_of a of
        Nan \<Rightarrow> f64_nan
      | Inf s \<Rightarrow> if s then f64_nan else a
      | Fin s x \<Rightarrow>
          if x = 0 then a
          else if s then f64_nan
          else let k = ilog2 x div 2; q = x * 2 powi (2 * (52 - k)); n = isqrt (nat \<lfloor>q\<rfloor>); h = (of_nat n + 1 / 2)\<^sup>2
               in of_nat (nat (k + 1022) * 2 ^ 52 + (if q < h \<or> q = h \<and> even n then n else n + 1)))"

section \<open>Single precision\<close>

type_synonym f32 = "32 word"

definition f32_value_of :: "f32 \<Rightarrow> f64_value" where
  "f32_value_of b =
     (let s = (2 ^ 31 \<le> unat b); e = (unat b div 2 ^ 23) mod 2 ^ 8; m = unat b mod 2 ^ 23
      in if e = 255 then (if m = 0 then Inf s else Nan)
         else if e = 0 then Fin s (of_nat m * 2 powi (- 149))
         else Fin s (of_nat (2 ^ 23 + m) * 2 powi (int e - 150)))"

definition f32_rounded :: "bool \<Rightarrow> rat \<Rightarrow> f32" where
  "f32_rounded s r =
     (let k = max (ilog2 r) (- 126);
          m = (if r = 0 then 0 else min (nat (k + 126) * 2 ^ 23 + round_half_even (r * 2 powi (23 - k))) (255 * 2 ^ 23))
      in of_nat ((if s then 2 ^ 31 else 0) + m))"

definition f32_of_value :: "f64_value \<Rightarrow> f32" where
  "f32_of_value v =
     (case v of
        Nan \<Rightarrow> 0x7FC00000
      | Inf s \<Rightarrow> of_nat ((if s then 2 ^ 31 else 0) + 255 * 2 ^ 23)
      | Fin s x \<Rightarrow> f32_rounded s x)"

fun mul_value :: "f64_value \<Rightarrow> f64_value \<Rightarrow> f64_value" where
  "mul_value (Fin s x) (Fin t y) = Fin (s \<noteq> t) (x * y)"
| "mul_value (Inf s) (Inf t) = Inf (s \<noteq> t)"
| "mul_value (Inf s) (Fin t y) = (if y = 0 then Nan else Inf (s \<noteq> t))"
| "mul_value (Fin s x) (Inf t) = (if x = 0 then Nan else Inf (s \<noteq> t))"
| "mul_value _ _ = Nan"

fun div_value :: "f64_value \<Rightarrow> f64_value \<Rightarrow> f64_value" where
  "div_value (Fin s x) (Fin t y) =
     (if y = 0 then (if x = 0 then Nan else Inf (s \<noteq> t)) else Fin (s \<noteq> t) (x / y))"
| "div_value (Inf s) (Fin t y) = Inf (s \<noteq> t)"
| "div_value (Fin s x) (Inf t) = Fin (s \<noteq> t) 0"
| "div_value _ _ = Nan"

fun lt_value :: "f64_value \<Rightarrow> f64_value \<Rightarrow> bool" where
  "lt_value (Fin s x) (Fin t y) = ((if s then - x else x) < (if t then - y else y))"
| "lt_value (Inf s) (Inf t) = (s \<and> \<not> t)"
| "lt_value (Inf s) (Fin t y) = s"
| "lt_value (Fin s x) (Inf t) = (\<not> t)"
| "lt_value _ _ = False"

definition f32_add :: "f32 \<Rightarrow> f32 \<Rightarrow> f32" where
  "f32_add a b = f32_of_value (add_value (f32_value_of a) (f32_value_of b))"

definition f32_sub :: "f32 \<Rightarrow> f32 \<Rightarrow> f32" where
  "f32_sub a b = f32_of_value (add_value (f32_value_of a) (neg_value (f32_value_of b)))"

definition f32_mul :: "f32 \<Rightarrow> f32 \<Rightarrow> f32" where
  "f32_mul a b = f32_of_value (mul_value (f32_value_of a) (f32_value_of b))"

definition f32_div :: "f32 \<Rightarrow> f32 \<Rightarrow> f32" where
  "f32_div a b = f32_of_value (div_value (f32_value_of a) (f32_value_of b))"

definition f32_lt :: "f32 \<Rightarrow> f32 \<Rightarrow> bool" where
  "f32_lt a b = lt_value (f32_value_of a) (f32_value_of b)"

definition f32_min :: "f32 \<Rightarrow> f32 \<Rightarrow> f32" where
  "f32_min a b = (if f32_value_of a = Nan then b else if f32_lt b a then b else a)"

definition f32_max :: "f32 \<Rightarrow> f32 \<Rightarrow> f32" where
  "f32_max a b = (if f32_value_of a = Nan then b else if f32_lt a b then b else a)"

definition f32_of_nat :: "nat \<Rightarrow> f32" where "f32_of_nat n = f32_rounded False (of_nat n)"

text \<open>Literals.\<close>

definition f64_lit :: "rat \<Rightarrow> f64" where "f64_lit r = f64_rounded False r"

definition f32_lit :: "rat \<Rightarrow> f32" where "f32_lit r = f32_rounded False r"

section \<open>Values and bits\<close>

text \<open>The magnitude that the lower 63 bits stand for.\<close>

definition mag_value :: "nat \<Rightarrow> rat" where
  "mag_value m =
     (if m div 2 ^ 52 = 0 then of_nat (m mod 2 ^ 52) * 2 powi (- 1074)
      else of_nat (2 ^ 52 + m mod 2 ^ 52) * 2 powi (int (m div 2 ^ 52) - 1075))"

lemma div_scaled: "n < 2 ^ 52 \<Longrightarrow> (K * 2 ^ 52 + n) div 2 ^ 52 = K" "n < 2 ^ 52 \<Longrightarrow> (K * 2 ^ 52 + n) mod 2 ^ 52 = n" for K n :: nat
  by (simp_all only: div_mult_self3 mod_mult_self3 power_not_zero zero_neq_numeral not_False_eq_True div_less mod_less add_0_right)

lemma mag_value_step: "mag_value (e * 2 ^ 52 + f) = (if e = 0 then of_nat f * 2 powi (- 1074) else of_nat (2 ^ 52 + f) * 2 powi (int e - 1075))"
  if "f < 2 ^ 52"
  using div_scaled [OF that, of e] by (simp only: mag_value_def)

lemma mag_value_scaled:
  assumes "2 ^ 52 \<le> n \<or> K = 0" "n \<le> 2 ^ 53"
  shows "mag_value (K * 2 ^ 52 + n) = of_nat n * 2 powi (int K - 1074)"
proof -
  consider "n < 2 ^ 52" | "2 ^ 52 \<le> n" "n < 2 ^ 53" | "n = 2 ^ 53" using assms(2) by linarith
  then show ?thesis
  proof cases
    case 1
    with assms(1) show ?thesis using mag_value_step [of n 0] by simp
  next
    case 2
    define q where "q = n - 2 ^ 52"
    have q: "n = 2 ^ 52 + q" "q < 2 ^ 52" using 2 by (simp_all add: q_def)
    have "K * 2 ^ 52 + n = (K + 1) * 2 ^ 52 + q" using q(1) by simp
    then show ?thesis using mag_value_step [OF q(2), of "K + 1"] q(1) by (simp add: ac_simps)
  next
    case 3
    have "K * 2 ^ 52 + n = (K + 2) * 2 ^ 52 + 0" using 3 by simp
    then have "mag_value (K * 2 ^ 52 + n) = 2 ^ 52 * 2 powi (int K - 1073)"
      using mag_value_step [of 0 "K + 2"] by (simp add: ac_simps)
    moreover have "(2 :: rat) powi (int K - 1073) = 2 * 2 powi (int K - 1074)"
      using power_int_add_1' [of "2 :: rat" "int K - 1074"] by simp
    ultimately show ?thesis using 3 by simp
  qed
qed

lemma mag_value_Suc: "mag_value m < mag_value (Suc m)"
proof -
  define e f where "e = m div 2 ^ 52" and "f = m mod 2 ^ 52"
  have m: "m = e * 2 ^ 52 + f" "f < 2 ^ 52" by (simp_all add: e_def f_def)
  have v: "mag_value m = (if e = 0 then of_nat f * 2 powi (- 1074) else of_nat (2 ^ 52 + f) * 2 powi (int e - 1075))"
    unfolding m(1) by (rule mag_value_step [OF m(2)])
  show ?thesis
  proof (cases "Suc f < 2 ^ 52")
    case True
    have "Suc m = e * 2 ^ 52 + Suc f" using m(1) by simp
    with mag_value_step [OF True, of e] v show ?thesis by (simp add: mult_strict_right_mono)
  next
    case False
    then have f: "Suc f = 2 ^ 52" using m(2) by simp
    have "Suc m = (e + 1) * 2 ^ 52 + 0" using m(1) f by simp
    then have s: "mag_value (Suc m) = 2 ^ 52 * 2 powi (int e - 1074)" using mag_value_step [of 0 "e + 1"] by simp
    have ff: "(of_nat f :: rat) = 2 ^ 52 - 1" using f by (metis of_nat_Suc of_nat_power of_nat_numeral add_diff_cancel_left')
    have "(2 :: rat) powi (int e - 1074) = 2 * 2 powi (int e - 1075)"
      using power_int_add_1' [of "2 :: rat" "int e - 1075"] by simp
    then show ?thesis using s v ff by (cases "e = 0") simp_all
  qed
qed

lemma mag_value_less_iff: "mag_value m < mag_value n \<longleftrightarrow> m < n"
  using lift_Suc_mono_less_iff [of mag_value] mag_value_Suc by simp

lemma mag_value_0: "mag_value 0 = 0"
  by (simp add: mag_value_def)

definition f64_mag :: "f64 \<Rightarrow> nat" where "f64_mag b = unat b mod 2 ^ 63"

lemma f64_split: "unat b = (if 2 ^ 63 \<le> unat b then 2 ^ 63 else 0) + f64_mag b" "f64_mag b < 2 ^ 63"
proof -
  have "unat b < 2 ^ 64" using unat_u64_bound [of b] by simp
  then show "unat b = (if 2 ^ 63 \<le> unat b then 2 ^ 63 else 0) + f64_mag b"
    unfolding f64_mag_def by (cases "2 ^ 63 \<le> unat b") (simp_all add: le_mod_geq)
qed (simp add: f64_mag_def)

lemma f64_fields: "f64_exponent b = f64_mag b div 2 ^ 52" "f64_mantissa b = f64_mag b mod 2 ^ 52"
proof -
  have "unat b mod (2 ^ 52 * 2 ^ 11) = 2 ^ 52 * (unat b div 2 ^ 52 mod 2 ^ 11) + unat b mod 2 ^ 52"
    by (rule mod_mult2_eq)
  then have m: "f64_mag b = f64_exponent b * 2 ^ 52 + f64_mantissa b"
    by (simp only: f64_mag_def f64_exponent_def f64_mantissa_def mult.commute power_add [symmetric]) simp
  have "f64_mantissa b < 2 ^ 52" by (simp add: f64_mantissa_def)
  from div_scaled [OF this, of "f64_exponent b"] show "f64_exponent b = f64_mag b div 2 ^ 52" "f64_mantissa b = f64_mag b mod 2 ^ 52"
    by (simp_all only: m)
qed

lemma f64_value_mag: "f64_mag b < 2047 * 2 ^ 52 \<Longrightarrow> f64_value_of b = Fin (2 ^ 63 \<le> unat b) (mag_value (f64_mag b))"
proof -
  assume "f64_mag b < 2047 * 2 ^ 52"
  then have "f64_mag b div 2 ^ 52 < 2047" by (rule less_mult_imp_div_less)
  then show ?thesis by (simp only: f64_value_of_def Let_def f64_fields mag_value_def split: if_splits) simp
qed

lemma f64_value_large: "2047 * 2 ^ 52 \<le> f64_mag b \<Longrightarrow> f64_value_of b = (if f64_mag b = 2047 * 2 ^ 52 then Inf (2 ^ 63 \<le> unat b) else Nan)"
proof -
  assume "2047 * 2 ^ 52 \<le> f64_mag b"
  moreover have "f64_mag b < 2047 * 2 ^ 52 + 2 ^ 52" using f64_split(2) [of b] by simp
  ultimately have f: "f64_mag b = 2047 * 2 ^ 52 + (f64_mag b - 2047 * 2 ^ 52)" "f64_mag b - 2047 * 2 ^ 52 < 2 ^ 52" by linarith+
  define f where "f = f64_mag b - 2047 * 2 ^ 52"
  note f = f [folded f_def]
  then show ?thesis using div_scaled [OF f(2), of 2047] by (simp only: f64_value_of_def Let_def f64_fields f(1)) simp
qed

lemma f64_take_bit: "uint (take_bit 63 b :: f64) = int (f64_mag b)"
proof -
  have "uint (take_bit 63 b :: f64) = take_bit 63 (uint b)" by (simp only: unsigned_take_bit_eq)
  then have "uint (take_bit 63 b :: f64) = uint b mod 2 ^ 63" by (simp only: take_bit_int_def)
  then show ?thesis by (simp only: uint_nat f64_mag_def zmod_int of_nat_power of_nat_numeral)
qed

lemma f64_sign_bit: "bit (b :: f64) 63 = (2 ^ 63 \<le> unat b)"
proof -
  have "unat b < 2 ^ 64" using unat_u64_bound [of b] by simp
  then have "unat b div 2 ^ 63 = (if 2 ^ 63 \<le> unat b then 1 else 0)" by (simp add: div_nat_eqI)
  moreover have "bit b 63 = bit (uint b) 63" by (simp add: bit_uint_iff)
  then have "bit b 63 = odd (int (unat b) div int (2 ^ 63))" by (simp only: bit_iff_odd uint_nat of_nat_power of_nat_numeral)
  then have "bit b 63 = odd (unat b div 2 ^ 63)" by (simp only: zdiv_int [symmetric] even_of_nat_iff)
  ultimately show ?thesis by simp
qed

lemma f64_is_nan_mag: "f64_is_nan b = (2047 * 2 ^ 52 < f64_mag b)"
  unfolding f64_is_nan_def word_less_def f64_take_bit by simp

lemma f64_key_mag: "f64_key b = (if 2 ^ 63 \<le> unat b then - int (f64_mag b) else int (f64_mag b))"
  by (simp only: f64_key_def f64_take_bit f64_sign_bit)

section \<open>Rounding is monotone\<close>

lemma round_half_even_mono:
  assumes "0 \<le> x" "x \<le> y"
  shows "round_half_even x \<le> round_half_even y"
proof -
  have f: "\<lfloor>x\<rfloor> \<le> \<lfloor>y\<rfloor>" "0 \<le> \<lfloor>x\<rfloor>" using assms by (simp_all add: floor_mono)
  show ?thesis
  proof (cases "\<lfloor>x\<rfloor> = \<lfloor>y\<rfloor>")
    case True
    with assms show ?thesis unfolding round_half_even_def Let_def by (auto simp: nat_mono)
  next
    case False
    with f show ?thesis unfolding round_half_even_def Let_def by auto
  qed
qed

lemma ilog2_mono: "0 < r \<Longrightarrow> r \<le> r' \<Longrightarrow> ilog2 r \<le> ilog2 r'"
proof -
  assume r: "0 < r" "r \<le> r'"
  have "2 powi ilog2 r < (2 :: rat) powi (ilog2 r' + 1)"
    using ilog2_bounds(1) [OF r(1)] ilog2_bounds(2) [of r'] r by linarith
  then show ?thesis by (simp only: two_powi_less_iff)
qed

text \<open>The exponent of the last place of the doubles around a positive rational, and the nearest of them, subnormal ones included.\<close>

definition f64_scale :: "rat \<Rightarrow> int" where "f64_scale r = max (ilog2 r) (- 1022)"

definition f64_digits :: "rat \<Rightarrow> nat" where "f64_digits r = round_half_even (r * 2 powi (52 - f64_scale r))"

definition fround :: "rat \<Rightarrow> rat" where
  "fround r = (if r = 0 then 0 else of_nat (f64_digits r) * 2 powi (f64_scale r - 52))"

lemma f64_digits_bounds:
  assumes "0 < r"
  shows "f64_digits r \<le> 2 ^ 53" "- 1022 < f64_scale r \<Longrightarrow> 2 ^ 52 \<le> f64_digits r"
proof -
  have le: "(2 :: rat) powi (52 - f64_scale r) \<le> 2 powi (52 - ilog2 r)"
    by (rule power_int_increasing) (simp_all add: f64_scale_def)
  have "r * 2 powi (52 - f64_scale r) \<le> r * 2 powi (52 - ilog2 r)" using le assms by (intro mult_left_mono) simp_all
  with scaled_range(2) [OF assms] have "r * 2 powi (52 - f64_scale r) < 2 ^ 53" by (rule le_less_trans [rotated])
  with assms show "f64_digits r \<le> 2 ^ 53"
    unfolding f64_digits_def using round_half_even_range(2) [of 0 _ "2 ^ 53"] by simp
  assume "- 1022 < f64_scale r"
  then have "f64_scale r = ilog2 r" by (simp add: f64_scale_def max_def split: if_splits)
  with scaled_range [OF assms] show "2 ^ 52 \<le> f64_digits r"
    unfolding f64_digits_def using round_half_even_range(1) [of "2 ^ 52" _ "2 ^ 53"] by simp
qed

lemma fround_nonneg: "0 \<le> fround r"
  by (simp add: fround_def)

lemma fround_mono:
  assumes "0 \<le> r" "r \<le> r'"
  shows "fround r \<le> fround r'"
proof (cases "r = 0")
  case True
  then show ?thesis using fround_nonneg [of r'] by (simp add: fround_def)
next
  case False
  with assms have r: "0 < r" "0 < r'" by simp_all
  have s: "f64_scale r \<le> f64_scale r'" using ilog2_mono [OF r(1) assms(2)] by (simp add: f64_scale_def max.coboundedI1)
  show ?thesis
  proof (cases "f64_scale r = f64_scale r'")
    case True
    have "f64_digits r \<le> f64_digits r'"
      unfolding f64_digits_def True by (rule round_half_even_mono) (use r assms in \<open>simp_all add: mult_right_mono\<close>)
    with True r show ?thesis by (simp add: fround_def mult_right_mono)
  next
    case False
    with s have lt: "f64_scale r < f64_scale r'" by simp
    then have "- 1022 < f64_scale r'" by (simp add: f64_scale_def)
    then have d': "2 ^ 52 \<le> f64_digits r'" by (rule f64_digits_bounds(2) [OF r(2)])
    have "fround r \<le> 2 ^ 53 * 2 powi (f64_scale r - 52)"
      using f64_digits_bounds(1) [OF r(1)] r by (simp add: fround_def mult_right_mono)
    also have "\<dots> = 2 powi (f64_scale r + 1)" by (simp add: power_int_diff power_int_add)
    also have "\<dots> \<le> 2 powi f64_scale r'" by (rule power_int_increasing) (use lt in simp_all)
    also have "\<dots> = 2 ^ 52 * 2 powi (f64_scale r' - 52)" by (simp add: power_int_diff)
    also have "\<dots> \<le> fround r'" using rat_power_le [OF d'] r by (simp add: fround_def mult_right_mono)
    finally show ?thesis .
  qed
qed

lemma fround_exact:
  assumes "n < 2 ^ 53" "- 1074 \<le> i"
  shows "fround (of_nat n * 2 powi i) = of_nat n * 2 powi i"
proof (cases "n = 0")
  case False
  let ?r = "of_nat n * 2 powi i :: rat"
  have r: "0 < ?r" using False by simp
  have "of_nat n < (2 :: rat) ^ 53" using rat_Suc_le_power [OF assms(1)] by simp
  then have "?r < 2 ^ 53 * 2 powi i" by simp
  also have "\<dots> = 2 powi (i + 53)" by (simp add: power_int_add)
  finally have "(2 :: rat) powi ilog2 ?r < 2 powi (i + 53)" using ilog2_bounds(1) [OF r] by simp
  then have "ilog2 ?r \<le> i + 52" by (simp only: two_powi_less_iff)
  then have "f64_scale ?r \<le> i + 52" using assms(2) by (simp add: f64_scale_def)
  then obtain j where "i + 52 = f64_scale ?r + int j" using zle_iff_zadd by blast
  then have j: "52 - f64_scale ?r = int j - i" by simp
  have "?r * 2 powi (52 - f64_scale ?r) = of_nat (n * 2 ^ j)"
    by (simp add: j power_int_diff)
  then have "f64_digits ?r = n * 2 ^ j" by (simp only: f64_digits_def round_half_even_nat)
  moreover have "f64_scale ?r - 52 = i - int j" using j by simp
  ultimately show ?thesis using r by (simp add: fround_def power_int_diff)
qed (simp add: fround_def)

lemma f64_value_fround:
  assumes "0 \<le> r" "r < 2 powi 1023"
  shows "f64_value_of (f64_rounded s r) = Fin s (fround r)"
proof (cases "r = 0")
  case True
  then have "unat (f64_rounded s r) = (if s then 2 ^ 63 else 0)"
    by (simp add: f64_rounded_def f64_magnitude_def)
  then have "f64_mag (f64_rounded s r) = 0" "(2 ^ 63 \<le> unat (f64_rounded s r)) = s" by (simp_all add: f64_mag_def)
  with True show ?thesis by (simp add: f64_value_mag mag_value_0 fround_def)
next
  case False
  with assms have r: "0 < r" by simp
  define K where "K = nat (f64_scale r + 1022)"
  have "(2 :: rat) powi ilog2 r < 2 powi 1023" using ilog2_bounds(1) [OF r] assms(2) by simp
  then have "ilog2 r < 1023" by (simp only: two_powi_less_iff)
  then have "- 1022 \<le> f64_scale r" "f64_scale r \<le> 1022" by (simp_all add: f64_scale_def)
  then have K: "K \<le> 2044" "f64_scale r = int K - 1022" by (simp_all add: K_def)
  note d = f64_digits_bounds [OF r]
  have m: "f64_magnitude r = K * 2 ^ 52 + f64_digits r"
  proof -
    have "f64_magnitude r = min (K * 2 ^ 52 + f64_digits r) (2047 * 2 ^ 52)"
      using r by (simp only: f64_magnitude_def Let_def K_def f64_digits_def f64_scale_def) simp
    also have "\<dots> = K * 2 ^ 52 + f64_digits r" using d(1) K(1) by simp
    finally show ?thesis .
  qed
  then have ml: "f64_magnitude r < 2047 * 2 ^ 52" using d(1) K(1) by simp
  then have u: "unat (f64_rounded s r) = (if s then 2 ^ 63 else 0) + f64_magnitude r"
    unfolding f64_rounded_def by (subst unat_of_nat_u64) simp_all
  have mag: "f64_mag (f64_rounded s r) = f64_magnitude r" "(2 ^ 63 \<le> unat (f64_rounded s r)) = s"
    using ml by (simp_all add: f64_mag_def u)
  have "mag_value (f64_magnitude r) = of_nat (f64_digits r) * 2 powi (int K - 1074)"
    unfolding m by (rule mag_value_scaled) (use d K in auto)
  with mag ml r K(2) show ?thesis by (simp add: f64_value_mag fround_def)
qed

section \<open>Finite doubles within bounds\<close>

definition signed :: "bool \<Rightarrow> rat \<Rightarrow> rat" where "signed s x = (if s then - x else x)"

definition f64_in :: "rat \<Rightarrow> rat \<Rightarrow> f64 \<Rightarrow> bool" where
  "f64_in lo hi b = (case f64_value_of b of Fin s x \<Rightarrow> lo \<le> signed s x \<and> signed s x \<le> hi | _ \<Rightarrow> False)"

lemma f64_in_iff: "f64_in lo hi b \<longleftrightarrow> (\<exists>s x. f64_value_of b = Fin s x \<and> lo \<le> signed s x \<and> signed s x \<le> hi)"
  by (simp add: f64_in_def split: f64_value.splits)

lemma f64_in_weaken: "f64_in a b x \<Longrightarrow> lo \<le> a \<Longrightarrow> b \<le> hi \<Longrightarrow> f64_in lo hi x"
  by (auto simp: f64_in_iff)

lemma f64_value_FinD:
  assumes "f64_value_of b = Fin s x"
  shows "s = (2 ^ 63 \<le> unat b)" "x = mag_value (f64_mag b)" "f64_mag b < 2047 * 2 ^ 52" "0 \<le> x"
proof -
  show m: "f64_mag b < 2047 * 2 ^ 52"
  proof (rule ccontr)
    assume "\<not> ?thesis"
    then have "2047 * 2 ^ 52 \<le> f64_mag b" by simp
    from f64_value_large [OF this] assms show False by (simp only: split: if_splits) simp_all
  qed
  from f64_value_mag [OF m] assms show v: "s = (2 ^ 63 \<le> unat b)" "x = mag_value (f64_mag b)" by simp_all
  show "0 \<le> x" using v(2) mag_value_less_iff [of "f64_mag b" 0] by (simp add: mag_value_0)
qed

lemma f64_in_not_nan: "f64_in lo hi b \<Longrightarrow> \<not> f64_is_nan b"
  by (auto simp: f64_in_iff f64_is_nan_mag dest!: f64_value_FinD(3))

lemma f64_lt_value:
  assumes "f64_value_of a = Fin s x" "f64_value_of b = Fin t y"
  shows "f64_lt a b \<longleftrightarrow> signed s x < signed t y"
proof -
  note a = f64_value_FinD [OF assms(1)] and b = f64_value_FinD [OF assms(2)]
  have n: "\<not> f64_is_nan a" "\<not> f64_is_nan b" using a(3) b(3) by (simp_all add: f64_is_nan_mag)
  let ?m = "f64_mag a" and ?n = "f64_mag b"
  have z: "0 < x \<longleftrightarrow> 0 < ?m" "0 < y \<longleftrightarrow> 0 < ?n" "x < y \<longleftrightarrow> ?m < ?n" "y < x \<longleftrightarrow> ?n < ?m"
    using mag_value_less_iff [of 0] by (simp_all add: a(2) b(2) mag_value_less_iff mag_value_0)
  have "f64_key a = (if s then - int ?m else int ?m)" "f64_key b = (if t then - int ?n else int ?n)"
    by (simp_all only: f64_key_mag a(1) b(1))
  then have "f64_lt a b \<longleftrightarrow> (if s then - int ?m else int ?m) < (if t then - int ?n else int ?n)"
    using n by (simp add: f64_lt_def)
  with z a(4) b(4) show ?thesis by (cases s; cases t) (auto simp: signed_def)
qed

text \<open>Bounds that are doubles survive rounding.\<close>

definition dyadic :: "rat \<Rightarrow> bool" where
  "dyadic r \<longleftrightarrow> (\<exists>n i. \<bar>r\<bar> = of_nat n * 2 powi i \<and> n < 2 ^ 53 \<and> - 1074 \<le> i \<and> i \<le> 969)"

lemma dyadicI: "\<bar>r\<bar> = of_nat n * 2 powi i \<Longrightarrow> n < 2 ^ 53 \<Longrightarrow> - 1074 \<le> i \<Longrightarrow> i \<le> 969 \<Longrightarrow> dyadic r"
  by (auto simp: dyadic_def)

lemma dyadic_numeral: "(numeral k :: nat) < 2 ^ 53 \<Longrightarrow> dyadic (numeral k)" "dyadic 0" "dyadic 1"
  using dyadicI [of "numeral k" "numeral k" 0] dyadicI [of 0 0 0] dyadicI [of 1 1 0] by simp_all

lemma dyadic_minus: "dyadic r \<Longrightarrow> dyadic (- r)"
  by (simp add: dyadic_def)

lemma dyadic_power: "k \<le> 969 \<Longrightarrow> dyadic (2 ^ k)"
  by (rule dyadicI [of _ 1 "int k"]) simp_all

lemma dyadic_u64: "dyadic 18446744073709551616" "dyadic 36893488147419103232"
  using dyadic_power [of 64] dyadic_power [of 65] by simp_all

lemma dyadicD:
  assumes "dyadic r"
  shows "fround \<bar>r\<bar> = \<bar>r\<bar>" "\<bar>r\<bar> < 2 powi 1023"
proof -
  from assms obtain n i where r: "\<bar>r\<bar> = of_nat n * 2 powi i" "n < 2 ^ 53" "- 1074 \<le> i" "i \<le> 969" by (auto simp: dyadic_def)
  show "fround \<bar>r\<bar> = \<bar>r\<bar>" unfolding r(1) by (rule fround_exact [OF r(2,3)])
  have "of_nat n < (2 :: rat) ^ 53" using rat_Suc_le_power [OF r(2)] by simp
  then have "\<bar>r\<bar> < 2 ^ 53 * 2 powi i" unfolding r(1) by (rule mult_strict_right_mono) simp
  also have "\<dots> = 2 powi (i + 53)" by (simp add: power_int_add)
  also have "\<dots> \<le> 2 powi 1023" by (rule power_int_increasing) (use r(4) in simp_all)
  finally show "\<bar>r\<bar> < 2 powi 1023" .
qed

lemma f64_in_rounded:
  assumes "0 \<le> r" "lo \<le> signed s r" "signed s r \<le> hi" "dyadic lo" "dyadic hi"
  shows "f64_in lo hi (f64_rounded s r)"
proof -
  note lo = dyadicD [OF assms(4)] and hi = dyadicD [OF assms(5)]
  have le: "r \<le> max \<bar>lo\<bar> \<bar>hi\<bar>" using assms(1-3) by (cases s) (auto simp: signed_def max_def)
  then have "r < 2 powi 1023" using lo(2) hi(2) by (auto simp: max_def split: if_splits)
  then have v: "f64_value_of (f64_rounded s r) = Fin s (fround r)" by (rule f64_value_fround [OF assms(1)])
  have "lo \<le> signed s (fround r) \<and> signed s (fround r) \<le> hi"
  proof (cases s)
    case True
    then have "r \<le> \<bar>lo\<bar>" "hi < 0 \<Longrightarrow> \<bar>hi\<bar> \<le> r" "lo \<le> 0" using assms(1-3) by (auto simp: signed_def)
    with fround_mono [of r "\<bar>lo\<bar>"] fround_mono [of "\<bar>hi\<bar>" r] lo(1) hi(1) assms(1) fround_nonneg [of r] True
    show ?thesis by (cases "hi < 0") (simp_all add: signed_def)
  next
    case False
    then have "r \<le> \<bar>hi\<bar>" "0 < lo \<Longrightarrow> \<bar>lo\<bar> \<le> r" "0 \<le> hi" using assms(1-3) by (auto simp: signed_def)
    with fround_mono [of r "\<bar>hi\<bar>"] fround_mono [of "\<bar>lo\<bar>" r] lo(1) hi(1) assms(1) fround_nonneg [of r] False
    show ?thesis by (cases "0 < lo") (simp_all add: signed_def)
  qed
  with v show ?thesis by (simp add: f64_in_iff)
qed

lemma add_value_signed:
  assumes "0 \<le> u" "0 \<le> v"
  shows "\<exists>w z. add_value (Fin s u) (Fin t v) = Fin w z \<and> signed w z = signed s u + signed t v \<and> 0 \<le> z"
proof (cases "s = t")
  case True
  then show ?thesis using assms by (simp add: signed_def)
next
  case False
  consider "u = v" | "v < u" | "u < v" by linarith
  then show ?thesis using False by cases (auto simp: signed_def)
qed

lemma f64_in_add_value:
  assumes "0 \<le> u" "0 \<le> v" "lo \<le> signed s u + signed t v" "signed s u + signed t v \<le> hi" "dyadic lo" "dyadic hi"
  shows "f64_in lo hi (f64_of_value (add_value (Fin s u) (Fin t v)))"
proof -
  obtain w z where "add_value (Fin s u) (Fin t v) = Fin w z" "signed w z = signed s u + signed t v" "0 \<le> z"
    using add_value_signed [OF assms(1,2)] by blast
  then show ?thesis using f64_in_rounded [of z lo w hi] assms(3-6) by (simp add: f64_of_value_def)
qed

lemma f64_inE:
  assumes "f64_in a b x"
  obtains s u where "f64_value_of x = Fin s u" "a \<le> signed s u" "signed s u \<le> b" "0 \<le> u"
  using assms f64_value_FinD(4) [of x] by (auto simp: f64_in_iff)

lemma f64_in_add:
  assumes "f64_in a b x" "f64_in c d y" "lo \<le> a + c" "b + d \<le> hi" "dyadic lo" "dyadic hi"
  shows "f64_in lo hi (f64_add x y)"
proof -
  obtain s u where x: "f64_value_of x = Fin s u" "a \<le> signed s u" "signed s u \<le> b" "0 \<le> u" by (rule f64_inE [OF assms(1)])
  obtain t v where y: "f64_value_of y = Fin t v" "c \<le> signed t v" "signed t v \<le> d" "0 \<le> v" by (rule f64_inE [OF assms(2)])
  have "lo \<le> signed s u + signed t v" "signed s u + signed t v \<le> hi" using x(2,3) y(2,3) assms(3,4) by linarith+
  from f64_in_add_value [OF x(4) y(4) this assms(5,6)] show ?thesis by (simp only: f64_add_def x(1) y(1))
qed

lemma f64_in_sub:
  assumes "f64_in a b x" "f64_in c d y" "lo \<le> a - d" "b - c \<le> hi" "dyadic lo" "dyadic hi"
  shows "f64_in lo hi (f64_sub x y)"
proof -
  obtain s u where x: "f64_value_of x = Fin s u" "a \<le> signed s u" "signed s u \<le> b" "0 \<le> u" by (rule f64_inE [OF assms(1)])
  obtain t v where y: "f64_value_of y = Fin t v" "c \<le> signed t v" "signed t v \<le> d" "0 \<le> v" by (rule f64_inE [OF assms(2)])
  have "signed (\<not> t) v = - signed t v" by (simp add: signed_def)
  then have "lo \<le> signed s u + signed (\<not> t) v" "signed s u + signed (\<not> t) v \<le> hi" using x(2,3) y(2,3) assms(3,4) by linarith+
  from f64_in_add_value [OF x(4) y(4) this assms(5,6)] show ?thesis by (simp only: f64_sub_def x(1) y(1) neg_value.simps)
qed

text \<open>Products and quotients of bounds that are not negative.\<close>

lemma signed_nonneg: "0 \<le> signed s u \<Longrightarrow> 0 \<le> u \<Longrightarrow> signed s u = u"
  by (cases s) (simp_all add: signed_def)

lemma f64_in_mul:
  assumes "f64_in a b x" "f64_in c d y" "0 \<le> a" "0 \<le> c" "lo \<le> a * c" "b * d \<le> hi" "dyadic lo" "dyadic hi"
  shows "f64_in lo hi (f64_mul x y)"
proof -
  obtain s u where x: "f64_value_of x = Fin s u" "a \<le> signed s u" "signed s u \<le> b" "0 \<le> u" by (rule f64_inE [OF assms(1)])
  obtain t v where y: "f64_value_of y = Fin t v" "c \<le> signed t v" "signed t v \<le> d" "0 \<le> v" by (rule f64_inE [OF assms(2)])
  have u: "a \<le> u" "u \<le> b" "signed s u = u" and v: "c \<le> v" "v \<le> d" "signed t v = v"
    using x y signed_nonneg [of s u] signed_nonneg [of t v] assms(3,4) by auto
  have uv: "a * c \<le> u * v" "u * v \<le> b * d" using u v x(4) y(4) assms(3,4) by (auto intro: mult_mono)
  have sg: "signed (s \<noteq> t) (u * v) = u * v" using u(3) v(3) by (cases s; cases t) (auto simp: signed_def)
  have "f64_in lo hi (f64_rounded (s \<noteq> t) (u * v))"
    by (rule f64_in_rounded) (use uv sg x(4) y(4) assms(5-8) in auto)
  with x(1) y(1) show ?thesis by (simp add: f64_mul_def)
qed

lemma f64_in_div:
  assumes "f64_in a b x" "f64_in c d y" "0 \<le> a" "0 < c" "lo \<le> a / d" "b / c \<le> hi" "dyadic lo" "dyadic hi"
  shows "f64_in lo hi (f64_div x y)"
proof -
  obtain s u where x: "f64_value_of x = Fin s u" "a \<le> signed s u" "signed s u \<le> b" "0 \<le> u" by (rule f64_inE [OF assms(1)])
  obtain t v where y: "f64_value_of y = Fin t v" "c \<le> signed t v" "signed t v \<le> d" "0 \<le> v" by (rule f64_inE [OF assms(2)])
  have u: "a \<le> u" "u \<le> b" "signed s u = u" using x signed_nonneg [of s u] assms(3) by auto
  have v: "c \<le> v" "v \<le> d" "signed t v = v" using y signed_nonneg [of t v] assms(4) by auto
  have uv: "a / d \<le> u / v" "u / v \<le> b / c" using u v x(4) assms(3,4) by (auto intro: frac_le)
  have sg: "signed (s \<noteq> t) (u / v) = u / v" using u(3) v(1,3) assms(4) by (cases s; cases t) (auto simp: signed_def)
  have "f64_in lo hi (f64_rounded (s \<noteq> t) (u / v))"
    by (rule f64_in_rounded) (use uv sg x(4) v(1) assms(4-8) in auto)
  with x(1) y(1) v(1) assms(4) show ?thesis by (simp add: f64_div_def)
qed

lemma f64_in_min:
  assumes "f64_in a b x" "f64_in c d y" "lo \<le> a" "lo \<le> c"
  shows "f64_in lo (min b d) (f64_min x y)"
proof -
  obtain s u where x: "f64_value_of x = Fin s u" "a \<le> signed s u" "signed s u \<le> b" by (rule f64_inE [OF assms(1)])
  obtain t v where y: "f64_value_of y = Fin t v" "c \<le> signed t v" "signed t v \<le> d" by (rule f64_inE [OF assms(2)])
  show ?thesis
    using x y assms(3,4) f64_in_not_nan [OF assms(1)] by (auto simp: f64_min_def f64_in_iff f64_lt_value [OF y(1) x(1)])
qed

lemma f64_in_max:
  assumes "f64_in a b x" "f64_in c d y" "b \<le> hi" "d \<le> hi"
  shows "f64_in (max a c) hi (f64_max x y)"
proof -
  obtain s u where x: "f64_value_of x = Fin s u" "a \<le> signed s u" "signed s u \<le> b" by (rule f64_inE [OF assms(1)])
  obtain t v where y: "f64_value_of y = Fin t v" "c \<le> signed t v" "signed t v \<le> d" by (rule f64_inE [OF assms(2)])
  show ?thesis
    using x y assms(3,4) f64_in_not_nan [OF assms(1)] by (auto simp: f64_max_def f64_in_iff f64_lt_value [OF x(1) y(1)])
qed

lemma f64_in_clamp:
  assumes "f64_in a b x" "f64_in lo lo l" "f64_in hi hi h" "lo \<le> hi"
  shows "f64_in lo hi (f64_clamp l h x)"
proof -
  obtain s u where x: "f64_value_of x = Fin s u" by (rule f64_inE [OF assms(1)])
  obtain t v where l: "f64_value_of l = Fin t v" "lo \<le> signed t v" "signed t v \<le> lo" by (rule f64_inE [OF assms(2)])
  obtain r w where h: "f64_value_of h = Fin r w" "hi \<le> signed r w" "signed r w \<le> hi" by (rule f64_inE [OF assms(3)])
  show ?thesis
    using x l h assms(4)
    by (auto simp: f64_clamp_def Let_def f64_in_iff f64_lt_value [OF x l(1)] f64_lt_value [OF h(1) x] f64_lt_value [OF h(1) l(1)])
qed

text \<open>Literals and conversions.\<close>

lemma f64_in_literal: "0 \<le> r \<Longrightarrow> lo \<le> r \<Longrightarrow> r \<le> hi \<Longrightarrow> dyadic lo \<Longrightarrow> dyadic hi \<Longrightarrow> f64_in lo hi (f64_rounded False r)"
  by (rule f64_in_rounded) (simp_all add: signed_def)

lemma f64_in_nat:
  assumes "m \<le> 2 ^ 64"
  shows "f64_in (if m = 0 then 0 else 1) (2 ^ 64) (f64_of_nat m)"
proof -
  have "of_nat m \<le> (2 :: rat) ^ 64" using assms by (metis of_nat_le_iff of_nat_numeral of_nat_power)
  then show ?thesis unfolding f64_of_nat_def using dyadic_power [of 64] by (intro f64_in_literal) (simp_all add: dyadic_numeral)
qed

lemma f64_in_u64: "f64_in (if n = 0 then 0 else 1) (2 ^ 64) (f64_of_u64 n)"
proof -
  have "unat n \<le> 2 ^ 64" using unat_u64_bound [of n] by simp
  from f64_in_nat [OF this] show ?thesis by (simp only: f64_of_u64_def f64_of_nat_def unat_eq_zero)
qed

lemma f64_in_u64_nonneg: "f64_in 0 (2 ^ 64) (f64_of_u64 n)"
  by (rule f64_in_weaken [OF f64_in_u64]) simp_all

lemma dyadic_1024: "(numeral k :: nat) < 2 ^ 53 \<Longrightarrow> dyadic (numeral k / 1024)"
  by (rule dyadicI [of _ "numeral k" "- 10"]) (simp_all add: power_int_minus_divide)

lemma dyadic_halves: "(numeral k :: nat) < 2 ^ 53 \<Longrightarrow> dyadic (numeral k / 2)" "(numeral k :: nat) < 2 ^ 53 \<Longrightarrow> dyadic (numeral k / 4)"
  by (rule dyadicI [of _ "numeral k" "- 1"] dyadicI [of _ "numeral k" "- 2"]; simp add: power_int_minus_divide)+

lemma f64_lits:
  "f64_in 0 0 (f64_lit 0)" "f64_in 1 1 (f64_lit 1)" "f64_in 80 80 (f64_lit 80)" "f64_in 100 100 (f64_lit 100)"
  "f64_in 1000 1000 (f64_lit 1000)" "f64_in 10000 10000 (f64_lit 10000)" "f64_in 1000000 1000000 (f64_lit 1000000)"
  unfolding f64_lit_def by (rule f64_in_literal; simp add: dyadic_numeral)+

lemmas dyadics = dyadic_numeral dyadic_minus dyadic_u64 dyadic_1024 dyadic_halves

lemma f64_lit_between:
  "0 \<le> r \<Longrightarrow> numeral a / 1024 \<le> r \<Longrightarrow> r \<le> numeral b / 1024 \<Longrightarrow> (numeral a :: nat) < 2 ^ 53 \<Longrightarrow> (numeral b :: nat) < 2 ^ 53 \<Longrightarrow>
     f64_in (numeral a / 1024) (numeral b / 1024) (f64_lit r)"
  unfolding f64_lit_def by (rule f64_in_literal) (simp_all add: dyadic_1024)

lemma f64_sub_self: "f64_sub a a = 0 \<or> f64_is_nan (f64_sub a a)"
proof (cases "f64_value_of a")
  case (Fin s x)
  then show ?thesis by (simp add: f64_sub_def f64_of_value_def f64_rounded_def f64_magnitude_def)
qed (simp_all add: f64_sub_def f64_of_value_def f64_nan_def f64_is_nan_def)

section \<open>Square roots\<close>

lemma isqrt_bounds: "(isqrt n)\<^sup>2 \<le> n" "n < (isqrt n + 1)\<^sup>2"
proof (induction n rule: isqrt.induct)
  case (1 n)
  show "(isqrt n)\<^sup>2 \<le> n" "n < (isqrt n + 1)\<^sup>2"
  proof (atomize(full), cases "n = 0")
    case True
    then show "(isqrt n)\<^sup>2 \<le> n \<and> n < (isqrt n + 1)\<^sup>2" by (simp add: isqrt.simps)
  next
    case False
    define r where "r = isqrt (n div 4)"
    from 1 [OF False] have r: "r\<^sup>2 \<le> n div 4" "n div 4 < (r + 1)\<^sup>2" by (simp_all add: r_def)
    have "4 * r\<^sup>2 \<le> n" "n < 4 * (r + 1)\<^sup>2" using r by linarith+
    then have "(2 * r)\<^sup>2 \<le> n" "n < (2 * r + 2)\<^sup>2" by (simp_all add: power2_eq_square algebra_simps)
    then show "(isqrt n)\<^sup>2 \<le> n \<and> n < (isqrt n + 1)\<^sup>2"
      using False by (simp add: isqrt.simps [of n] Let_def r_def [symmetric])
  qed
qed

end
