(* ===== verification/Reputation.thy ===== *)
theory Reputation
  imports Scheduler FloatArith Machine
begin

text \<open>
  \<^verbatim>\<open>src/src/compute/reputation.rs\<close> and its wrapper \<^verbatim>\<open>src/src/agents/reputation_oracle.rs\<close>: the record kept of every compute worker and
  the score computed from it, in the floating-point arithmetic of \<open>FloatArith\<close>. A new record reads the clock on its own, so the
  operations take two times. Counters wrap as in the release profile. Iteration orders of the hash maps are arguments.
\<close>

section \<open>Records\<close>

record reputation_record =
  rr_address :: string
  rr_score :: f64
  rr_jobs_completed :: u64
  rr_jobs_failed :: u64
  rr_jobs_disputed :: u64
  rr_total_compute_time_ms :: u64
  rr_avg_latency_ms :: f64
  rr_first_seen :: u64
  rr_last_active :: u64
  rr_ip_hash :: "string option"

definition reputation_record_new :: "u64 \<Rightarrow> string \<Rightarrow> reputation_record" where
  "reputation_record_new now address =
     \<lparr>rr_address = address, rr_score = f64_lit 50, rr_jobs_completed = 0, rr_jobs_failed = 0, rr_jobs_disputed = 0,
      rr_total_compute_time_ms = 0, rr_avg_latency_ms = 0, rr_first_seen = now, rr_last_active = now, rr_ip_hash = None\<rparr>"

definition success_rate :: "reputation_record \<Rightarrow> u64 \<Rightarrow> f64" where
  "success_rate r total_jobs = f64_mul (f64_div (f64_of_u64 (rr_jobs_completed r)) (f64_of_u64 total_jobs)) (f64_lit 100)"

definition longevity :: "reputation_record \<Rightarrow> f64" where
  "longevity r =
     (let age_ms = saturating_sub (rr_last_active r) (rr_first_seen r);
          age_days = f64_div (f64_of_u64 age_ms) (f64_lit 86400000)
      in f64_min (f64_mul (f64_div age_days (f64_lit 30)) (f64_lit 10)) (f64_lit 10))"

definition volume :: "reputation_record \<Rightarrow> f64" where
  "volume r = f64_min (f64_mul (f64_div (f64_of_u64 (rr_jobs_completed r)) (f64_lit 100)) (f64_lit 10)) (f64_lit 10)"

definition latency_score :: "reputation_record \<Rightarrow> f64" where
  "latency_score r =
     (if f64_lt 0 (rr_avg_latency_ms r)
      then f64_clamp (f64_lit 0) (f64_lit 10) (f64_sub (f64_lit 10) (f64_div (rr_avg_latency_ms r) (f64_lit 1000)))
      else f64_lit 5)"

definition recalculate :: "reputation_record \<Rightarrow> reputation_record" where
  "recalculate r =
     (let total_jobs = rr_jobs_completed r + rr_jobs_failed r + rr_jobs_disputed r
      in if total_jobs = 0 then r\<lparr>rr_score := f64_lit 50\<rparr>
         else let dispute_penalty = f64_mul (f64_of_u64 (rr_jobs_disputed r)) (f64_lit 5)
              in r\<lparr>rr_score := f64_clamp (f64_lit 0) (f64_lit 100)
                     (f64_sub (f64_add (f64_add (f64_add (f64_mul (success_rate r total_jobs) (f64_lit (1 / 2))) (longevity r)) (volume r))
                                (latency_score r)) dispute_penalty)\<rparr>)"

section \<open>The oracle\<close>

type_synonym rep_oracle = "(string, reputation_record) tree"

definition get_or_create :: "u64 \<Rightarrow> string \<Rightarrow> rep_oracle \<Rightarrow> reputation_record \<times> rep_oracle" where
  "get_or_create now address m =
     (case tree_get m address of
        Some r \<Rightarrow> (r, m)
      | None \<Rightarrow> let r = reputation_record_new now address in (r, tree_insert address r m))"

definition get_score :: "string \<Rightarrow> rep_oracle \<Rightarrow> f64" where
  "get_score address m = (case tree_get m address of Some r \<Rightarrow> rr_score r | None \<Rightarrow> f64_lit 50)"

text \<open>The log line of a success slices the address, which panics inside a multi-byte character.\<close>

definition record_success :: "u64 \<Rightarrow> u64 \<Rightarrow> string \<Rightarrow> u64 \<Rightarrow> rep_oracle \<Rightarrow> (rep_oracle, unit) res" where
  "record_success created now address execution_time_ms m =
     (let r = fst (get_or_create created address m);
          n = rr_jobs_completed r + 1;
          t = rr_total_compute_time_ms r + execution_time_ms;
          r' = recalculate (r\<lparr>rr_jobs_completed := n, rr_total_compute_time_ms := t,
                              rr_avg_latency_ms := f64_div (f64_of_u64 t) (f64_of_u64 n), rr_last_active := now\<rparr>)
      in res_bind (log_prefix address 12) (\<lambda>_. Ok (tree_insert address r' m)))"

definition record_failure :: "u64 \<Rightarrow> u64 \<Rightarrow> string \<Rightarrow> rep_oracle \<Rightarrow> rep_oracle" where
  "record_failure created now address m =
     (let r = fst (get_or_create created address m)
      in tree_insert address (recalculate (r\<lparr>rr_jobs_failed := rr_jobs_failed r + 1, rr_last_active := now\<rparr>)) m)"

definition record_dispute :: "u64 \<Rightarrow> u64 \<Rightarrow> string \<Rightarrow> rep_oracle \<Rightarrow> rep_oracle" where
  "record_dispute created now address m =
     (let r = fst (get_or_create created address m)
      in tree_insert address (recalculate (r\<lparr>rr_jobs_disputed := rr_jobs_disputed r + 1, rr_last_active := now\<rparr>)) m)"

text \<open>Sorting by falling score; the comparison is a total preorder because no score is a NaN.\<close>

definition leaderboard :: "(reputation_record list \<Rightarrow> reputation_record list) \<Rightarrow> rep_oracle \<Rightarrow> reputation_record list" where
  "leaderboard order m = sort_key (\<lambda>r. - f64_key (rr_score r)) (order (tree_values m))"

definition ip_groups :: "reputation_record list \<Rightarrow> (string, string list) tree" where
  "ip_groups rs =
     foldl (\<lambda>g r. case rr_ip_hash r of
          None \<Rightarrow> g
        | Some ip \<Rightarrow> tree_insert ip ((case tree_get g ip of Some as \<Rightarrow> as | None \<Rightarrow> []) @ [rr_address r]) g) [] rs"

definition detect_sybils ::
    "(reputation_record list \<Rightarrow> reputation_record list) \<Rightarrow> (string list list \<Rightarrow> string list list) \<Rightarrow> rep_oracle \<Rightarrow> string list list" where
  "detect_sybils order order' m = filter (\<lambda>g. 3 < length g) (order' (tree_values (ip_groups (order (tree_values m)))))"

definition worker_count :: "rep_oracle \<Rightarrow> nat" where "worker_count m = length m"

section \<open>Scores stay between 0 and 100\<close>

definition rating_ok :: "reputation_record \<Rightarrow> bool" where
  "rating_ok r \<longleftrightarrow> f64_in 0 100 (rr_score r) \<and> f64_in 0 (2 ^ 64) (rr_avg_latency_ms r)"

lemma reputation_lits:
  "f64_in 5 5 (f64_lit 5)" "f64_in 10 10 (f64_lit 10)" "f64_in 30 30 (f64_lit 30)" "f64_in 50 50 (f64_lit 50)"
  "f64_in 86400000 86400000 (f64_lit 86400000)" "f64_in (1 / 2) (1 / 2) (f64_lit (1 / 2))"
  unfolding f64_lit_def by (rule f64_in_literal; simp add: dyadic_numeral dyadicI [of _ 1 "- 1"] power_int_minus_divide)+

lemma dyadic_powers:
  "dyadic 295147905179352825856" "dyadic 2361183241434822606848" "dyadic 4722366482869645213696"
  "dyadic 9444732965739290427392" "dyadic 18889465931478580854784" "dyadic 147573952589676412928"
  using dyadic_power [of 68] dyadic_power [of 71] dyadic_power [of 72] dyadic_power [of 73] dyadic_power [of 74] dyadic_power [of 67]
  by simp_all

lemma success_rate_range: "jobs \<noteq> 0 \<Longrightarrow> f64_in 0 (2 ^ 71) (success_rate r jobs)"
proof -
  assume "jobs \<noteq> 0"
  then have t: "f64_in 1 (2 ^ 64) (f64_of_u64 jobs)" using f64_in_u64 [of jobs] by simp
  have "f64_in 0 (2 ^ 64) (f64_div (f64_of_u64 (rr_jobs_completed r)) (f64_of_u64 jobs))"
    by (rule f64_in_div [OF f64_in_u64_nonneg t]) (simp_all add: dyadics)
  from f64_in_mul [OF this f64_lits(4), of 0 "2 ^ 71"] show ?thesis
    unfolding success_rate_def by (simp add: dyadics dyadic_powers)
qed

lemma tenfold_range: "f64_in 0 (2 ^ 64) x \<Longrightarrow> f64_in 0 10 (f64_min (f64_mul x (f64_lit 10)) (f64_lit 10))"
  using f64_in_min [OF f64_in_mul [OF _ reputation_lits(2), of 0 "2 ^ 64" x 0 "2 ^ 68"] reputation_lits(2), of 0]
  by (simp add: dyadics dyadic_powers)

lemma longevity_range: "f64_in 0 10 (longevity r)"
proof -
  let ?d = "f64_div (f64_of_u64 (saturating_sub (rr_last_active r) (rr_first_seen r))) (f64_lit 86400000)"
  have "f64_in 0 (2 ^ 64) ?d" by (rule f64_in_div [OF f64_in_u64_nonneg reputation_lits(5)]) (simp_all add: dyadics)
  then have "f64_in 0 (2 ^ 64) (f64_div ?d (f64_lit 30))" by (rule f64_in_div [OF _ reputation_lits(3)]) (simp_all add: dyadics)
  then show ?thesis unfolding longevity_def Let_def by (rule tenfold_range)
qed

lemma volume_range: "f64_in 0 10 (volume r)"
  unfolding volume_def
  by (intro tenfold_range f64_in_div [OF f64_in_u64_nonneg f64_lits(4)]) (simp_all add: dyadics)

lemma latency_score_range:
  assumes "f64_in 0 (2 ^ 64) (rr_avg_latency_ms r)"
  shows "f64_in 0 10 (latency_score r)"
proof -
  have "f64_in 0 (2 ^ 64) (f64_div (rr_avg_latency_ms r) (f64_lit 1000))"
    by (rule f64_in_div [OF assms f64_lits(5)]) (simp_all add: dyadics)
  from f64_in_sub [OF reputation_lits(2) this, of "- (2 ^ 64)" 10]
  have "f64_in (- (2 ^ 64)) 10 (f64_sub (f64_lit 10) (f64_div (rr_avg_latency_ms r) (f64_lit 1000)))" by (simp add: dyadics)
  from f64_in_clamp [OF this f64_lits(1) reputation_lits(2)] f64_in_weaken [OF reputation_lits(1), of 0 10]
  show ?thesis by (simp add: latency_score_def)
qed

lemma recalculate_ok:
  assumes "f64_in 0 (2 ^ 64) (rr_avg_latency_ms r)"
  shows "rating_ok (recalculate r)"
proof (cases "rr_jobs_completed r + rr_jobs_failed r + rr_jobs_disputed r = 0")
  case True
  with assms f64_in_weaken [OF reputation_lits(4), of 0 100] show ?thesis by (simp add: recalculate_def rating_ok_def)
next
  case False
  let ?t = "rr_jobs_completed r + rr_jobs_failed r + rr_jobs_disputed r"
  have half: "f64_in 0 (2 ^ 71) (f64_mul (success_rate r ?t) (f64_lit (1 / 2)))"
    by (rule f64_in_mul [OF success_rate_range [OF False] reputation_lits(6)]) (simp_all add: dyadics dyadic_powers)
  have pen: "f64_in 0 (2 ^ 67) (f64_mul (f64_of_u64 (rr_jobs_disputed r)) (f64_lit 5))"
    by (rule f64_in_mul [OF f64_in_u64_nonneg reputation_lits(1)]) (simp_all add: dyadics dyadic_powers)
  note one = f64_in_add [OF half longevity_range, of 0 "2 ^ 72"]
  note two = f64_in_add [OF one volume_range, of 0 "2 ^ 73"]
  note three = f64_in_add [OF two latency_score_range [OF assms], of 0 "2 ^ 74"]
  note four = f64_in_sub [OF three pen, of "- (2 ^ 67)" "2 ^ 74"]
  note five = f64_in_clamp [OF four f64_lits(1,4)]
  have "f64_in 0 100 (rr_score (recalculate r))"
    unfolding recalculate_def Let_def by (simp add: False) (rule five; simp add: dyadics dyadic_powers)
  with assms show ?thesis using False by (simp add: rating_ok_def recalculate_def Let_def)
qed

section \<open>Runs\<close>

datatype rep_event = Look u64 string | Success u64 u64 string u64 | Failure u64 u64 string | Dispute u64 u64 string

fun rep_step :: "rep_event \<Rightarrow> rep_oracle \<Rightarrow> (rep_oracle, unit) res" where
  "rep_step (Look now address) m = Ok (snd (get_or_create now address m))"
| "rep_step (Success created now address t) m = record_success created now address t m"
| "rep_step (Failure created now address) m = Ok (record_failure created now address m)"
| "rep_step (Dispute created now address) m = Ok (record_dispute created now address m)"

definition entry_ok :: "nat \<Rightarrow> string \<Rightarrow> reputation_record \<Rightarrow> bool" where
  "entry_ok n address r \<longleftrightarrow> rr_address r = address \<and> rating_ok r \<and> unat (rr_jobs_completed r) \<le> n"

definition oracle_ok :: "nat \<Rightarrow> rep_oracle \<Rightarrow> bool" where
  "oracle_ok n m \<longleftrightarrow> tree_wf m \<and> (\<forall>a r. tree_get m a = Some r \<longrightarrow> entry_ok n a r)"

lemma recalculate_fields [simp]:
  "rr_address (recalculate r) = rr_address r" "rr_jobs_completed (recalculate r) = rr_jobs_completed r"
  "rr_jobs_failed (recalculate r) = rr_jobs_failed r" "rr_jobs_disputed (recalculate r) = rr_jobs_disputed r"
  by (simp_all add: recalculate_def Let_def)

lemma oracle_ok_insert: "oracle_ok n m \<Longrightarrow> n \<le> n' \<Longrightarrow> entry_ok n' a r \<Longrightarrow> oracle_ok n' (tree_insert a r m)"
  unfolding oracle_ok_def entry_ok_def by (auto simp: tree_simps dest: order_trans)

lemma new_entry_ok: "entry_ok n a (reputation_record_new now a)"
  using f64_in_weaken [OF reputation_lits(4), of 0 100] f64_value_zero
  by (simp add: entry_ok_def rating_ok_def reputation_record_new_def f64_in_def signed_def)

lemma get_or_create_ok:
  assumes "oracle_ok n m"
  shows "entry_ok n a (fst (get_or_create now a m))" "oracle_ok n (snd (get_or_create now a m))"
  using assms new_entry_ok [of n a now]
  by (auto simp: get_or_create_def Let_def oracle_ok_def tree_simps split: option.split)

lemma average_latency_range: "n \<noteq> 0 \<Longrightarrow> f64_in 0 (2 ^ 64) (f64_div (f64_of_u64 t) (f64_of_u64 n))"
  using f64_in_div [OF f64_in_u64_nonneg, of 1 "2 ^ 64" "f64_of_u64 n" 0 "2 ^ 64" t] f64_in_u64 [of n] by (simp add: dyadics)

interpretation reputation_run: weighted_machine rep_step "\<lambda>e. True" "\<lambda>e. 1" "2 ^ 64" oracle_ok
proof
  fix n m e m'
  assume ok: "oracle_ok n m" and st: "rep_step e m = Ok m'" and lim: "n + 1 < (2 ^ 64 :: nat)"
  show "oracle_ok (n + 1) m'"
  proof (cases e)
    case (Look now a)
    with st have "m' = snd (get_or_create now a m)" by simp
    with get_or_create_ok(2) [OF ok] show ?thesis unfolding oracle_ok_def entry_ok_def by (auto intro: le_SucI)
  next
    case (Success created now a t)
    define r where "r = fst (get_or_create created a m)"
    have r: "rr_address r = a" "unat (rr_jobs_completed r) \<le> n"
      using get_or_create_ok(1) [OF ok] by (simp_all add: entry_ok_def r_def)
    have c: "unat (rr_jobs_completed r + 1) = unat (rr_jobs_completed r) + 1"
      using r(2) lim by (intro unat_add_no_wrap [THEN trans]) simp_all
    then have "rr_jobs_completed r + 1 \<noteq> 0" by (metis add_is_0 one_neq_zero unat_0)
    then have lat: "f64_in 0 (2 ^ 64) (f64_div (f64_of_u64 (rr_total_compute_time_ms r + t)) (f64_of_u64 (rr_jobs_completed r + 1)))"
      by (rule average_latency_range)
    let ?r = "r\<lparr>rr_jobs_completed := rr_jobs_completed r + 1, rr_total_compute_time_ms := rr_total_compute_time_ms r + t,
        rr_avg_latency_ms := f64_div (f64_of_u64 (rr_total_compute_time_ms r + t)) (f64_of_u64 (rr_jobs_completed r + 1)),
        rr_last_active := now\<rparr>"
    have "rating_ok (recalculate ?r)" by (rule recalculate_ok) (use lat in simp)
    then have "entry_ok (n + 1) a (recalculate ?r)" using r c by (simp add: entry_ok_def)
    with Success st show ?thesis
      by (auto simp: record_success_def Let_def res_simps r_def [symmetric] intro!: oracle_ok_insert [OF ok])
  next
    case (Failure created now a)
    have "entry_ok n a (fst (get_or_create created a m))" by (rule get_or_create_ok [OF ok])
    with Failure st show ?thesis
      by (auto simp: record_failure_def Let_def entry_ok_def rating_ok_def [of "fst _"] intro!: oracle_ok_insert [OF ok] recalculate_ok)
  next
    case (Dispute created now a)
    have "entry_ok n a (fst (get_or_create created a m))" by (rule get_or_create_ok [OF ok])
    with Dispute st show ?thesis
      by (auto simp: record_dispute_def Let_def entry_ok_def rating_ok_def [of "fst _"] intro!: oracle_ok_insert [OF ok] recalculate_ok)
  qed
qed

text \<open>
  C32. Worker scores keep their scale: after fewer than 2 ^ 64 recorded outcomes on an empty oracle, in any order and for any
  workers, execution times and clock readings, every worker's score is a finite number between 0 and 100, and the leaderboard lists
  exactly the workers on record with falling scores.
\<close>

theorem reputation_scores_in_range:
  assumes "res_fold rep_step es [] = Ok m" "length es < 2 ^ 64" "iteration_order order"
  shows "f64_in 0 100 (get_score a m) \<and> sorted_wrt (\<lambda>x y. f64_ge (rr_score x) (rr_score y)) (leaderboard order m) \<and>
     rr_address ` set (leaderboard order m) = tree_keys m"
proof -
  have ok: "oracle_ok (length es) m"
    using reputation_run.run_inv [of 0 "[]" es m] assms(1,2) by (simp add: oracle_ok_def tree_simps list_all_iff sum_list_triv)
  then have "f64_in 0 100 (get_score a m)"
    using f64_in_weaken [OF reputation_lits(4), of 0 100]
    by (auto simp: get_score_def oracle_ok_def entry_ok_def rating_ok_def split: option.split)
  moreover have vals: "set (leaderboard order m) = snd ` set m"
    by (simp add: leaderboard_def tree_values_def iteration_order_set [OF assms(3)])
  have ent: "entry_ok (length es) k r" if "(k, r) \<in> set m" for k r
    using ok that tree_get_Some_iff [of m k r] by (simp add: oracle_ok_def)
  have "sorted_wrt (\<lambda>x y. f64_ge (rr_score x) (rr_score y)) (leaderboard order m)"
  proof (rule sorted_wrt_mono_rel)
    show "sorted_wrt (\<lambda>x y. - f64_key (rr_score x) \<le> - f64_key (rr_score y)) (leaderboard order m)"
      using sorted_sort_key [of "\<lambda>r. - f64_key (rr_score r)"] unfolding leaderboard_def sorted_map .
    fix x y
    assume "x \<in> set (leaderboard order m)" "y \<in> set (leaderboard order m)" "- f64_key (rr_score x) \<le> - f64_key (rr_score y)"
    moreover have "\<not> f64_is_nan (rr_score z)" if z: "z \<in> set (leaderboard order m)" for z
    proof -
      obtain k where "(k, z) \<in> set m" using z unfolding vals by auto
      from ent [OF this] show ?thesis unfolding entry_ok_def rating_ok_def by (blast dest: f64_in_not_nan)
    qed
    ultimately show "f64_ge (rr_score x) (rr_score y)" by (simp add: f64_ge_def)
  qed
  moreover have "rr_address ` set (leaderboard order m) = tree_keys m"
  proof -
    have "rr_address r = k" if "(k, r) \<in> set m" for k r using ent [OF that] by (simp add: entry_ok_def)
    then have "map (rr_address \<circ> snd) m = map fst m" by (simp add: split_beta)
    then show ?thesis unfolding vals tree_keys_def by (metis image_set list.map_comp set_map)
  qed
  ultimately show ?thesis by blast
qed

definition sample_outcomes :: "rep_event list" where
  "sample_outcomes = [Dispute 0 5 ''b'', Failure 6 6 ''c'']"

lemma sample_outcomes_run: "\<exists>m. res_fold rep_step sample_outcomes [] = Ok m"
  by (simp add: sample_outcomes_def)

theorem reputation_scores_in_range_witness:
  "\<exists>m. res_fold rep_step sample_outcomes [] = Ok m \<and> f64_in 0 100 (get_score ''b'' m) \<and>
     sorted_wrt (\<lambda>x y. f64_ge (rr_score x) (rr_score y)) (leaderboard (\<lambda>xs. xs) m)"
proof -
  obtain m where m: "res_fold rep_step sample_outcomes [] = Ok m" using sample_outcomes_run by blast
  have "length sample_outcomes < 2 ^ 64" by (simp add: sample_outcomes_def)
  from reputation_scores_in_range [OF m this iteration_order_id, of "''b''"] m show ?thesis by blast
qed

end
