(* ===== verification/ArobiFs.thy ===== *)
theory ArobiFs
  imports Crypto Config
begin

text \<open>
  \<^verbatim>\<open>src/src/fs/types.rs\<close>, \<^verbatim>\<open>src/src/fs/chunker.rs\<close> and \<^verbatim>\<open>src/src/fs/local_store.rs\<close>: splitting a file into
  content-addressed chunks with parity shards, the local chunk store, and putting a file together again.
  The Reed-Solomon crate is the pair of arguments \<open>rs_encode\<close> and \<open>rs_reconstruct\<close>. The blob directory is a
  container from chunk ids to bytes; ids are taken as plain file names, which the hexadecimal ids of
  stored chunks are.
\<close>

definition RS_DATA_SHARDS :: nat where "RS_DATA_SHARDS = 4"
definition RS_PARITY_SHARDS :: nat where "RS_PARITY_SHARDS = 2"
definition RS_TOTAL_SHARDS :: nat where "RS_TOTAL_SHARDS = RS_DATA_SHARDS + RS_PARITY_SHARDS"
definition DEFAULT_REPLICAS :: u8 where "DEFAULT_REPLICAS = 3"
definition MAX_FILE_SIZE :: nat where "MAX_FILE_SIZE = 10 * 1024 * 1024 * 1024"
definition MAX_LOCAL_CHUNKS :: nat where "MAX_LOCAL_CHUNKS = 400000"

datatype shard_type = Data | Parity u32

record chunk_meta =
  cm_chunk_id :: string
  cm_file_id :: string
  cm_index :: u32
  cm_shard_type :: shard_type
  cm_size :: u32
  cm_stored_at :: u64

record chunk_ref =
  cr_chunk_id :: string
  cr_index :: u32
  cr_shard_type :: shard_type
  cr_size :: u32

datatype encryption_meta = No_encryption | Aes256Gcm string bytes

record pin_policy =
  pp_min_replicas :: u8
  pp_max_replicas :: u8
  pp_pin_duration_secs :: u64
  pp_reward_per_epoch :: u64

definition pin_policy_default :: pin_policy where
  "pin_policy_default = \<lparr>pp_min_replicas = DEFAULT_REPLICAS, pp_max_replicas = 10, pp_pin_duration_secs = 0,
     pp_reward_per_epoch = 0\<rparr>"

record file_manifest =
  fm_file_id :: string
  fm_name :: string
  fm_total_size :: u64
  fm_chunk_count :: u32
  fm_parity_count :: u32
  fm_chunks :: "chunk_ref list"
  fm_owner :: string
  fm_encryption :: encryption_meta
  fm_created_at :: u64
  fm_pin_policy :: pin_policy

record pin_record =
  pr_file_id :: string
  pr_pinner :: string
  pr_deposit_aura :: u64
  pr_pin_policy :: pin_policy
  pr_pinned_at :: u64
  pr_expires_at :: u64

record storage_challenge =
  sc_challenge_id :: string
  sc_chunk_id :: string
  sc_byte_ranges :: "(u64 \<times> u64) list"
  sc_nonce :: bytes
  sc_deadline_ms :: u64

record storage_proof =
  sp_challenge_id :: string
  sp_chunk_id :: string
  sp_proof_hash :: string
  sp_prover :: string
  sp_timestamp :: u64

record storage_stats =
  ss_total_chunks :: u64
  ss_total_bytes :: u64
  ss_total_files :: u64
  ss_total_pins :: u64
  ss_available_bytes :: u64
  ss_storage_proofs_passed :: u64
  ss_storage_proofs_failed :: u64

section \<open>Chunking\<close>

datatype fs_error =
    Empty_data | File_too_large nat | Rs_failed | Wrong_shard_count nat | Too_few_shards nat | Missing_data_shard
  | Chunk_id_mismatch string string | Storage_full nat | Manifest_not_found string | Missing_chunk string string

text \<open>\<open>slice::chunks\<close> for a positive size.\<close>

function slice_chunks :: "nat \<Rightarrow> 'a list \<Rightarrow> 'a list list" where
  "slice_chunks n xs = (if xs = [] \<or> n = 0 then [] else take n xs # slice_chunks n (drop n xs))"
  by pat_completeness auto
termination
  by (relation "measure (\<lambda>(n, xs). length xs)") auto

declare slice_chunks.simps [simp del]

definition resize :: "nat \<Rightarrow> bytes \<Rightarrow> bytes" where
  "resize n v = take n v @ replicate (n - length v) (CHR 0x00)"

definition encode_group :: "(bytes list \<Rightarrow> bytes list option) \<Rightarrow> bytes list \<Rightarrow> (bytes list, fs_error) res" where
  "encode_group rs_encode grp =
     (let max_size = foldr max (map length grp) 0;
          padded = map (resize max_size) grp;
          full = padded @ replicate (RS_DATA_SHARDS - length padded) (replicate max_size (CHR 0x00))
      in case rs_encode full of None \<Rightarrow> Err Rs_failed | Some parity \<Rightarrow> Ok parity)"

type_synonym shard = "string \<times> shard_type \<times> bytes"

definition content_id :: "primitives \<Rightarrow> bytes \<Rightarrow> string" where
  "content_id p data = hex_encode p (blake3 p data)"

definition chunk_group ::
    "primitives \<Rightarrow> (bytes list \<Rightarrow> bytes list option) \<Rightarrow> bytes list \<Rightarrow> shard list \<Rightarrow> (shard list, fs_error) res" where
  "chunk_group p rs_encode grp result =
     res_bind (encode_group rs_encode grp) (\<lambda>parity.
       Ok (result @ map (\<lambda>b. (content_id p b, Data, b)) grp
             @ map (\<lambda>(i, b). (content_id p b, Parity (of_nat i), b)) (enumerate 0 parity)))"

definition chunk_file ::
    "primitives \<Rightarrow> (bytes list \<Rightarrow> bytes list option) \<Rightarrow> bytes \<Rightarrow> (shard list, fs_error) res" where
  "chunk_file p rs_encode data =
     (if data = [] then Err Empty_data
      else if MAX_FILE_SIZE < length data then Err (File_too_large (length data))
      else let data_chunks = slice_chunks CHUNK_SIZE data
           in res_fold (chunk_group p rs_encode) (slice_chunks RS_DATA_SHARDS data_chunks) [])"

definition reconstruct_group ::
    "(bytes option list \<Rightarrow> bytes option list option) \<Rightarrow> bytes option list \<Rightarrow> (bytes, fs_error) res" where
  "reconstruct_group rs_reconstruct shards =
     (if length shards \<noteq> RS_TOTAL_SHARDS then Err (Wrong_shard_count (length shards))
      else let present = length (filter (\<lambda>s. s \<noteq> None) shards) in
        if present < RS_DATA_SHARDS then Err (Too_few_shards present)
        else
          let shard_size = length (hd (List.map_filter (\<lambda>s. s) shards));
              sized = map (map_option (resize shard_size)) shards
          in case rs_reconstruct sized of
               None \<Rightarrow> Err Rs_failed
             | Some out \<Rightarrow>
                 if None \<in> set (take RS_DATA_SHARDS out) then Err Missing_data_shard
                 else Ok (concat (List.map_filter (\<lambda>s. s) (take RS_DATA_SHARDS out))))"

definition build_manifest :: "primitives \<Rightarrow> u64 \<Rightarrow> string \<Rightarrow> u64 \<Rightarrow> string \<Rightarrow> shard list \<Rightarrow> file_manifest" where
  "build_manifest p now_ms name total_size owner chunks =
     (let chunk_refs = map (\<lambda>(idx, (i, t, b)). \<lparr>cr_chunk_id = i, cr_index = of_nat idx, cr_shard_type = t,
                                                 cr_size = of_nat (length b)\<rparr>) (enumerate 0 chunks);
          data_count = of_nat (length (filter (\<lambda>(_, t, _). t = Data) chunks)) :: u32;
          parity_count = of_nat (length (filter (\<lambda>(_, t, _). t \<noteq> Data) chunks)) :: u32;
          id_input = name @ ''|'' @ dec64 total_size @ ''|'' @ owner @ ''|'' @ dec (unat data_count) @ ''|'' @ dec64 now_ms
      in \<lparr>fm_file_id = content_id p id_input, fm_name = name, fm_total_size = total_size,
          fm_chunk_count = data_count, fm_parity_count = parity_count, fm_chunks = chunk_refs, fm_owner = owner,
          fm_encryption = No_encryption, fm_created_at = now_ms, fm_pin_policy = pin_policy_default\<rparr>)"

section \<open>The local store\<close>

record chunk_store =
  st_blobs :: "(string, bytes) tree"
  st_index :: "(string, chunk_meta) tree"
  st_manifests :: "(string, file_manifest) tree"
  st_pins :: "(string, pin_record) tree"
  st_proofs :: "(string, storage_proof) tree"

definition chunk_count :: "chunk_store \<Rightarrow> nat" where
  "chunk_count s = length (st_index s)"

definition put_chunk :: "primitives \<Rightarrow> chunk_meta \<Rightarrow> bytes \<Rightarrow> chunk_store \<Rightarrow> (chunk_store, fs_error) res" where
  "put_chunk p meta data s =
     (let computed_id = content_id p data in
      if computed_id \<noteq> cm_chunk_id meta then Err (Chunk_id_mismatch (cm_chunk_id meta) computed_id)
      else if MAX_LOCAL_CHUNKS \<le> chunk_count s then Err (Storage_full (chunk_count s))
      else Ok (s\<lparr>st_blobs := tree_insert (cm_chunk_id meta) data (st_blobs s),
                 st_index := tree_insert (cm_chunk_id meta) meta (st_index s)\<rparr>))"

definition put_manifest :: "file_manifest \<Rightarrow> chunk_store \<Rightarrow> chunk_store" where
  "put_manifest m s = s\<lparr>st_manifests := tree_insert (fm_file_id m) m (st_manifests s)\<rparr>"

definition put_pin :: "pin_record \<Rightarrow> chunk_store \<Rightarrow> chunk_store" where
  "put_pin r s = s\<lparr>st_pins := tree_insert (pr_file_id r) r (st_pins s)\<rparr>"

definition put_storage_proof :: "storage_proof \<Rightarrow> chunk_store \<Rightarrow> chunk_store" where
  "put_storage_proof r s = s\<lparr>st_proofs := tree_insert (sp_challenge_id r) r (st_proofs s)\<rparr>"

definition get_chunk_data :: "string \<Rightarrow> chunk_store \<Rightarrow> bytes option" where
  "get_chunk_data i s = tree_get (st_blobs s) i"

definition get_chunk_meta :: "string \<Rightarrow> chunk_store \<Rightarrow> chunk_meta option" where
  "get_chunk_meta i s = tree_get (st_index s) i"

definition has_chunk :: "string \<Rightarrow> chunk_store \<Rightarrow> bool" where
  "has_chunk i s = (tree_get (st_index s) i \<noteq> None)"

definition get_manifest :: "string \<Rightarrow> chunk_store \<Rightarrow> file_manifest option" where
  "get_manifest i s = tree_get (st_manifests s) i"

definition get_pin :: "string \<Rightarrow> chunk_store \<Rightarrow> pin_record option" where
  "get_pin i s = tree_get (st_pins s) i"

text \<open>\<open>&data[start..end]\<close> panics when the start is behind the end.\<close>

definition range_bytes :: "bytes \<Rightarrow> u64 \<times> u64 \<Rightarrow> (bytes, 'e) res" where
  "range_bytes data r =
     (let start = unat (fst r); stop = min (unat (snd r)) (length data) in
      if length data \<le> start then Ok []
      else if stop < start then Panic
      else Ok (take (stop - start) (drop start data)))"

definition read_ranges :: "bytes \<Rightarrow> (u64 \<times> u64) list \<Rightarrow> (bytes, 'e) res" where
  "read_ranges data ranges = res_fold (\<lambda>r acc. res_bind (range_bytes data r) (\<lambda>b. Ok (acc @ b))) ranges []"

definition read_chunk_ranges :: "string \<Rightarrow> (u64 \<times> u64) list \<Rightarrow> chunk_store \<Rightarrow> (bytes option, fs_error) res" where
  "read_chunk_ranges i ranges s =
     (case get_chunk_data i s of
        None \<Rightarrow> Ok None
      | Some data \<Rightarrow> res_bind (read_ranges data ranges) (\<lambda>b. Ok (Some b)))"

definition delete_chunk :: "string \<Rightarrow> chunk_store \<Rightarrow> bool \<times> chunk_store" where
  "delete_chunk i s = (has_chunk i s, s\<lparr>st_index := tree_remove i (st_index s), st_blobs := tree_remove i (st_blobs s)\<rparr>)"

definition delete_pin :: "string \<Rightarrow> chunk_store \<Rightarrow> bool \<times> chunk_store" where
  "delete_pin i s = (tree_get (st_pins s) i \<noteq> None, s\<lparr>st_pins := tree_remove i (st_pins s)\<rparr>)"

definition total_bytes :: "chunk_store \<Rightarrow> u64" where
  "total_bytes s = sum_list (map (\<lambda>m. ucast (cm_size m)) (tree_values (st_index s)))"

definition list_chunk_ids :: "chunk_store \<Rightarrow> string list" where
  "list_chunk_ids s = map fst (st_index s)"

definition list_manifests :: "chunk_store \<Rightarrow> file_manifest list" where
  "list_manifests s = tree_values (st_manifests s)"

definition store_stats :: "u64 \<Rightarrow> chunk_store \<Rightarrow> storage_stats" where
  "store_stats available_bytes s =
     \<lparr>ss_total_chunks = of_nat (chunk_count s), ss_total_bytes = total_bytes s,
      ss_total_files = of_nat (length (st_manifests s)), ss_total_pins = of_nat (length (st_pins s)),
      ss_available_bytes = available_bytes, ss_storage_proofs_passed = of_nat (length (st_proofs s)),
      ss_storage_proofs_failed = 0\<rparr>"

definition reassemble_file :: "string \<Rightarrow> chunk_store \<Rightarrow> (bytes, fs_error) res" where
  "reassemble_file file_id s =
     (case get_manifest file_id s of
        None \<Rightarrow> Err (Manifest_not_found file_id)
      | Some m \<Rightarrow>
          let data_refs = sort_key cr_index (filter (\<lambda>c. cr_shard_type c = Data) (fm_chunks m))
          in res_bind (res_fold (\<lambda>c file_data.
                 case get_chunk_data (cr_chunk_id c) s of
                   None \<Rightarrow> Err (Missing_chunk (cr_chunk_id c) file_id)
                 | Some b \<Rightarrow> Ok (file_data @ b)) data_refs [])
               (\<lambda>file_data. Ok (take (unat (fm_total_size m)) file_data)))"

end
