(* ===== verification/Poi.thy ===== *)
theory Poi
  imports Block ArobiFs FloatArith
begin

text \<open>
  \<^verbatim>\<open>src/src/poi.rs\<close>: challenges, the eight models that solve and check them, and the proof of intelligence a block carries. The
  bytes the random generator yields are the record \<open>rng\<close>, the time a solver took is \<open>elapsed\<close>, the serialisation of challenges and
  solutions by bincode is the record \<open>poi_codec\<close>. Of the floating-point functions only those whose precision the language leaves open
  are parameters (\<open>maths\<close>): the logarithm, the exponential, an integer power, and whether a sum starts from zero or from negative zero.
\<close>

section \<open>Types\<close>

datatype challenge_type =
    PatternRecognition | OptimizationProblem | CryptographicPuzzle | MachineLearningTask | DataAnalysis | StorageProof
  | ComputeProof | InferenceProof

record intelligence_challenge =
  ic_challenge_type :: challenge_type
  ic_difficulty :: u32
  ic_seed :: bytes
  ic_input_data :: bytes
  ic_expected_complexity :: u64
  ic_time_limit_ms :: u64

record challenge_solution =
  cs_solution_data :: bytes
  cs_computation_steps :: u64
  cs_memory_used :: u64
  cs_time_taken_ms :: u64
  cs_algorithm_used :: string

datatype poi_error =
    Serialize_challenge | Serialize_solution | Deserialize_challenge | Deserialize_solution | Invalid_computation_hash
  | Invalid_intelligence_score | Time_limit_exceeded | Model_validation_failed

record maths =
  mt_ln :: "f64 \<Rightarrow> f64"
  mt_powi2 :: "f64 \<Rightarrow> f64"
  mt_exp32 :: "f32 \<Rightarrow> f32"
  mt_negative_zero :: bool

record poi_codec =
  bc_challenge :: "intelligence_challenge \<Rightarrow> bytes option"
  bc_read_challenge :: "bytes \<Rightarrow> intelligence_challenge option"
  bc_solution :: "challenge_solution \<Rightarrow> bytes option"
  bc_read_solution :: "bytes \<Rightarrow> challenge_solution option"

record rng =
  rn_word :: u64
  rn_seed :: bytes
  rn_range :: "nat \<Rightarrow> nat \<Rightarrow> nat"
  rn_bytes :: "nat \<Rightarrow> bytes"

text \<open>What bincode and the generator promise.\<close>

definition codec_ok :: "poi_codec \<Rightarrow> bool" where
  "codec_ok bc \<longleftrightarrow>
     (\<forall>x. \<exists>b. bc_challenge bc x = Some b \<and> bc_read_challenge bc b = Some x) \<and>
     (\<forall>x. \<exists>b. bc_solution bc x = Some b \<and> bc_read_solution bc b = Some x)"

definition rng_ok :: "rng \<Rightarrow> bool" where
  "rng_ok r \<longleftrightarrow> (\<forall>lo hi. lo < hi \<longrightarrow> lo \<le> rn_range r lo hi \<and> rn_range r lo hi < hi) \<and> (\<forall>n. length (rn_bytes r n) = n)"

text \<open>Bytes as numbers, and sums over an iterator.\<close>

definition byte_values :: "bytes \<Rightarrow> nat list" where "byte_values data = map of_char data"

definition sorted_bytes :: "bytes \<Rightarrow> bytes" where "sorted_bytes data = map char_of (sort (byte_values data))"

definition f64_sum :: "maths \<Rightarrow> f64 list \<Rightarrow> f64" where
  "f64_sum mt xs = foldl f64_add (f64_rounded (mt_negative_zero mt) 0) xs"

definition f32_sum :: "maths \<Rightarrow> f32 list \<Rightarrow> f32" where
  "f32_sum mt xs = foldl f32_add (f32_rounded (mt_negative_zero mt) 0) xs"

section \<open>Pattern recognition\<close>

fun windows2 :: "'a list \<Rightarrow> 'a list list" where
  "windows2 (x # y # xs) = [x, y] # windows2 (y # xs)"
| "windows2 _ = []"

definition count_patterns :: "bytes \<Rightarrow> (bytes, nat) tree" where
  "count_patterns data =
     foldl (\<lambda>m w. tree_insert w ((case tree_get m w of None \<Rightarrow> 0 | Some n \<Rightarrow> n) + 1) m) [] (windows2 data)"

text \<open>\<open>Iterator::max_by_key\<close> returns the last of several maxima.\<close>

fun max_by_key :: "('a \<Rightarrow> nat) \<Rightarrow> 'a list \<Rightarrow> 'a option" where
  "max_by_key f [] = None"
| "max_by_key f (x # xs) = Some (foldl (\<lambda>m y. if f m \<le> f y then y else m) x xs)"

definition solve_pattern ::
    "((bytes \<times> nat) list \<Rightarrow> (bytes \<times> nat) list) \<Rightarrow> u64 \<Rightarrow> intelligence_challenge \<Rightarrow> challenge_solution" where
  "solve_pattern order elapsed c =
     (let data = ic_input_data c;
          patterns = count_patterns data;
          most_common = (case max_by_key snd (order patterns) of None \<Rightarrow> ([CHR 0x00, CHR 0x00], 0) | Some pc \<Rightarrow> pc)
      in \<lparr>cs_solution_data = fst most_common @ le_bytes 4 (snd most_common),
          cs_computation_steps = of_nat (length data), cs_memory_used = of_nat (length patterns * 16),
          cs_time_taken_ms = elapsed, cs_algorithm_used = ''PatternMatching''\<rparr>)"

definition validate_pattern :: "challenge_solution \<Rightarrow> bool" where
  "validate_pattern s = (cs_solution_data s \<noteq> [] \<and> cs_computation_steps s > 0)"

section \<open>Optimisation\<close>

definition abs_diff :: "u64 \<Rightarrow> u64 \<Rightarrow> u64" where "abs_diff a b = (if a < b then b - a else a - b)"

fun best_partition :: "u64 \<Rightarrow> nat \<Rightarrow> u64 \<Rightarrow> nat \<times> u64 \<Rightarrow> nat list \<Rightarrow> nat \<times> u64" where
  "best_partition target i running best [] = best"
| "best_partition target i running best (v # vs) =
     (let running' = running + of_nat v; diff = abs_diff running' target
      in best_partition target (Suc i) running' (if diff < snd best then (i, diff) else best) vs)"

definition solve_optimization :: "u64 \<Rightarrow> intelligence_challenge \<Rightarrow> challenge_solution" where
  "solve_optimization elapsed c =
     (let data = sort (byte_values (ic_input_data c));
          whole = (\<Sum>b\<leftarrow>data. of_nat b) :: u64;
          (best_split, best_diff) = best_partition (whole div 2) 0 0 (0, - 1) data
      in \<lparr>cs_solution_data = le_bytes 4 best_split @ le64 best_diff,
          cs_computation_steps = of_nat (length data * 2), cs_memory_used = of_nat (length data * 2),
          cs_time_taken_ms = elapsed, cs_algorithm_used = ''PartitionOptimization''\<rparr>)"

definition validate_optimization :: "challenge_solution \<Rightarrow> bool" where
  "validate_optimization s = (12 \<le> length (cs_solution_data s))"

section \<open>Cryptographic puzzle\<close>

definition blake3_chain :: "primitives \<Rightarrow> intelligence_challenge \<Rightarrow> bytes" where
  "blake3_chain p c =
     (let iterations = max (unat (ic_difficulty c)) 10
      in (blake3 p ^^ (iterations - 1)) (blake3 p (ic_input_data c)))"

definition solve_cryptographic :: "primitives \<Rightarrow> u64 \<Rightarrow> intelligence_challenge \<Rightarrow> challenge_solution" where
  "solve_cryptographic p elapsed c =
     \<lparr>cs_solution_data = blake3_chain p c, cs_computation_steps = of_nat (max (unat (ic_difficulty c)) 10), cs_memory_used = 32 * 2,
      cs_time_taken_ms = elapsed, cs_algorithm_used = ''Blake3Chain''\<rparr>"

definition validate_cryptographic :: "primitives \<Rightarrow> intelligence_challenge \<Rightarrow> challenge_solution \<Rightarrow> bool" where
  "validate_cryptographic p c s = (cs_solution_data s = blake3_chain p c)"

section \<open>Machine learning\<close>

definition solve_learning :: "maths \<Rightarrow> u64 \<Rightarrow> intelligence_challenge \<Rightarrow> challenge_solution" where
  "solve_learning mt elapsed c =
     (let data = byte_values (ic_input_data c) in
      if data = [] then
        \<lparr>cs_solution_data = replicate 32 (CHR 0x00), cs_computation_steps = 1, cs_memory_used = 64, cs_time_taken_ms = 0,
         cs_algorithm_used = ''StatisticalML''\<rparr>
      else
        let n = f64_of_nat (length data);
            mean = f64_div (f64_sum mt (map f64_of_nat data)) n;
            variance = f64_div (f64_sum mt (map (\<lambda>b. let diff = f64_sub (f64_of_nat b) mean in f64_mul diff diff) data)) n;
            std_dev = f64_sqrt variance;
            skewness = (if f64_lt 0 std_dev then
                f64_div (f64_sum mt (map (\<lambda>b. let z = f64_div (f64_sub (f64_of_nat b) mean) std_dev
                                              in f64_mul (f64_mul z z) z) data)) n
              else 0);
            freq = map (\<lambda>v. length (filter (\<lambda>b. b = v) data)) [0..<256];
            entropy = f64_sum mt (map (\<lambda>k. let q = f64_div (f64_of_nat k) n in f64_mul (f64_neg q) (mt_ln mt q))
                                    (filter (\<lambda>k. 0 < k) freq))
        in \<lparr>cs_solution_data = le64 mean @ le64 std_dev @ le64 skewness @ le64 entropy,
            cs_computation_steps = of_nat (length data * 5), cs_memory_used = of_nat (256 * 4 + length data),
            cs_time_taken_ms = elapsed, cs_algorithm_used = ''StatisticalML''\<rparr>)"

definition validate_learning :: "challenge_solution \<Rightarrow> bool" where
  "validate_learning s = (length (cs_solution_data s) = 32 \<and> cs_computation_steps s > 0)"

section \<open>Data analysis\<close>

definition solve_analysis :: "u64 \<Rightarrow> intelligence_challenge \<Rightarrow> challenge_solution" where
  "solve_analysis elapsed c =
     (let data = byte_values (ic_input_data c);
          averages = map (\<lambda>chunk. char_of (sum_list chunk div length chunk)) (slice_chunks 32 data)
      in \<lparr>cs_solution_data = averages, cs_computation_steps = of_nat (length data), cs_memory_used = of_nat (length data),
          cs_time_taken_ms = elapsed, cs_algorithm_used = ''ChunkedAnalysis''\<rparr>)"

definition validate_analysis :: "challenge_solution \<Rightarrow> bool" where
  "validate_analysis s = (cs_solution_data s \<noteq> [])"

section \<open>Storage proof\<close>

definition storage_segments :: "bytes \<Rightarrow> bytes list" where
  "storage_segments data = slice_chunks (max 32 (length data div 8)) data"

definition storage_hash :: "primitives \<Rightarrow> intelligence_challenge \<Rightarrow> bytes" where
  "storage_hash p c = blake3 p (ic_seed c @ concat (storage_segments (ic_input_data c)))"

definition padded_leaf :: "primitives \<Rightarrow> bytes \<Rightarrow> bytes" where
  "padded_leaf p leaf = blake3 p (leaf @ replicate (32 - length leaf) (CHR 0x00))"

fun hash_pairs :: "primitives \<Rightarrow> bytes list \<Rightarrow> bytes list" where
  "hash_pairs p (a # b # xs) = blake3 p (a @ b) # hash_pairs p xs"
| "hash_pairs p [a] = [blake3 p a]"
| "hash_pairs p [] = []"

lemma length_hash_pairs: "length (hash_pairs p xs) = (length xs + 1) div 2"
  by (induction p xs rule: hash_pairs.induct) auto

function merkle_top :: "primitives \<Rightarrow> bytes list \<Rightarrow> bytes list" where
  "merkle_top p level = (if 1 < length level then merkle_top p (hash_pairs p level) else level)"
  by auto
termination
  by (relation "measure (\<lambda>(p, level). length level)") (auto simp: length_hash_pairs)

declare merkle_top.simps [simp del]

definition solve_storage :: "primitives \<Rightarrow> u64 \<Rightarrow> intelligence_challenge \<Rightarrow> challenge_solution" where
  "solve_storage p elapsed c =
     (let data = ic_input_data c;
          leaves = map (padded_leaf p) (slice_chunks 32 data);
          merkle_root = (case merkle_top p leaves of [] \<Rightarrow> replicate 32 (CHR 0x00) | r # _ \<Rightarrow> r)
      in \<lparr>cs_solution_data = storage_hash p c @ merkle_root,
          cs_computation_steps = of_nat (length (storage_segments data)) + of_nat (length leaves),
          cs_memory_used = of_nat (length data + length leaves * 32),
          cs_time_taken_ms = elapsed, cs_algorithm_used = ''StorageMerkleProof''\<rparr>)"

definition validate_storage :: "primitives \<Rightarrow> intelligence_challenge \<Rightarrow> challenge_solution \<Rightarrow> bool" where
  "validate_storage p c s = (length (cs_solution_data s) = 64 \<and> take 32 (cs_solution_data s) = storage_hash p c)"

section \<open>Compute proof\<close>

text \<open>\<open>chunks(0)\<close> panics, so an empty input does.\<close>

definition dot_products :: "nat list list \<Rightarrow> u64 list" where
  "dot_products rows = map (\<lambda>(a, b). \<Sum>(l, r)\<leftarrow>zip a b. of_nat l * of_nat r) (zip rows (tl rows))"

definition solve_compute :: "primitives \<Rightarrow> u64 \<Rightarrow> intelligence_challenge \<Rightarrow> (challenge_solution, poi_error) res" where
  "solve_compute p elapsed c =
     (let data = ic_input_data c;
          row_size = min 16 (length data);
          rows = slice_chunks row_size (byte_values data);
          dots = dot_products rows;
          acc = (blake3 p ^^ min (unat (ic_difficulty c)) 1000) (blake3 p (le64 (sum_list dots)))
      in if row_size = 0 then Panic
         else Ok \<lparr>cs_solution_data = acc @ blake3 p (sorted_bytes data),
                 cs_computation_steps =
                   of_nat (length rows) * of_nat row_size + of_nat (unat (ic_difficulty c)) + of_nat (length data),
                 cs_memory_used = of_nat (length data * 3 + length dots * 8),
                 cs_time_taken_ms = elapsed, cs_algorithm_used = ''MatrixDotSort''\<rparr>)"

definition validate_compute :: "primitives \<Rightarrow> intelligence_challenge \<Rightarrow> challenge_solution \<Rightarrow> bool" where
  "validate_compute p c s =
     (length (cs_solution_data s) = 64 \<and> drop 32 (cs_solution_data s) = blake3 p (sorted_bytes (ic_input_data c)))"

section \<open>Inference proof\<close>

definition embedding :: "primitives \<Rightarrow> char \<Rightarrow> f32 list" where
  "embedding p b =
     (let h = blake3 p [b] in map (\<lambda>i. f32_div (f32_sub (f32_of_nat (byte_at h i)) (f32_of_nat 128)) (f32_of_nat 128)) [0..<4])"

definition attention_row :: "maths \<Rightarrow> f32 list list \<Rightarrow> f32 list \<Rightarrow> f32 list" where
  "attention_row mt embeddings ei =
     (let (weighted, total_weight) =
        foldl (\<lambda>(weighted, total_weight) ej.
            let score = f32_sum mt (map2 f32_mul ei ej);
                weight = f32_min (mt_exp32 mt score) (f32_lit 1000000)
            in (map2 (\<lambda>acc v. f32_add acc (f32_mul weight v)) weighted ej, f32_add total_weight weight))
          (replicate 4 (f32_lit 0), f32_lit 0) embeddings
      in if f32_lt (f32_lit 0) total_weight then map (\<lambda>v. f32_div v total_weight) weighted else weighted)"

definition solve_inference :: "primitives \<Rightarrow> maths \<Rightarrow> u64 \<Rightarrow> intelligence_challenge \<Rightarrow> challenge_solution" where
  "solve_inference p mt elapsed c =
     (let embeddings = take 64 (map (embedding p) (ic_input_data c));
          seq_len = length embeddings;
          attention_output = map (attention_row mt embeddings) embeddings;
          ffn_output = map (map (\<lambda>x. f32_max (f32_add (f32_mul x (f32_lit (3 / 2))) (f32_lit (1 / 10))) (f32_lit 0))) attention_output;
          output_hash = blake3 p (concat (map (\<lambda>x. le_bytes 4 (unat x)) (concat ffn_output)));
          avg_value = f32_div (f32_sum mt (concat ffn_output)) (f32_of_nat (length ffn_output * 4))
      in \<lparr>cs_solution_data = output_hash @ le_bytes 4 (unat avg_value),
          cs_computation_steps = of_nat seq_len * of_nat seq_len * 4 * 3,
          cs_memory_used = of_nat (seq_len * 4 * 4 * 3),
          cs_time_taken_ms = elapsed, cs_algorithm_used = ''TransformerForwardPass''\<rparr>)"

definition validate_inference :: "challenge_solution \<Rightarrow> bool" where
  "validate_inference s = (length (cs_solution_data s) = 36 \<and> cs_computation_steps s > 0)"

section \<open>The engine\<close>

text \<open>\<open>IntelligenceEngine::new\<close> registers a model for every challenge type, so looking one up never fails.\<close>

definition model_solve ::
    "primitives \<Rightarrow> maths \<Rightarrow> ((bytes \<times> nat) list \<Rightarrow> (bytes \<times> nat) list) \<Rightarrow> u64 \<Rightarrow> intelligence_challenge
     \<Rightarrow> (challenge_solution, poi_error) res" where
  "model_solve p mt order elapsed c =
     (case ic_challenge_type c of
        PatternRecognition \<Rightarrow> Ok (solve_pattern order elapsed c)
      | OptimizationProblem \<Rightarrow> Ok (solve_optimization elapsed c)
      | CryptographicPuzzle \<Rightarrow> Ok (solve_cryptographic p elapsed c)
      | MachineLearningTask \<Rightarrow> Ok (solve_learning mt elapsed c)
      | DataAnalysis \<Rightarrow> Ok (solve_analysis elapsed c)
      | StorageProof \<Rightarrow> Ok (solve_storage p elapsed c)
      | ComputeProof \<Rightarrow> solve_compute p elapsed c
      | InferenceProof \<Rightarrow> Ok (solve_inference p mt elapsed c))"

definition model_validate :: "primitives \<Rightarrow> intelligence_challenge \<Rightarrow> challenge_solution \<Rightarrow> bool" where
  "model_validate p c s =
     (case ic_challenge_type c of
        PatternRecognition \<Rightarrow> validate_pattern s
      | OptimizationProblem \<Rightarrow> validate_optimization s
      | CryptographicPuzzle \<Rightarrow> validate_cryptographic p c s
      | MachineLearningTask \<Rightarrow> validate_learning s
      | DataAnalysis \<Rightarrow> validate_analysis s
      | StorageProof \<Rightarrow> validate_storage p c s
      | ComputeProof \<Rightarrow> validate_compute p c s
      | InferenceProof \<Rightarrow> validate_inference s)"

record poi_engine =
  pe_total_challenges :: u64
  pe_successful_solutions :: u64
  pe_difficulty :: u32
  pe_challenges_solved :: u64
  pe_total_score :: f64

definition poi_engine_new :: poi_engine where
  "poi_engine_new = \<lparr>pe_total_challenges = 0, pe_successful_solutions = 0, pe_difficulty = 1000, pe_challenges_solved = 0,
     pe_total_score = 0\<rparr>"

definition engine_solve ::
    "primitives \<Rightarrow> maths \<Rightarrow> ((bytes \<times> nat) list \<Rightarrow> (bytes \<times> nat) list) \<Rightarrow> u64 \<Rightarrow> intelligence_challenge \<Rightarrow> poi_engine
     \<Rightarrow> (challenge_solution \<times> poi_engine, poi_error) res" where
  "engine_solve p mt order elapsed c e =
     res_bind (model_solve p mt order elapsed c) (\<lambda>s.
       Ok (s, e\<lparr>pe_total_challenges := pe_total_challenges e + 1, pe_successful_solutions := pe_successful_solutions e + 1\<rparr>))"

text \<open>\<open>gen_range\<close> panics on an empty range, which only difficulty 0 gives.\<close>

definition challenge_kind :: "u64 \<Rightarrow> challenge_type" where
  "challenge_kind n =
     (if n = 0 then PatternRecognition else if n = 1 then OptimizationProblem else if n = 2 then CryptographicPuzzle
      else if n = 3 then MachineLearningTask else if n = 4 then DataAnalysis else if n = 5 then StorageProof
      else if n = 6 then ComputeProof else InferenceProof)"

definition poi_generate_challenge :: "rng \<Rightarrow> u64 \<Rightarrow> poi_engine \<Rightarrow> (intelligence_challenge, poi_error) res" where
  "poi_generate_challenge r block_height e =
     (let difficulty = pe_difficulty e; upper = min 1000 (unat difficulty * 10 + 100)
      in if upper \<le> 100 then Panic
         else Ok \<lparr>ic_challenge_type = challenge_kind ((block_height + rn_word r) mod 8), ic_difficulty = difficulty,
                 ic_seed = rn_seed r, ic_input_data = rn_bytes r (rn_range r 100 upper),
                 ic_expected_complexity = of_nat (unat difficulty) * 1000, ic_time_limit_ms = 30000\<rparr>)"

definition solve_challenge ::
    "primitives \<Rightarrow> maths \<Rightarrow> ((bytes \<times> nat) list \<Rightarrow> (bytes \<times> nat) list) \<Rightarrow> u64 \<Rightarrow> intelligence_challenge \<Rightarrow> poi_engine
     \<Rightarrow> (challenge_solution, poi_error) res \<times> poi_engine" where
  "solve_challenge p mt order elapsed c e =
     (case engine_solve p mt order elapsed c e of
        Panic \<Rightarrow> (Panic, e)
      | Err x \<Rightarrow> (Err x, e)
      | Ok (s, e') \<Rightarrow> (if cs_time_taken_ms s > ic_time_limit_ms c then Err Time_limit_exceeded else Ok s, e'))"

definition compute_hash :: "primitives \<Rightarrow> bytes \<Rightarrow> bytes \<Rightarrow> string" where
  "compute_hash p challenge_bytes solution_bytes = hex_encode p (blake3 p (challenge_bytes @ solution_bytes))"

definition calculate_intelligence_score :: "challenge_solution \<Rightarrow> f64" where
  "calculate_intelligence_score s =
     (let speed_score = f64_mul (f64_min (f64_div (f64_lit 10000) (f64_add (f64_of_u64 (cs_time_taken_ms s)) (f64_lit 1))) (f64_lit 100))
                          (f64_lit (4 / 10));
          efficiency_score = f64_mul (f64_min (f64_div (f64_of_u64 (cs_computation_steps s)) (f64_lit 1000)) (f64_lit 100)) (f64_lit (3 / 10));
          memory_score = f64_mul (f64_max (f64_sub (f64_lit 100) (f64_div (f64_of_u64 (cs_memory_used s)) (f64_lit 1000000))) (f64_lit 0))
                           (f64_lit (2 / 10));
          algorithm_score = f64_mul (f64_lit 80) (f64_lit (1 / 10))
      in f64_add (f64_add (f64_add speed_score efficiency_score) memory_score) algorithm_score)"

text \<open>The engine's counters change even when a later step of the proof fails.\<close>

definition poi_generate_proof ::
    "primitives \<Rightarrow> maths \<Rightarrow> poi_codec \<Rightarrow> ((bytes \<times> nat) list \<Rightarrow> (bytes \<times> nat) list) \<Rightarrow> rng \<Rightarrow> u64 \<Rightarrow> u64 \<Rightarrow> poi_engine
     \<Rightarrow> (intelligence_proof, poi_error) res \<times> poi_engine" where
  "poi_generate_proof p mt bc order r elapsed block_height e =
     (case poi_generate_challenge r block_height e of
        Panic \<Rightarrow> (Panic, e)
      | Err x \<Rightarrow> (Err x, e)
      | Ok c \<Rightarrow>
         (case solve_challenge p mt order elapsed c e of
            (Panic, e') \<Rightarrow> (Panic, e')
          | (Err x, e') \<Rightarrow> (Err x, e')
          | (Ok s, e') \<Rightarrow>
             (case bc_challenge bc c of
                None \<Rightarrow> (Err Serialize_challenge, e')
              | Some challenge_bytes \<Rightarrow>
                 (case bc_solution bc s of
                    None \<Rightarrow> (Err Serialize_solution, e')
                  | Some solution_bytes \<Rightarrow>
                      let score = calculate_intelligence_score s
                      in (Ok \<lparr>ip_challenge_bytes = challenge_bytes, ip_solution_bytes = solution_bytes,
                              ip_computation_hash = compute_hash p challenge_bytes solution_bytes, ip_intelligence_score = score\<rparr>,
                          e'\<lparr>pe_challenges_solved := pe_challenges_solved e' + 1,
                             pe_total_score := f64_add (pe_total_score e') score\<rparr>)))))"

definition poi_verify_proof :: "primitives \<Rightarrow> poi_codec \<Rightarrow> intelligence_proof \<Rightarrow> (unit, poi_error) res" where
  "poi_verify_proof p bc pf =
     (case bc_read_challenge bc (ip_challenge_bytes pf) of
        None \<Rightarrow> Err Deserialize_challenge
      | Some c \<Rightarrow>
         (case bc_read_solution bc (ip_solution_bytes pf) of
            None \<Rightarrow> Err Deserialize_solution
          | Some s \<Rightarrow>
              if ip_computation_hash pf \<noteq> compute_hash p (ip_challenge_bytes pf) (ip_solution_bytes pf) then Err Invalid_computation_hash
              else if f64_lt (f64_lit (1 / 100)) (f64_abs (f64_sub (ip_intelligence_score pf) (calculate_intelligence_score s)))
                then Err Invalid_intelligence_score
              else if cs_time_taken_ms s > ic_time_limit_ms c then Err Time_limit_exceeded
              else if \<not> model_validate p c s then Err Model_validation_failed
              else Ok ()))"

definition average_score :: "poi_engine \<Rightarrow> f64" where
  "average_score e =
     (let solved = f64_of_u64 (pe_challenges_solved e)
      in if f64_value_of solved = Fin False 0 then 0 else f64_div (pe_total_score e) solved)"

definition adjust_difficulty :: "u32 \<Rightarrow> poi_engine \<Rightarrow> poi_engine" where
  "adjust_difficulty new_difficulty e =
     e\<lparr>pe_difficulty := if new_difficulty < 100 then 100 else if new_difficulty > 1000000 then 1000000 else new_difficulty\<rparr>"

section \<open>Scores stay within their range\<close>

lemma speed_score_range:
  "f64_in 0 (161 / 4) (f64_mul (f64_min (f64_div (f64_lit 10000) (f64_add (f64_of_u64 t) (f64_lit 1))) (f64_lit 100)) (f64_lit (4 / 10)))"
proof -
  have "f64_in 1 (2 ^ 65) (f64_add (f64_of_u64 t) (f64_lit 1))"
    by (rule f64_in_add [OF f64_in_u64_nonneg f64_lits(2)]) (simp_all add: dyadics)
  then have "f64_in 0 10000 (f64_div (f64_lit 10000) (f64_add (f64_of_u64 t) (f64_lit 1)))"
    by (rule f64_in_div [OF f64_lits(6)]) (simp_all add: dyadics)
  from f64_in_min [OF this f64_lits(4), of 0]
  have "f64_in 0 100 (f64_min (f64_div (f64_lit 10000) (f64_add (f64_of_u64 t) (f64_lit 1))) (f64_lit 100))" by simp
  moreover have "f64_in (409 / 1024) (411 / 1024) (f64_lit (4 / 10))" by (rule f64_lit_between) simp_all
  ultimately show ?thesis by (rule f64_in_mul) (simp_all add: dyadics)
qed

lemma efficiency_score_range:
  "f64_in 0 (121 / 4) (f64_mul (f64_min (f64_div (f64_of_u64 n) (f64_lit 1000)) (f64_lit 100)) (f64_lit (3 / 10)))"
proof -
  have "f64_in 0 (2 ^ 64) (f64_div (f64_of_u64 n) (f64_lit 1000))"
    by (rule f64_in_div [OF f64_in_u64_nonneg f64_lits(5)]) (simp_all add: dyadics)
  from f64_in_min [OF this f64_lits(4), of 0]
  have "f64_in 0 100 (f64_min (f64_div (f64_of_u64 n) (f64_lit 1000)) (f64_lit 100))" by simp
  moreover have "f64_in (307 / 1024) (309 / 1024) (f64_lit (3 / 10))" by (rule f64_lit_between) simp_all
  ultimately show ?thesis by (rule f64_in_mul) (simp_all add: dyadics)
qed

lemma memory_score_range:
  "f64_in 0 (81 / 4) (f64_mul (f64_max (f64_sub (f64_lit 100) (f64_div (f64_of_u64 n) (f64_lit 1000000))) (f64_lit 0)) (f64_lit (2 / 10)))"
proof -
  have "f64_in 0 (2 ^ 64) (f64_div (f64_of_u64 n) (f64_lit 1000000))"
    by (rule f64_in_div [OF f64_in_u64_nonneg f64_lits(7)]) (simp_all add: dyadics)
  then have "f64_in (- (2 ^ 64)) 100 (f64_sub (f64_lit 100) (f64_div (f64_of_u64 n) (f64_lit 1000000)))"
    by (rule f64_in_sub [OF f64_lits(4)]) (simp_all add: dyadics)
  from f64_in_max [OF this f64_lits(1), of 100]
  have "f64_in 0 100 (f64_max (f64_sub (f64_lit 100) (f64_div (f64_of_u64 n) (f64_lit 1000000))) (f64_lit 0))" by simp
  moreover have "f64_in (203 / 1024) (205 / 1024) (f64_lit (2 / 10))" by (rule f64_lit_between) simp_all
  ultimately show ?thesis by (rule f64_in_mul) (simp_all add: dyadics)
qed

text \<open>
  Every solution has a finite score between 7 and 99, whatever times, steps and memory it reports: the formula never overflows and never
  yields a NaN.
\<close>

lemma score_in_range: "f64_in 7 99 (calculate_intelligence_score s)"
proof -
  have tenth: "f64_in (101 / 1024) (103 / 1024) (f64_lit (1 / 10))" by (rule f64_lit_between) simp_all
  have a: "f64_in 7 (33 / 4) (f64_mul (f64_lit 80) (f64_lit (1 / 10)))"
    by (rule f64_in_mul [OF f64_lits(3) tenth]) (simp_all add: dyadics)
  note two = f64_in_add [OF speed_score_range efficiency_score_range, of 0 "141 / 2"]
  note three = f64_in_add [OF two memory_score_range, of 0 "363 / 4"]
  note four = f64_in_add [OF three a, of 7 99]
  show ?thesis
    unfolding calculate_intelligence_score_def Let_def by (rule four) (simp_all add: dyadics)
qed

section \<open>Solving passes validation\<close>

lemma le_bytes_length: "length (le_bytes k n) = k"
  by (induction k arbitrary: n) auto

lemma le64_length: "length (le64 n) = 8"
  by (simp add: le64_def le_bytes_length)

lemma of_nat_u64_pos: "0 < n \<Longrightarrow> n < 2 ^ 64 \<Longrightarrow> (0 :: u64) < of_nat n"
  by (simp add: word_less_nat_alt unat_of_nat_u64)

lemma merkle_top_set:
  assumes "\<forall>x. length (blake3 p x) = 32" "\<forall>x \<in> set level. length x = 32"
  shows "\<forall>x \<in> set (merkle_top p level). length x = 32"
  using assms
proof (induction p level rule: merkle_top.induct)
  case (1 p level)
  have "\<forall>x \<in> set (hash_pairs p level). length x = 32"
    using "1.prems" by (induction p level rule: hash_pairs.induct) auto
  with 1 show ?case by (subst merkle_top.simps) simp
qed

lemma blake3_chain_length: "\<forall>x. length (blake3 p x) = 32 \<Longrightarrow> length ((blake3 p ^^ n) (blake3 p x)) = 32"
  by (induction n) simp_all

lemma validate_solve_pattern:
  "0 < length (ic_input_data c) \<Longrightarrow> length (ic_input_data c) < 2 ^ 64 \<Longrightarrow> validate_pattern (solve_pattern order elapsed c)"
  by (simp add: solve_pattern_def validate_pattern_def Let_def of_nat_u64_pos flip: length_greater_0_conv) (simp add: le_bytes_length)

lemma validate_solve_optimization: "validate_optimization (solve_optimization elapsed c)"
  by (simp add: solve_optimization_def validate_optimization_def Let_def le_bytes_length le64_length split: prod.splits)

lemma validate_solve_learning:
  "0 < length (ic_input_data c) \<Longrightarrow> length (ic_input_data c) < 2 ^ 60 \<Longrightarrow> validate_learning (solve_learning mt elapsed c)"
  using of_nat_u64_pos [of "length (ic_input_data c) * 5"]
  by (simp add: solve_learning_def validate_learning_def Let_def le64_length byte_values_def)

lemma validate_solve_analysis: "0 < length (ic_input_data c) \<Longrightarrow> validate_analysis (solve_analysis elapsed c)"
  by (simp add: solve_analysis_def validate_analysis_def byte_values_def Let_def slice_chunks.simps [of 32])

lemma validate_solve_storage:
  assumes "blake3_size p"
  shows "validate_storage p c (solve_storage p elapsed c)"
proof -
  have b: "\<forall>x. length (blake3 p x) = 32" using assms by (simp add: blake3_size_def)
  have "\<forall>x \<in> set (merkle_top p (map (padded_leaf p) (slice_chunks 32 (ic_input_data c)))). length x = 32"
    by (rule merkle_top_set) (use b in \<open>auto simp: padded_leaf_def\<close>)
  with b show ?thesis
    by (auto simp: solve_storage_def validate_storage_def storage_hash_def Let_def split: list.splits)
qed

lemma validate_solve_inference:
  assumes "blake3_size p" "0 < length (ic_input_data c)"
  shows "validate_inference (solve_inference p mt elapsed c)"
proof -
  let ?n = "min (length (ic_input_data c)) 64"
  have "?n * ?n \<le> 64 * 64" by (rule mult_mono) simp_all
  then have "(0 :: u64) < of_nat (?n * ?n * 4 * 3)" using assms(2) by (intro of_nat_u64_pos) simp_all
  then show ?thesis
    using assms(1) by (simp add: solve_inference_def validate_inference_def Let_def blake3_size_def le_bytes_length)
qed

lemma validate_solve_compute:
  assumes "blake3_size p" "0 < length (ic_input_data c)"
  shows "\<exists>s. solve_compute p elapsed c = Ok s \<and> cs_time_taken_ms s = elapsed \<and> validate_compute p c s"
  using assms blake3_chain_length [of p]
  by (simp add: solve_compute_def validate_compute_def Let_def blake3_size_def)

lemma model_solve_validates:
  assumes "blake3_size p" "0 < length (ic_input_data c)" "length (ic_input_data c) < 2 ^ 60"
  shows "\<exists>s. model_solve p mt order elapsed c = Ok s \<and> cs_time_taken_ms s = elapsed \<and> model_validate p c s"
  using assms validate_solve_pattern [of c order elapsed] validate_solve_optimization [of elapsed c] validate_solve_learning [of c mt elapsed]
    validate_solve_analysis [of c elapsed] validate_solve_storage [of p c elapsed] validate_solve_inference [of p c mt elapsed]
    validate_solve_compute [of p c elapsed]
  by (cases "ic_challenge_type c")
    (simp_all add: model_solve_def model_validate_def validate_cryptographic_def solve_cryptographic_def,
     simp_all add: solve_pattern_def solve_optimization_def solve_learning_def solve_analysis_def solve_storage_def solve_inference_def
       Let_def byte_values_def split: prod.splits)

text \<open>The tolerance of 0.01 as bits.\<close>

lemma tolerance: "f64_in (1 / 1024) (1 / 2) (f64_lit (1 / 100))"
  unfolding f64_lit_def
  by (rule f64_in_literal) (simp_all add: dyadicI [of _ 1 "- 10"] dyadicI [of _ 1 "- 1"] power_int_minus_divide)

lemma tolerance_key: "0 < f64_key (f64_lit (1 / 100))" "f64_key (f64_lit (1 / 100)) < 1023 * 2 ^ 52" "\<not> f64_is_nan (f64_lit (1 / 100))"
proof -
  let ?b = "f64_lit (1 / 100)"
  obtain s u where u: "f64_value_of ?b = Fin s u" "1 / 1024 \<le> signed s u" "signed s u \<le> 1 / 2" "0 \<le> u" by (rule f64_inE [OF tolerance])
  then have "\<not> s" "0 < u" "u < 1" by (auto simp: signed_def split: if_splits)
  moreover have "mag_value (1023 * 2 ^ 52 + 0) = 1" using mag_value_step [of 0 1023] by (simp add: power_int_minus_divide)
  ultimately have "mag_value 0 < mag_value (f64_mag ?b)" "mag_value (f64_mag ?b) < mag_value (1023 * 2 ^ 52 + 0)"
    using f64_value_FinD(2) [OF u(1)] by (simp_all add: mag_value_0)
  then have "0 < f64_mag ?b" "f64_mag ?b < 1023 * 2 ^ 52" by (simp_all only: mag_value_less_iff add_0_right)
  moreover have "f64_key ?b = int (f64_mag ?b)" using \<open>\<not> s\<close> f64_value_FinD(1) [OF u(1)] by (simp only: f64_key_mag if_False)
  ultimately show "0 < f64_key ?b" "f64_key ?b < 1023 * 2 ^ 52" "\<not> f64_is_nan ?b"
    by (simp_all add: f64_in_not_nan [OF tolerance])
qed

lemma f64_abs_bits: "f64_is_nan (f64_abs b) = f64_is_nan b" "f64_key (f64_abs b) = int (f64_mag b)"
  by (simp_all add: f64_is_nan_def f64_abs_def f64_key_def f64_take_bit bit_take_bit_iff)

lemma within_tolerance: "f64_lt (f64_lit (1 / 100)) (f64_abs b) \<longleftrightarrow> \<not> f64_is_nan b \<and> f64_key (f64_lit (1 / 100)) < int (f64_mag b)"
  using tolerance_key(3) by (simp add: f64_lt_def f64_abs_bits)

lemma score_agrees_with_itself: "\<not> f64_lt (f64_lit (1 / 100)) (f64_abs (f64_sub a a))"
  using f64_sub_self [of a] tolerance_key(1) by (auto simp: within_tolerance f64_mag_def)

lemma f64_mag_rounded: "f64_mag (f64_rounded s r) = f64_magnitude r"
proof -
  have "f64_magnitude r \<le> 2047 * 2 ^ 52" by (simp add: f64_magnitude_def Let_def)
  moreover from this have "unat (f64_rounded s r) = (if s then 2 ^ 63 else 0) + f64_magnitude r"
    unfolding f64_rounded_def by (subst unat_of_nat_u64) simp_all
  ultimately show ?thesis by (simp add: f64_mag_def)
qed

lemma f64_magnitude_large: "1 \<le> z \<Longrightarrow> 1023 * 2 ^ 52 \<le> f64_magnitude z"
proof -
  assume z: "1 \<le> z"
  have "ilog2 1 = 0" by (simp add: ilog2_def floorlog_def)
  with z ilog2_mono [of 1 z] have k: "0 \<le> ilog2 z" by simp
  then have n: "2 ^ 52 \<le> f64_digits z" using z by (intro f64_digits_bounds) (simp_all add: f64_scale_def)
  have "f64_magnitude z = min (nat (f64_scale z + 1022) * 2 ^ 52 + f64_digits z) (2047 * 2 ^ 52)"
    using z by (simp only: f64_magnitude_def Let_def f64_digits_def f64_scale_def) simp
  moreover have "1022 * 2 ^ 52 \<le> nat (f64_scale z + 1022) * 2 ^ 52" using k by (intro mult_right_mono) (simp_all add: f64_scale_def)
  ultimately show ?thesis using n by simp
qed

lemma far_apart:
  assumes "f64_value_of a = Fin s x" "f64_value_of b = Fin t y" "1 \<le> \<bar>signed s x - signed t y\<bar>"
  shows "f64_lt (f64_lit (1 / 100)) (f64_abs (f64_sub a b))"
proof -
  have "0 \<le> x" "0 \<le> y" using assms(1,2) by (auto dest: f64_value_FinD(4))
  then obtain w z where w: "add_value (Fin s x) (Fin (\<not> t) y) = Fin w z" "signed w z = signed s x + signed (\<not> t) y" "0 \<le> z"
    using add_value_signed by blast
  then have "1 \<le> z" using assms(3) by (cases w; cases t) (auto simp: signed_def)
  then have m: "1023 * 2 ^ 52 \<le> f64_mag (f64_rounded w z)" unfolding f64_mag_rounded by (rule f64_magnitude_large)
  moreover have "f64_mag (f64_rounded w z) \<le> 2047 * 2 ^ 52" by (simp add: f64_mag_rounded f64_magnitude_def Let_def)
  ultimately show ?thesis
    using tolerance_key(2) w(1) assms(1,2) by (simp add: within_tolerance f64_sub_def f64_of_value_def f64_is_nan_mag)
qed

lemma infinite_apart:
  assumes "f64_value_of a = Inf s" "f64_value_of b = Fin t y"
  shows "f64_lt (f64_lit (1 / 100)) (f64_abs (f64_sub a b))"
proof -
  have "f64_mag (f64_inf s) = 2047 * 2 ^ 52" by (cases s) (simp_all add: f64_inf_def f64_mag_def)
  then show ?thesis using tolerance_key(2) assms by (simp add: within_tolerance f64_sub_def f64_of_value_def f64_is_nan_mag)
qed

lemma poi_generate_challenge_Ok:
  assumes "rng_ok r" "pe_difficulty e \<noteq> 0"
  obtains c where "poi_generate_challenge r h e = Ok c" "100 \<le> length (ic_input_data c)" "length (ic_input_data c) < 1000"
    "ic_time_limit_ms c = 30000"
proof -
  let ?u = "min 1000 (unat (pe_difficulty e) * 10 + 100)"
  have "0 < unat (pe_difficulty e)" using assms(2) by (simp add: unat_gt_0)
  then have u: "100 < ?u" by simp
  then have "100 \<le> rn_range r 100 ?u" "rn_range r 100 ?u < ?u" using assms(1) unfolding rng_ok_def by blast+
  moreover have "length (rn_bytes r n) = n" for n using assms(1) by (simp add: rng_ok_def)
  ultimately show ?thesis using that u by (simp add: poi_generate_challenge_def Let_def)
qed

lemma proof_generated:
  assumes "blake3_size p" "codec_ok bc" "rng_ok r" "pe_difficulty e \<noteq> 0" "elapsed \<le> 30000"
  shows "\<exists>pf e'. poi_generate_proof p mt bc order r elapsed h e = (Ok pf, e') \<and> poi_verify_proof p bc pf = Ok () \<and>
     pe_challenges_solved e' = pe_challenges_solved e + 1 \<and> pe_difficulty e' = pe_difficulty e"
proof -
  obtain c where c: "poi_generate_challenge r h e = Ok c" "100 \<le> length (ic_input_data c)" "length (ic_input_data c) < 1000"
    "ic_time_limit_ms c = 30000" by (rule poi_generate_challenge_Ok [OF assms(3,4)])
  have "0 < length (ic_input_data c)" "length (ic_input_data c) < 2 ^ 60" using c(2,3) by (linarith, simp)
  from model_solve_validates [OF assms(1) this] obtain s where
    s: "model_solve p mt order elapsed c = Ok s" "cs_time_taken_ms s = elapsed" "model_validate p c s" by blast
  have t: "\<not> 30000 < elapsed" using assms(5) by simp
  obtain cb sb where b: "bc_challenge bc c = Some cb" "bc_read_challenge bc cb = Some c" "bc_solution bc s = Some sb"
    "bc_read_solution bc sb = Some s" using assms(2) unfolding codec_ok_def by blast
  show ?thesis
    by (simp add: poi_generate_proof_def solve_challenge_def engine_solve_def poi_verify_proof_def c(1,4) s b t score_agrees_with_itself
        res_simps Let_def)
qed

text \<open>
  C28. A node's own proof of intelligence is produced and accepted by every verifier: with a working serialisation, a
  non-zero difficulty and a solver within the time limit of 30 seconds, generating a proof for any height returns a proof, counts it
  once, and verification of that proof succeeds, whichever of the eight challenge types the generator drew.
\<close>

theorem generated_proof_verifies:
  assumes "blake3_size p" "codec_ok bc" "rng_ok r" "pe_difficulty e \<noteq> 0" "elapsed \<le> 30000"
  shows "\<exists>pf e'. poi_generate_proof p mt bc order r elapsed h e = (Ok pf, e') \<and> poi_verify_proof p bc pf = Ok () \<and>
     pe_challenges_solved e' = pe_challenges_solved e + 1 \<and> pe_difficulty e' = pe_difficulty e"
  by (rule proof_generated [OF assms])

text \<open>A self-delimiting sample encoding and a sample generator.\<close>

definition put_nat :: "nat \<Rightarrow> bytes" where "put_nat n = replicate n (CHR ''1'') @ ''0''"

definition get_nat :: "bytes \<Rightarrow> nat \<times> bytes" where
  "get_nat b = (length (takeWhile (\<lambda>c. c = CHR ''1'') b), tl (dropWhile (\<lambda>c. c = CHR ''1'') b))"

definition put_bytes :: "bytes \<Rightarrow> bytes" where "put_bytes xs = put_nat (length xs) @ xs"

definition get_bytes :: "bytes \<Rightarrow> bytes \<times> bytes" where
  "get_bytes b = (let (n, rest) = get_nat b in (take n rest, drop n rest))"

lemma get_put: "get_nat (put_nat n @ rest) = (n, rest)" "get_bytes (put_bytes xs @ rest) = (xs, rest)"
proof -
  show n: "get_nat (put_nat n @ rest) = (n, rest)" for n rest
    by (induction n) (simp_all add: get_nat_def put_nat_def)
  show "get_bytes (put_bytes xs @ rest) = (xs, rest)" by (simp add: get_bytes_def put_bytes_def n)
qed

definition kind_number :: "challenge_type \<Rightarrow> nat" where
  "kind_number k =
     (case k of PatternRecognition \<Rightarrow> 0 | OptimizationProblem \<Rightarrow> 1 | CryptographicPuzzle \<Rightarrow> 2 | MachineLearningTask \<Rightarrow> 3 | DataAnalysis \<Rightarrow> 4
      | StorageProof \<Rightarrow> 5 | ComputeProof \<Rightarrow> 6 | InferenceProof \<Rightarrow> 7)"

lemma challenge_kind_number: "challenge_kind (of_nat (kind_number k)) = k"
  by (cases k) (simp_all add: kind_number_def challenge_kind_def)

definition sample_poi_codec :: poi_codec where
  "sample_poi_codec =
     \<lparr>bc_challenge = (\<lambda>c. Some (put_nat (kind_number (ic_challenge_type c)) @ put_nat (unat (ic_difficulty c)) @ put_bytes (ic_seed c) @
          put_bytes (ic_input_data c) @ put_nat (unat (ic_expected_complexity c)) @ put_nat (unat (ic_time_limit_ms c)))),
      bc_read_challenge = (\<lambda>b. let (k, b) = get_nat b; (d, b) = get_nat b; (sd, b) = get_bytes b; (i, b) = get_bytes b;
           (x, b) = get_nat b; (t, b) = get_nat b
         in Some \<lparr>ic_challenge_type = challenge_kind (of_nat k), ic_difficulty = of_nat d, ic_seed = sd, ic_input_data = i,
                 ic_expected_complexity = of_nat x, ic_time_limit_ms = of_nat t\<rparr>),
      bc_solution = (\<lambda>s. Some (put_bytes (cs_solution_data s) @ put_nat (unat (cs_computation_steps s)) @ put_nat (unat (cs_memory_used s)) @
          put_nat (unat (cs_time_taken_ms s)) @ cs_algorithm_used s)),
      bc_read_solution = (\<lambda>b. let (d, b) = get_bytes b; (n, b) = get_nat b; (m, b) = get_nat b; (t, b) = get_nat b
         in Some \<lparr>cs_solution_data = d, cs_computation_steps = of_nat n, cs_memory_used = of_nat m, cs_time_taken_ms = of_nat t,
                 cs_algorithm_used = b\<rparr>)\<rparr>"

lemma sample_poi_codec_ok: "codec_ok sample_poi_codec"
  using get_put(1) [where rest = "[]"]
  by (simp add: codec_ok_def sample_poi_codec_def get_put challenge_kind_number)

definition sample_rng :: rng where
  "sample_rng = \<lparr>rn_word = 1, rn_seed = replicate 32 (CHR ''s''), rn_range = (\<lambda>lo hi. lo), rn_bytes = (\<lambda>n. replicate n (CHR ''a''))\<rparr>"

lemma sample_rng_ok: "rng_ok sample_rng"
  by (simp add: rng_ok_def sample_rng_def)

definition sample_maths :: maths where
  "sample_maths = \<lparr>mt_ln = (\<lambda>x. x), mt_powi2 = (\<lambda>x. f64_mul x x), mt_exp32 = (\<lambda>x. x), mt_negative_zero = True\<rparr>"

theorem generated_proof_verifies_witness:
  "\<exists>pf e'. poi_generate_proof sample_primitives sample_maths sample_poi_codec (\<lambda>xs. xs) sample_rng 20 7 poi_engine_new = (Ok pf, e') \<and>
     poi_verify_proof sample_primitives sample_poi_codec pf = Ok () \<and>
     pe_challenges_solved e' = pe_challenges_solved poi_engine_new + 1 \<and> pe_difficulty e' = pe_difficulty poi_engine_new"
  by (rule generated_proof_verifies)
    (simp_all add: sample_primitives_ok sample_poi_codec_ok sample_rng_ok poi_engine_new_def)

section \<open>What verification accepts\<close>

lemma poi_verify_proof_Ok:
  "poi_verify_proof p bc pf = Ok () \<longleftrightarrow>
     (\<exists>c s. bc_read_challenge bc (ip_challenge_bytes pf) = Some c \<and> bc_read_solution bc (ip_solution_bytes pf) = Some s \<and>
        ip_computation_hash pf = compute_hash p (ip_challenge_bytes pf) (ip_solution_bytes pf) \<and>
        \<not> f64_lt (f64_lit (1 / 100)) (f64_abs (f64_sub (ip_intelligence_score pf) (calculate_intelligence_score s))) \<and>
        cs_time_taken_ms s \<le> ic_time_limit_ms c \<and> model_validate p c s)"
  by (auto simp: poi_verify_proof_def not_less split: option.splits if_splits)

text \<open>The proof that packs a challenge and a solution with the score and hash they call for.\<close>

definition packed :: "primitives \<Rightarrow> bytes \<Rightarrow> bytes \<Rightarrow> challenge_solution \<Rightarrow> intelligence_proof" where
  "packed p cb sb s = \<lparr>ip_challenge_bytes = cb, ip_solution_bytes = sb, ip_computation_hash = compute_hash p cb sb,
     ip_intelligence_score = calculate_intelligence_score s\<rparr>"

lemma packed_accepted:
  "bc_read_challenge bc cb = Some c \<Longrightarrow> bc_read_solution bc sb = Some s \<Longrightarrow> cs_time_taken_ms s \<le> ic_time_limit_ms c \<Longrightarrow>
     model_validate p c s \<Longrightarrow> poi_verify_proof p bc (packed p cb sb s) = Ok ()"
  by (simp add: poi_verify_proof_Ok packed_def score_agrees_with_itself)

lemma pattern_accepted:
  assumes "codec_ok bc" "ic_challenge_type c = PatternRecognition" "cs_solution_data s \<noteq> []" "0 < cs_computation_steps s"
    "cs_time_taken_ms s \<le> ic_time_limit_ms c"
  obtains cb sb where "bc_challenge bc c = Some cb" "bc_solution bc s = Some sb" "poi_verify_proof p bc (packed p cb sb s) = Ok ()"
proof -
  obtain cb sb where b: "bc_challenge bc c = Some cb" "bc_read_challenge bc cb = Some c" "bc_solution bc s = Some sb"
    "bc_read_solution bc sb = Some s" using assms(1) unfolding codec_ok_def by blast
  with packed_accepted [OF b(2,4) assms(5)] assms(2-4) that show ?thesis by (simp add: model_validate_def validate_pattern_def)
qed

definition sample_claim :: challenge_solution where
  "sample_claim = \<lparr>cs_solution_data = ''x'', cs_computation_steps = 1000000, cs_memory_used = 0, cs_time_taken_ms = 0, cs_algorithm_used = []\<rparr>"

definition sample_pattern_challenge :: intelligence_challenge where
  "sample_pattern_challenge = \<lparr>ic_challenge_type = PatternRecognition, ic_difficulty = 1, ic_seed = [], ic_input_data = [],
     ic_expected_complexity = 0, ic_time_limit_ms = 0\<rparr>"

text \<open>
  C30. A proof cannot claim a score far from what its solution earns: the score of an accepted proof is between 6 and 100,
  or it is not a number at all (the comparison with the tolerance lets a NaN through).
\<close>

theorem accepted_score_in_range:
  assumes "poi_verify_proof p bc pf = Ok ()"
  shows "f64_is_nan (ip_intelligence_score pf) \<or> f64_in 6 100 (ip_intelligence_score pf)"
proof -
  let ?a = "ip_intelligence_score pf"
  from assms obtain s where s: "\<not> f64_lt (f64_lit (1 / 100)) (f64_abs (f64_sub ?a (calculate_intelligence_score s)))"
    unfolding poi_verify_proof_Ok by blast
  obtain t y where y: "f64_value_of (calculate_intelligence_score s) = Fin t y" "7 \<le> signed t y" "signed t y \<le> 99"
    by (rule f64_inE [OF score_in_range])
  show ?thesis
  proof (cases "f64_value_of ?a")
    case Nan
    then have "\<not> f64_mag ?a < 2047 * 2 ^ 52" using f64_value_mag [of ?a] by auto
    then have "2047 * 2 ^ 52 \<le> f64_mag ?a" by simp
    from f64_value_large [OF this] Nan this have "2047 * 2 ^ 52 < f64_mag ?a" by (cases "f64_mag ?a = 2047 * 2 ^ 52") auto
    then show ?thesis by (simp add: f64_is_nan_mag)
  next
    case (Inf u)
    with infinite_apart [OF _ y(1)] s show ?thesis by blast
  next
    case (Fin u x)
    then have "\<not> 1 \<le> \<bar>signed u x - signed t y\<bar>" using far_apart [OF Fin y(1)] s by blast
    then have "6 \<le> signed u x" "signed u x \<le> 100" using y(2,3) by linarith+
    with Fin show ?thesis by (simp add: f64_in_iff)
  qed
qed

theorem accepted_score_in_range_witness:
  "\<exists>pf. poi_verify_proof sample_primitives sample_poi_codec pf = Ok () \<and>
     (f64_is_nan (ip_intelligence_score pf) \<or> f64_in 6 100 (ip_intelligence_score pf))"
proof -
  obtain cb sb where "poi_verify_proof sample_primitives sample_poi_codec (packed sample_primitives cb sb sample_claim) = Ok ()"
    by (rule pattern_accepted [OF sample_poi_codec_ok, of sample_pattern_challenge sample_claim sample_primitives])
      (simp_all add: sample_claim_def sample_pattern_challenge_def)
  with accepted_score_in_range [OF this] show ?thesis by blast
qed

text \<open>A score that is not a number passes the tolerance check.\<close>

lemma nan_score_accepted:
  assumes "poi_verify_proof p bc pf = Ok ()" "f64_value_of n = Nan"
  shows "poi_verify_proof p bc (pf\<lparr>ip_intelligence_score := n\<rparr>) = Ok ()"
proof -
  have "f64_sub n b = f64_nan" for b using assms(2) by (cases "f64_value_of b") (simp_all add: f64_sub_def f64_of_value_def)
  moreover have "f64_is_nan f64_nan" by (simp add: f64_nan_def f64_is_nan_def)
  ultimately have "\<not> f64_lt (f64_lit (1 / 100)) (f64_abs (f64_sub n b))" for b by (simp add: within_tolerance)
  with assms(1) show ?thesis by (auto simp: poi_verify_proof_Ok)
qed

text \<open>
  C31. Verification does not tie a proof to work: for every challenge of the pattern kind, whatever its data and difficulty,
  any non-empty solution bytes with any positive number of claimed steps and any claimed time within the limit make an accepted proof.
\<close>

theorem pattern_claim_accepted:
  assumes "codec_ok bc" "ic_challenge_type c = PatternRecognition" "cs_solution_data s \<noteq> []" "0 < cs_computation_steps s"
    "cs_time_taken_ms s \<le> ic_time_limit_ms c"
  shows "\<exists>pf. bc_challenge bc c = Some (ip_challenge_bytes pf) \<and> bc_solution bc s = Some (ip_solution_bytes pf) \<and>
     poi_verify_proof p bc pf = Ok ()"
proof -
  obtain cb sb where "bc_challenge bc c = Some cb" "bc_solution bc s = Some sb" "poi_verify_proof p bc (packed p cb sb s) = Ok ()"
    by (rule pattern_accepted [OF assms])
  then show ?thesis by (intro exI [of _ "packed p cb sb s"]) (simp add: packed_def)
qed

theorem pattern_claim_accepted_witness:
  "\<exists>pf. bc_challenge sample_poi_codec sample_pattern_challenge = Some (ip_challenge_bytes pf) \<and>
     bc_solution sample_poi_codec sample_claim = Some (ip_solution_bytes pf) \<and>
     poi_verify_proof sample_primitives sample_poi_codec pf = Ok ()"
  by (rule pattern_claim_accepted) (simp_all add: sample_poi_codec_ok sample_claim_def sample_pattern_challenge_def)

end
