(* ===== verification/ComputeAgent.thy ===== *)
theory ComputeAgent
  imports Reputation Poi
begin

text \<open>
  \<^verbatim>\<open>src/src/compute/sandbox.rs\<close>: the built-in kernels a deterministic task selects and the limits around them; and
  \<^verbatim>\<open>src/src/agents/compute_scheduler.rs\<close>: the agent that drives the marketplace of \<open>Scheduler\<close> and rates workers with \<open>Reputation\<close>.
  Time spent and clock readings are arguments. The events the agent broadcasts are collected in order; nobody listening is not an error.
\<close>

section \<open>The sandbox\<close>

definition JOB_MAX_DURATION_MS :: u64 where "JOB_MAX_DURATION_MS = 600000"

definition WASM_MAX_MEMORY_PAGES :: u32 where "WASM_MAX_MEMORY_PAGES = 4096"

definition SANDBOX_MAX_OUTPUT_SIZE :: nat where "SANDBOX_MAX_OUTPUT_SIZE = 10 * 1024 * 1024"

record compute_sandbox =
  sb_max_duration_ms :: u64
  sb_max_memory_bytes :: u64

definition sandbox_new :: compute_sandbox where
  "sandbox_new = \<lparr>sb_max_duration_ms = JOB_MAX_DURATION_MS, sb_max_memory_bytes = ucast WASM_MAX_MEMORY_PAGES * 65536\<rparr>"

record execution_result =
  er_output :: bytes
  er_execution_time_ms :: u64
  er_peak_memory_mb :: u64
  er_result_hash :: string

datatype sandbox_error =
    Wasm_unavailable | Onnx_unavailable | Llm_elsewhere | Input_too_large nat u64 | Too_slow u64 u64 | Output_too_large

fun le_value :: "nat list \<Rightarrow> nat" where
  "le_value [] = 0"
| "le_value (b # bs) = b + 256 * le_value bs"

definition hash_kernel :: "primitives \<Rightarrow> bytes \<Rightarrow> bytes" where
  "hash_kernel p data =
     (let iterations = min (if 4 \<le> length data then le_value (byte_values (take 4 data)) else 10) 100000
      in (blake3 p ^^ (iterations - 1)) (blake3 p (drop 4 data)))"

definition sort_kernel :: "bytes \<Rightarrow> bytes" where
  "sort_kernel data =
     (let ordered = sorted_bytes data;
          get = (\<lambda>i. if i < length ordered then ordered ! i else CHR 0x00)
      in ordered @ [get 0, get (length ordered - 1), get (length ordered div 2)])"

definition stat_kernel :: "maths \<Rightarrow> bytes \<Rightarrow> bytes" where
  "stat_kernel mt data =
     (let xs = map f64_of_nat (byte_values data);
          n = f64_of_nat (length data)
      in if data = [] then replicate 24 (CHR 0x00)
         else let mean = f64_div (f64_sum mt xs) n;
                  variance = f64_div (f64_sum mt (map (\<lambda>b. mt_powi2 mt (f64_sub b mean)) xs)) n
              in le64 mean @ le64 (f64_sqrt variance) @ le64 n)"

definition matrix_entry :: "nat \<Rightarrow> nat list \<Rightarrow> nat list \<Rightarrow> nat \<Rightarrow> nat \<Rightarrow> u64" where
  "matrix_entry rows a b i j = (\<Sum>k\<leftarrow>[0..<rows]. of_nat (a ! (i * rows + k)) * of_nat (b ! (k * rows + j)))"

definition matrix_kernel :: "primitives \<Rightarrow> bytes \<Rightarrow> bytes" where
  "matrix_kernel p data =
     (let rows = unat (f64_to_u64 (f64_sqrt (f64_div (f64_of_nat (length data)) (f64_lit 2))))
      in if rows = 0 \<or> rows * rows * 2 > length data then blake3 p data
         else let a = byte_values (take (rows * rows) data);
                  b = byte_values (take (rows * rows) (drop (rows * rows) data));
                  c = concat (map (\<lambda>i. map (matrix_entry rows a b i) [0..<rows]) [0..<rows])
              in blake3 p (concat (map le64 c)))"

definition run_kernel :: "primitives \<Rightarrow> maths \<Rightarrow> string \<Rightarrow> bytes \<Rightarrow> bytes" where
  "run_kernel p mt name data =
     (if name = ''hash'' then hash_kernel p data
      else if name = ''sort'' then sort_kernel data
      else if name = ''stat'' then stat_kernel mt data
      else if name = ''matr'' then matrix_kernel p data
      else blake3 p data)"

definition execute_deterministic ::
    "primitives \<Rightarrow> maths \<Rightarrow> u64 \<Rightarrow> compute_sandbox \<Rightarrow> string \<Rightarrow> bytes \<Rightarrow> (execution_result, sandbox_error) res" where
  "execute_deterministic p mt elapsed sb function_hash data =
     (if unat (sb_max_memory_bytes sb) < length data then Err (Input_too_large (length data) (sb_max_memory_bytes sb))
      else res_bind (str_slice_to function_hash (min 4 (length function_hash))) (\<lambda>name.
        let output = run_kernel p mt name data in
        if elapsed > sb_max_duration_ms sb then Err (Too_slow elapsed (sb_max_duration_ms sb))
        else if SANDBOX_MAX_OUTPUT_SIZE < length output then Err Output_too_large
        else Ok \<lparr>er_output = output, er_execution_time_ms = elapsed, er_peak_memory_mb = of_nat (length data) div (1024 * 1024) + 1,
                er_result_hash = hex_encode p (blake3 p output)\<rparr>))"

definition sandbox_execute ::
    "primitives \<Rightarrow> maths \<Rightarrow> u64 \<Rightarrow> compute_sandbox \<Rightarrow> compute_task \<Rightarrow> (execution_result, sandbox_error) res" where
  "sandbox_execute p mt elapsed sb task =
     (case task of
        Deterministic function_hash input_data _ \<Rightarrow> execute_deterministic p mt elapsed sb function_hash input_data
      | Wasm _ _ _ _ \<Rightarrow> Err Wasm_unavailable
      | OnnxInference _ _ _ \<Rightarrow> Err Onnx_unavailable
      | LlmInference _ _ _ _ _ \<Rightarrow> Err Llm_elsewhere)"

section \<open>The agent\<close>

datatype compute_event =
    JobSubmitted string | JobAssigned string "string list" | JobCompleted string | JobFailed string string | JobDisputed string
  | WorkerRegistered string

record compute_agent =
  ca_scheduler :: scheduler
  ca_reputation :: rep_oracle
  ca_sandbox :: compute_sandbox
  ca_running :: bool
  ca_events :: "compute_event list"

definition compute_agent_new :: "scheduler \<Rightarrow> rep_oracle \<Rightarrow> compute_agent" where
  "compute_agent_new s m = \<lparr>ca_scheduler = s, ca_reputation = m, ca_sandbox = sandbox_new, ca_running = False, ca_events = []\<rparr>"

definition agent_start :: "compute_agent \<Rightarrow> compute_agent" where "agent_start a = a\<lparr>ca_running := True\<rparr>"

definition agent_shutdown :: "compute_agent \<Rightarrow> compute_agent" where "agent_shutdown a = a\<lparr>ca_running := False\<rparr>"

definition agent_send :: "compute_event \<Rightarrow> compute_agent \<Rightarrow> compute_agent" where
  "agent_send ev a = a\<lparr>ca_events := ca_events a @ [ev]\<rparr>"

datatype agent_error = Scheduler_error sched_error | Agent_job_not_found string | Sandbox_error sandbox_error

definition agent_register_node :: "node_capability \<Rightarrow> compute_agent \<Rightarrow> (compute_agent, agent_error) res" where
  "agent_register_node cap a =
     res_bind (res_map_err Scheduler_error (register_capability cap (ca_scheduler a)))
       (\<lambda>s. Ok (agent_send (WorkerRegistered (nc_node_address cap)) (a\<lparr>ca_scheduler := s\<rparr>)))"

definition agent_submit_job :: "compute_job \<Rightarrow> compute_agent \<Rightarrow> (string \<times> compute_agent, agent_error) res" where
  "agent_submit_job job a =
     res_bind (res_map_err Scheduler_error (submit_job job (ca_scheduler a)))
       (\<lambda>s. Ok (cj_job_id job, agent_send (JobSubmitted (cj_job_id job)) (a\<lparr>ca_scheduler := s\<rparr>)))"

definition agent_submit_bid :: "worker_bid \<Rightarrow> compute_agent \<Rightarrow> (compute_agent, agent_error) res" where
  "agent_submit_bid bid a =
     res_bind (res_map_err Scheduler_error (submit_bid bid (ca_scheduler a))) (\<lambda>s. Ok (a\<lparr>ca_scheduler := s\<rparr>))"

definition agent_assign_workers :: "string \<Rightarrow> compute_agent \<Rightarrow> (string list \<times> compute_agent, agent_error) res" where
  "agent_assign_workers i a =
     res_bind (res_map_err Scheduler_error (assign_workers i (ca_scheduler a)))
       (\<lambda>(ws, s). Ok (ws, agent_send (JobAssigned i ws) (a\<lparr>ca_scheduler := s\<rparr>)))"

definition execute_local ::
    "primitives \<Rightarrow> maths \<Rightarrow> u64 \<Rightarrow> u64 \<Rightarrow> string \<Rightarrow> compute_agent \<Rightarrow> (worker_result, agent_error) res" where
  "execute_local p mt elapsed now i a =
     (case get_job i (ca_scheduler a) of
        None \<Rightarrow> Err (Agent_job_not_found i)
      | Some job \<Rightarrow>
          res_bind (res_map_err Sandbox_error (sandbox_execute p mt elapsed (ca_sandbox a) (cj_task job)))
            (\<lambda>r. Ok \<lparr>wr_worker = [], wr_output_file_id = None, wr_output_data = Some (er_output r),
                    wr_execution_time_ms = er_execution_time_ms r, wr_cpu_time_ms = er_execution_time_ms r,
                    wr_peak_memory_mb = er_peak_memory_mb r, wr_result_hash = er_result_hash r, wr_submitted_at = now\<rparr>))"

definition agent_submit_result ::
    "((string \<times> nat) list \<Rightarrow> (string \<times> nat) list) \<Rightarrow> u64 \<Rightarrow> u64 \<Rightarrow> string \<Rightarrow> worker_result \<Rightarrow> compute_agent
     \<Rightarrow> (compute_agent, agent_error) res" where
  "agent_submit_result order created now i result a =
     res_bind (res_map_err Scheduler_error (submit_result order i result (ca_scheduler a))) (\<lambda>s.
       let worker = wr_worker result; a' = a\<lparr>ca_scheduler := s\<rparr>
       in case get_job i s of
            None \<Rightarrow> Ok a'
          | Some job \<Rightarrow>
             (case cj_status job of
                Completed \<Rightarrow>
                  (case record_success created now worker (wr_execution_time_ms result) (ca_reputation a') of
                     Ok m \<Rightarrow> Ok (agent_send (JobCompleted i) (a'\<lparr>ca_reputation := m\<rparr>))
                   | _ \<Rightarrow> Panic)
              | Disputed \<Rightarrow> Ok (agent_send (JobDisputed i) (a'\<lparr>ca_reputation := record_dispute created now worker (ca_reputation a')\<rparr>))
              | Failed reason \<Rightarrow>
                  Ok (agent_send (JobFailed i reason) (a'\<lparr>ca_reputation := record_failure created now worker (ca_reputation a')\<rparr>))
              | _ \<Rightarrow> Ok a'))"

section \<open>Results of honest workers\<close>

lemma run_kernel_length:
  assumes "blake3_size p" "name \<noteq> ''stat''"
  shows "length (run_kernel p mt name data) \<le> length data + 32"
proof -
  have b: "\<forall>x. length (blake3 p x) = 32" using assms(1) by (simp add: blake3_size_def)
  then have "length (hash_kernel p data) = 32" "length (matrix_kernel p data) = 32"
    by (simp_all add: hash_kernel_def matrix_kernel_def Let_def blake3_chain_length)
  moreover have "length (sort_kernel data) = length data + 3" by (simp add: sort_kernel_def sorted_bytes_def byte_values_def Let_def)
  ultimately show ?thesis using assms(2) b by (simp add: run_kernel_def)
qed

lemma execute_other_kernel:
  assumes "blake3_size p" "str_slice_to f (min 4 (length f)) = (Ok name :: (string, sandbox_error) res)" "name \<noteq> ''stat''"
    "length data + 32 \<le> SANDBOX_MAX_OUTPUT_SIZE" "elapsed \<le> JOB_MAX_DURATION_MS"
  shows "sandbox_execute p mt elapsed sandbox_new (Deterministic f data hint) =
     Ok \<lparr>er_output = run_kernel p mt name data, er_execution_time_ms = elapsed,
         er_peak_memory_mb = of_nat (length data) div (1024 * 1024) + 1,
         er_result_hash = hex_encode p (blake3 p (run_kernel p mt name data))\<rparr>"
proof -
  have "\<not> unat (sb_max_memory_bytes sandbox_new) < length data"
    using assms(4) by (simp add: sandbox_new_def WASM_MAX_MEMORY_PAGES_def SANDBOX_MAX_OUTPUT_SIZE_def)
  moreover have "\<not> SANDBOX_MAX_OUTPUT_SIZE < length (run_kernel p mt name data)"
    using run_kernel_length [OF assms(1,3), of mt data] assms(4) by simp
  moreover have "\<not> elapsed > sb_max_duration_ms sandbox_new" using assms(5) by (simp add: sandbox_new_def)
  ultimately show ?thesis using assms(2) by (simp add: sandbox_execute_def execute_deterministic_def Let_def)
qed



section \<open>Rating workers\<close>

lemma submitted_job:
  assumes "submit_result order i r s = Ok s'"
  obtains job job' where "tree_get (sc_jobs s) i = Some job" "wr_worker r \<in> set (cj_assigned_workers job)" "get_job i s' = Some job'"
    "unat (jr_redundancy (cj_requirements job)) \<le> Suc (length (cj_results job)) \<Longrightarrow>
       \<exists>inc. verify_results order (job\<lparr>cj_results := cj_results job @ [r], cj_status := Verifying\<rparr>) = Ok (job', inc)"
  using assms
  by (auto simp: submit_result_def Let_def get_job_def res_simps tree_simps split: option.splits if_splits prod.splits)

lemma majority_keeps_completing:
  assumes "iteration_order order" "submit_result order i r s = Ok s'" "tree_get (sc_jobs s) i = Some job"
    "unat (jr_redundancy (cj_requirements job)) \<le> Suc (length (cj_results job))"
    "0 < agreeing (cj_results job) h" "majority_threshold (jr_redundancy (cj_requirements job)) \<le> agreeing (cj_results job) h"
  shows "\<exists>job'. get_job i s' = Some job' \<and> cj_status job' = Completed"
proof -
  obtain job0 job' where j: "tree_get (sc_jobs s) i = Some job0" "get_job i s' = Some job'"
    "unat (jr_redundancy (cj_requirements job0)) \<le> Suc (length (cj_results job0)) \<Longrightarrow>
       \<exists>inc. verify_results order (job0\<lparr>cj_results := cj_results job0 @ [r], cj_status := Verifying\<rparr>) = Ok (job', inc)"
    by (rule submitted_job [OF assms(2)]) blast
  then have eq: "job0 = job" using assms(3) by simp
  obtain inc where v: "verify_results order (job\<lparr>cj_results := cj_results job @ [r], cj_status := Verifying\<rparr>) = Ok (job', inc)"
    using j(3) assms(4) unfolding eq by blast
  have more: "0 < agreeing (cj_results job @ [r]) h"
    "majority_threshold (jr_redundancy (cj_requirements job)) \<le> agreeing (cj_results job @ [r]) h"
    using assms(5,6) by (simp_all add: agreeing_append)
  have "cj_status job' = Completed"
    using verify_results_status [OF assms(1) v] more by (auto simp: not_less [symmetric])
  with j(2) show ?thesis by blast
qed


definition stray_result :: worker_result where
  "stray_result = sample_result\<lparr>wr_result_hash := ''other''\<rparr>"

lemma stray_accepted:
  "\<exists>a'. agent_submit_result (\<lambda>xs. xs) 1 2 ''j1'' stray_result (compute_agent_new sample_done []) = Ok a'"
proof -
  have "is_ok (submit_result (\<lambda>xs. xs) ''j1'' stray_result sample_done)" by code_simp
  then obtain s where s: "submit_result (\<lambda>xs. xs) ''j1'' stray_result sample_done = Ok s" by (auto simp: is_ok_iff)
  have l: "log_prefix ''n1'' 12 = (Ok ''n1'' :: (string, unit) res)" by code_simp
  have "\<exists>m. record_success 1 2 (wr_worker stray_result) t [] = Ok m" for t
    by (simp add: record_success_def Let_def stray_result_def sample_result_def l)
  then show ?thesis
    by (auto simp: agent_submit_result_def compute_agent_new_def s Let_def split: option.split job_status.split res.split)
      (metis res.distinct)+
qed


end
