(* ===== verification/RecordsKeeper.thy ===== *)
theory RecordsKeeper
  imports Consensus FloatArith Machine
begin

text \<open>
  \<^verbatim>\<open>src/src/agents/records_keeper.rs\<close>: the agent that checks transactions for anomalies and scores them, one tick of each of its workers;
  and \<^verbatim>\<open>src/src/security.rs\<close>, which collects the anomalies it reports. \<open>clock\<close> gives the two clock readings taken while a
  transaction is examined, \<open>fmt\<close> the text of an amount, \<open>order\<close> the iteration order of the hash map, \<open>json\<close> the serialisation of a
  record. Events are collected in the order they are sent.
\<close>

section \<open>Types\<close>

record records_config =
  rc_batch_size :: nat
  rc_max_pending_records :: nat
  rc_unusual_amount_threshold :: u64
  rc_high_frequency_threshold :: nat

definition records_config_default :: records_config where
  "records_config_default = \<lparr>rc_batch_size = 100, rc_max_pending_records = 10000, rc_unusual_amount_threshold = 100000000000,
     rc_high_frequency_threshold = 10\<rparr>"

datatype anomaly_type =
  UnusualAmount | HighFrequency | SuspiciousPattern | UnknownAddress | IntelligenceThreshold | NetworkAnomaly

record anomaly_flag =
  af_flag_type :: anomaly_type
  af_severity :: f64
  af_description :: string
  af_detected_at :: string

datatype validation_status = Unchecked | Valid | Invalid tx_error | Suspicious string | Quarantined

record transaction_record =
  tn_tx_id :: string
  tn_transaction :: transaction
  tn_validation_status :: validation_status
  tn_processed_at :: string
  tn_intelligence_score :: f64
  tn_anomaly_flags :: "anomaly_flag list"

datatype records_event =
  RecordProcessed string | AnomalyDetected anomaly_flag | ValidationComplete string validation_status

record records_keeper =
  rk_config :: records_config
  rk_active :: bool
  rk_processed_count :: u64
  rk_anomaly_count :: u64
  rk_pending :: "(string, transaction_record) tree"
  rk_validated :: "transaction_record list"
  rk_activity :: "(string, u64 list) tree"
  rk_stored :: "(string, bytes) tree"
  rk_events :: "records_event list"

definition records_keeper_new :: "records_config \<Rightarrow> records_keeper" where
  "records_keeper_new cfg = \<lparr>rk_config = cfg, rk_active = False, rk_processed_count = 0, rk_anomaly_count = 0, rk_pending = [],
     rk_validated = [], rk_activity = [], rk_stored = [], rk_events = []\<rparr>"

definition records_start :: "records_keeper \<Rightarrow> records_keeper" where "records_start k = k\<lparr>rk_active := True\<rparr>"

definition records_shutdown :: "records_keeper \<Rightarrow> records_keeper" where "records_shutdown k = k\<lparr>rk_active := False\<rparr>"

definition process_transaction :: "string \<Rightarrow> transaction \<Rightarrow> records_keeper \<Rightarrow> records_keeper" where
  "process_transaction now tx k =
     (let r = \<lparr>tn_tx_id = tx_id tx, tn_transaction = tx, tn_validation_status = Unchecked, tn_processed_at = now,
               tn_intelligence_score = f64_lit 0, tn_anomaly_flags = []\<rparr>
      in if length (rk_pending k) < rc_max_pending_records (rk_config k)
         then k\<lparr>rk_pending := tree_insert (tn_tx_id r) r (rk_pending k)\<rparr> else k)"

section \<open>Anomalies\<close>

definition flag :: "anomaly_type \<Rightarrow> rat \<Rightarrow> string \<Rightarrow> string \<Rightarrow> anomaly_flag" where
  "flag ty severity description now =
     \<lparr>af_flag_type = ty, af_severity = f64_lit severity, af_description = description, af_detected_at = now\<rparr>"

definition note_activity :: "u64 \<Rightarrow> string \<Rightarrow> (string, u64 list) tree \<Rightarrow> (string, u64 list) tree" where
  "note_activity now_ms address act =
     tree_insert address ((case tree_get act address of Some ts \<Rightarrow> ts | None \<Rightarrow> []) @ [now_ms]) act"

definition recent_count :: "u64 \<Rightarrow> string \<Rightarrow> (string, u64 list) tree \<Rightarrow> nat" where
  "recent_count now_ms address act =
     (case tree_get act address of
        Some ts \<Rightarrow> length (filter (\<lambda>t. t > saturating_sub now_ms 60000) ts)
      | None \<Rightarrow> 0)"

text \<open>The description of a frequent sender slices its address, which panics inside a multi-byte character.\<close>

definition frequency_flags ::
    "records_config \<Rightarrow> string \<times> u64 \<Rightarrow> transaction \<Rightarrow> (string, u64 list) tree \<Rightarrow> (anomaly_flag list \<times> (string, u64 list) tree, unit) res" where
  "frequency_flags cfg clk tx act =
     (if tx_from tx = ''GENESIS'' then Ok ([], act)
      else let act' = note_activity (snd clk) (tx_from tx) act; n = recent_count (snd clk) (tx_from tx) act'
           in if rc_high_frequency_threshold cfg < n then
                res_bind (str_slice_to (tx_from tx) (min 12 (length (tx_from tx)))) (\<lambda>d.
                  Ok ([flag HighFrequency (6 / 10) (''High frequency: '' @ dec n @ '' txs from '' @ d @ '' in 1 minute'') (fst clk)], act'))
              else Ok ([], act'))"

definition detect_anomalies ::
    "(nat \<Rightarrow> u64 \<Rightarrow> string) \<Rightarrow> records_config \<Rightarrow> string \<times> u64 \<Rightarrow> transaction \<Rightarrow> (string, u64 list) tree
     \<Rightarrow> (anomaly_flag list \<times> (string, u64 list) tree, unit) res" where
  "detect_anomalies fmt cfg clk tx act =
     (let now = fst clk;
          unusual = (if tx_amount tx > rc_unusual_amount_threshold cfg
            then [flag UnusualAmount (7 / 10)
              (''Large transfer: '' @ dec64 (tx_amount tx) @ '' base units ('' @ fmt 4 (tx_amount tx) @ '' AURA)'') now] else []);
          genesis_fee = (if tx_from tx = ''GENESIS'' \<and> tx_fee tx > 0
            then [flag SuspiciousPattern (8 / 10) ''Genesis tx with non-zero fee'' now] else []);
          short_to = (if length (tx_to tx) < 5 \<and> tx_to tx \<noteq> ''GENESIS''
            then [flag UnknownAddress (5 / 10) (''Suspiciously short recipient address: '' @ tx_to tx) now] else []);
          zero_fee = (if tx_from tx \<noteq> ''GENESIS'' \<and> tx_fee tx = 0
            then [flag SuspiciousPattern (9 / 10) ''Zero fee transaction from non-genesis address'' now] else [])
      in res_bind (frequency_flags cfg clk tx act) (\<lambda>(frequent, act').
           Ok (unusual @ frequent @ genesis_fee @ short_to @ zero_fee, act')))"

definition calculate_score :: "transaction \<Rightarrow> anomaly_flag list \<Rightarrow> f64" where
  "calculate_score tx flags =
     (let s1 = foldl (\<lambda>s f. f64_sub s (f64_mul (af_severity f) (f64_lit 20))) (f64_lit 100) flags;
          s2 = (if tx_fee tx > 2000 then f64_add s1 (f64_lit 5) else s1);
          s3 = (case tx_data tx of Some d \<Rightarrow> if 256 < length d then f64_sub s2 (f64_lit 5) else s2 | None \<Rightarrow> s2)
      in f64_clamp (f64_lit 0) (f64_lit 100) s3)"

definition overall_status :: "validation_status \<Rightarrow> anomaly_flag list \<Rightarrow> validation_status" where
  "overall_status status flags =
     (if list_ex (\<lambda>f. f64_ge (af_severity f) (f64_lit (9 / 10))) flags then Quarantined
      else if flags \<noteq> [] then
        (case status of Valid \<Rightarrow> Suspicious (dec (length flags) @ '' anomaly flag(s) detected'') | other \<Rightarrow> other)
      else status)"

definition evaluate_transaction ::
    "primitives \<Rightarrow> (nat \<Rightarrow> u64 \<Rightarrow> string) \<Rightarrow> records_config \<Rightarrow> string \<times> u64 \<Rightarrow> transaction \<Rightarrow> (string, u64 list) tree
     \<Rightarrow> (validation_status \<times> anomaly_flag list \<times> f64 \<times> (string, u64 list) tree, unit) res" where
  "evaluate_transaction p fmt cfg clk tx act =
     (case validate_basic p tx of
        Panic \<Rightarrow> Panic
      | v \<Rightarrow>
         let status = (case v of Err x \<Rightarrow> Invalid x | _ \<Rightarrow> Valid)
         in res_bind (detect_anomalies fmt cfg clk tx act) (\<lambda>(flags, act').
              Ok (overall_status status flags, flags, calculate_score tx flags, act')))"

section \<open>The workers\<close>

definition RING_SIZE :: nat where "RING_SIZE = 10000"

text \<open>
  One pending record: the evaluated record replaces the pending one, and as its status is no longer the pending one it moves to the
  front of the ring buffer at once.
\<close>

definition validate_record ::
    "primitives \<Rightarrow> (nat \<Rightarrow> u64 \<Rightarrow> string) \<Rightarrow> (string \<Rightarrow> string \<times> u64) \<Rightarrow> string \<Rightarrow> records_keeper \<Rightarrow> (records_keeper, unit) res" where
  "validate_record p fmt clock i k =
     (case tree_get (rk_pending k) i of
        None \<Rightarrow> Ok k
      | Some r \<Rightarrow>
          res_bind (evaluate_transaction p fmt (rk_config k) (clock i) (tn_transaction r) (rk_activity k)) (\<lambda>(status, flags, score, act).
            let r' = r\<lparr>tn_validation_status := status, tn_anomaly_flags := flags, tn_intelligence_score := score\<rparr>;
                k1 = k\<lparr>rk_activity := act\<rparr>
            in if status = Unchecked then Ok (k1\<lparr>rk_pending := tree_insert i r' (rk_pending k)\<rparr>)
               else Ok (k1\<lparr>rk_pending := tree_remove i (rk_pending k), rk_validated := take RING_SIZE (r' # rk_validated k),
                          rk_processed_count := rk_processed_count k + 1, rk_anomaly_count := rk_anomaly_count k + of_nat (length flags),
                          rk_events := rk_events k @ RecordProcessed i # ValidationComplete i status # map AnomalyDetected flags\<rparr>)))"

definition pending_ids ::
    "((string \<times> transaction_record) list \<Rightarrow> (string \<times> transaction_record) list) \<Rightarrow> records_keeper \<Rightarrow> string list" where
  "pending_ids order k =
     map fst (take (rc_batch_size (rk_config k)) (filter (\<lambda>(_, r). tn_validation_status r = Unchecked) (order (rk_pending k))))"

definition validation_tick ::
    "primitives \<Rightarrow> (nat \<Rightarrow> u64 \<Rightarrow> string) \<Rightarrow> (string \<Rightarrow> string \<times> u64)
     \<Rightarrow> ((string \<times> transaction_record) list \<Rightarrow> (string \<times> transaction_record) list) \<Rightarrow> records_keeper \<Rightarrow> (records_keeper, unit) res" where
  "validation_tick p fmt clock order k = res_fold (validate_record p fmt clock) (pending_ids order k) k"

definition persistence_tick :: "(transaction_record \<Rightarrow> bytes option) \<Rightarrow> records_keeper \<Rightarrow> records_keeper" where
  "persistence_tick json k =
     k\<lparr>rk_stored := fold (\<lambda>r t. case json r of Some d \<Rightarrow> tree_insert (tn_tx_id r) d t | None \<Rightarrow> t)
        (take (rc_batch_size (rk_config k)) (rk_validated k)) (rk_stored k)\<rparr>"

definition activity_cleanup_tick :: "u64 \<Rightarrow> records_keeper \<Rightarrow> records_keeper" where
  "activity_cleanup_tick now_ms k =
     (let cutoff = saturating_sub now_ms 120000
      in k\<lparr>rk_activity := filter (\<lambda>(_, ts). ts \<noteq> []) (map (\<lambda>(a, ts). (a, filter (\<lambda>t. t > cutoff) ts)) (rk_activity k))\<rparr>)"

section \<open>The security monitor\<close>

definition MAX_RECENT :: nat where "MAX_RECENT = 500"

datatype security_level = Green | Yellow | Red

record security_status =
  ss_level :: security_level
  ss_recent_anomaly_count :: nat
  ss_high_severity_count :: nat

type_synonym security_monitor = "anomaly_flag list"

definition report_anomaly :: "anomaly_flag \<Rightarrow> security_monitor \<Rightarrow> security_monitor" where
  "report_anomaly f m = take MAX_RECENT (f # m)"

definition recent_anomalies :: "nat \<Rightarrow> security_monitor \<Rightarrow> anomaly_flag list" where
  "recent_anomalies limit m = take limit m"

definition monitor_status :: "security_monitor \<Rightarrow> security_status" where
  "monitor_status m =
     (let high = length (filter (\<lambda>f. f64_ge (af_severity f) (f64_lit (8 / 10))) m);
          level = (if 5 \<le> high then Red else if 10 \<le> length m \<or> 2 \<le> high then Yellow else Green)
      in \<lparr>ss_level = level, ss_recent_anomaly_count = length m, ss_high_severity_count = high\<rparr>)"

text \<open>The node forwards every anomaly event of the agent to the monitor.\<close>

definition forward_events :: "records_event list \<Rightarrow> security_monitor \<Rightarrow> security_monitor" where
  "forward_events evs m = fold (\<lambda>ev m. case ev of AnomalyDetected f \<Rightarrow> report_anomaly f m | _ \<Rightarrow> m) evs m"

section \<open>Scores\<close>

lemma dyadic_neg_nat: "n < 2 ^ 53 \<Longrightarrow> dyadic (- of_nat n)"
  by (rule dyadicI [of _ n 0]) simp_all

lemma record_lits: "f64_in 5 5 (f64_lit 5)" "f64_in 20 20 (f64_lit 20)"
  unfolding f64_lit_def by (rule f64_in_literal; simp add: dyadic_numeral)+

definition severity_ok :: "anomaly_flag \<Rightarrow> bool" where "severity_ok f \<longleftrightarrow> f64_in 0 1 (af_severity f)"

lemma deduct_range:
  assumes "list_all severity_ok flags" "f64_in (- of_nat (20 * n)) 100 s" "n + length flags \<le> 1000"
  shows "f64_in (- of_nat (20 * (n + length flags))) 100 (foldl (\<lambda>s f. f64_sub s (f64_mul (af_severity f) (f64_lit 20))) s flags)"
  using assms
proof (induction flags arbitrary: s n)
  case (Cons f flags)
  have sev: "f64_in 0 1 (af_severity f)" using Cons.prems(1) by (simp add: severity_ok_def)
  have d: "f64_in 0 20 (f64_mul (af_severity f) (f64_lit 20))"
    by (rule f64_in_mul [OF sev record_lits(2)]) (simp_all add: dyadics)
  have le: "- of_nat (20 * Suc n) \<le> - of_nat (20 * n) - (20 :: rat)" by simp
  have small: "20 * Suc n < 2 ^ 53" using Cons.prems(3) by simp
  have "f64_in (- of_nat (20 * Suc n)) 100 (f64_sub s (f64_mul (af_severity f) (f64_lit 20)))"
    by (rule f64_in_sub [OF Cons.prems(2) d le _ dyadic_neg_nat [OF small]]) (simp_all add: dyadic_numeral)
  from Cons.IH [OF _ this] Cons.prems(1,3) show ?case by simp
qed simp

lemma calculate_score_range:
  assumes "list_all severity_ok flags" "length flags \<le> 1000"
  shows "f64_in 0 100 (calculate_score tx flags)"
proof -
  define s1 where "s1 = foldl (\<lambda>s f. f64_sub s (f64_mul (af_severity f) (f64_lit 20))) (f64_lit 100) flags"
  have "f64_in (- of_nat (20 * 0)) 100 (f64_lit 100)" by (rule f64_in_weaken [OF f64_lits(4)]) simp_all
  from deduct_range [OF assms(1) this] assms(2) have "f64_in (- of_nat (20 * length flags)) 100 s1" by (simp add: s1_def)
  moreover have "of_nat (20 * length flags) \<le> (20000 :: rat)" using assms(2) of_nat_mono [of "20 * length flags" 20000, where 'a = rat] by simp
  ultimately have s1: "f64_in (- 20000) 100 s1" by (auto intro: f64_in_weaken)
  have "f64_in (- 20000) 105 (f64_add s1 (f64_lit 5))" by (rule f64_in_add [OF s1 record_lits(1)]) (simp_all add: dyadics)
  then have s2: "f64_in (- 20000) 105 (if tx_fee tx > 2000 then f64_add s1 (f64_lit 5) else s1)" (is "f64_in _ _ ?s2")
    using f64_in_weaken [OF s1, of "- 20000" 105] by simp
  have "f64_in (- 20005) 105 (f64_sub ?s2 (f64_lit 5))" by (rule f64_in_sub [OF s2 record_lits(1)]) (simp_all add: dyadics)
  then have "f64_in (- 20005) 105 (case tx_data tx of Some d \<Rightarrow> if 256 < length d then f64_sub ?s2 (f64_lit 5) else ?s2 | None \<Rightarrow> ?s2)"
    using f64_in_weaken [OF s2, of "- 20005" 105] by (auto split: option.split)
  from f64_in_clamp [OF this f64_lits(1,4)] show ?thesis unfolding calculate_score_def Let_def s1_def by simp
qed

section \<open>Evaluating a transaction\<close>

definition sender_readable :: "transaction \<Rightarrow> bool" where
  "sender_readable tx \<longleftrightarrow> is_char_boundary (tx_from tx) (min 12 (length (tx_from tx)))"

lemma flag_severity: "0 \<le> r \<Longrightarrow> r \<le> 1 \<Longrightarrow> severity_ok (flag ty r d now)"
  unfolding severity_ok_def flag_def f64_lit_def by simp (rule f64_in_literal; simp add: dyadic_numeral)

lemma frequency_flags_Ok:
  "sender_readable tx \<Longrightarrow>
     \<exists>fs act'. frequency_flags cfg clk tx act = Ok (fs, act') \<and> list_all severity_ok fs \<and> length fs \<le> 1"
  by (auto simp: frequency_flags_def sender_readable_def str_slice_to_def Let_def flag_severity)

lemma detect_anomalies_Ok:
  assumes "sender_readable tx"
  shows "\<exists>fs act'. detect_anomalies fmt cfg clk tx act = Ok (fs, act') \<and> list_all severity_ok fs \<and> length fs \<le> 5 \<and>
     (tx_from tx \<noteq> ''GENESIS'' \<longrightarrow> tx_fee tx = 0 \<longrightarrow> (\<exists>f \<in> set fs. af_severity f = f64_lit (9 / 10)))"
proof -
  obtain fs act' where f: "frequency_flags cfg clk tx act = Ok (fs, act')" "list_all severity_ok fs" "length fs \<le> 1"
    using frequency_flags_Ok [OF assms] by blast
  then show ?thesis
    by (simp add: detect_anomalies_def Let_def flag_severity list_all_append) (auto simp: flag_def)
qed

lemma lit_ge_self: "f64_ge (f64_lit (9 / 10)) (f64_lit (9 / 10))"
  using f64_in_not_nan [OF f64_in_literal [of "9 / 10" 0 1]] by (simp add: f64_ge_def f64_lit_def dyadic_numeral)

text \<open>What an evaluated record says.\<close>

definition verdict_ok :: "validation_status \<Rightarrow> anomaly_flag list \<Rightarrow> f64 \<Rightarrow> bool" where
  "verdict_ok status flags score \<longleftrightarrow> status \<noteq> Unchecked \<and> f64_in 0 100 score \<and>
     (status = Valid \<longrightarrow> flags = []) \<and>
     (status = Quarantined \<longleftrightarrow> list_ex (\<lambda>f. f64_ge (af_severity f) (f64_lit (9 / 10))) flags)"

lemma overall_status_cases:
  "status \<in> {Valid} \<union> range Invalid \<Longrightarrow> overall_status status flags \<noteq> Unchecked \<and> (overall_status status flags = Valid \<longrightarrow> flags = []) \<and>
     (overall_status status flags = Quarantined \<longleftrightarrow> list_ex (\<lambda>f. f64_ge (af_severity f) (f64_lit (9 / 10))) flags)"
  by (auto simp: overall_status_def)

lemma evaluate_Ok:
  assumes "sender_readable tx"
  shows "\<exists>status flags score act'. evaluate_transaction p fmt cfg clk tx act = Ok (status, flags, score, act') \<and>
     verdict_ok status flags score \<and> (tx_from tx \<noteq> ''GENESIS'' \<longrightarrow> tx_fee tx = 0 \<longrightarrow> status = Quarantined)"
proof -
  obtain fs act' where f: "detect_anomalies fmt cfg clk tx act = Ok (fs, act')" "list_all severity_ok fs" "length fs \<le> 5"
    "tx_from tx \<noteq> ''GENESIS'' \<longrightarrow> tx_fee tx = 0 \<longrightarrow> (\<exists>f \<in> set fs. af_severity f = f64_lit (9 / 10))"
    using detect_anomalies_Ok [OF assms] by blast
  define st where "st = (case validate_basic p tx of Err x \<Rightarrow> Invalid x | _ \<Rightarrow> Valid)"
  have "evaluate_transaction p fmt cfg clk tx act = Ok (overall_status st fs, fs, calculate_score tx fs, act')"
    using f(1) validate_basic_no_panic [of p tx] by (simp add: evaluate_transaction_def st_def split: res.split)
  moreover have "st \<in> {Valid} \<union> range Invalid" by (simp add: st_def split: res.split)
  note oc = overall_status_cases [OF this, of fs]
  have "verdict_ok (overall_status st fs) fs (calculate_score tx fs)"
    unfolding verdict_ok_def using oc calculate_score_range [OF f(2), of tx] f(3) by simp
  moreover have "tx_from tx \<noteq> ''GENESIS'' \<longrightarrow> tx_fee tx = 0 \<longrightarrow> overall_status st fs = Quarantined"
    using f(4) oc lit_ge_self by (force simp: list_ex_iff)
  ultimately show ?thesis by blast
qed

text \<open>The reward of every produced block is quarantined: pool payouts carry no fee.\<close>

lemma reward_quarantined:
  "\<exists>flags score act'. evaluate_transaction p fmt cfg clk (reward_tx p fmt a c t) act = Ok (Quarantined, flags, score, act')"
proof -
  have "sender_readable (reward_tx p fmt a c t)" by (simp add: sender_readable_def NODE_OPS_POOL_ADDRESS_def is_char_boundary_def)
  from evaluate_Ok [OF this, of p fmt cfg clk act] show ?thesis by (auto simp: NODE_OPS_POOL_ADDRESS_def)
qed

section \<open>Runs of the agent\<close>

definition keeper_ok :: "records_keeper \<Rightarrow> bool" where
  "keeper_ok k \<longleftrightarrow> tree_wf (rk_pending k) \<and> length (rk_pending k) \<le> rc_max_pending_records (rk_config k) \<and>
     (\<forall>i r. tree_get (rk_pending k) i = Some r \<longrightarrow>
        tn_tx_id r = i \<and> tn_validation_status r = Unchecked \<and> sender_readable (tn_transaction r)) \<and>
     length (rk_validated k) \<le> RING_SIZE \<and>
     (\<forall>r \<in> set (rk_validated k). verdict_ok (tn_validation_status r) (tn_anomaly_flags r) (tn_intelligence_score r))"

lemma keeper_ok_new: "keeper_ok (records_keeper_new cfg)"
  by (simp add: keeper_ok_def records_keeper_new_def tree_simps)

lemma keeper_ok_process:
  "keeper_ok k \<Longrightarrow> sender_readable tx \<Longrightarrow> keeper_ok (process_transaction now tx k)"
  using length_tree_insert_le [of "tx_id tx" _ "rk_pending k"]
  by (auto simp: keeper_ok_def process_transaction_def Let_def tree_simps tree_wf_insert intro: le_trans)

lemma validate_record_Ok:
  assumes "keeper_ok k" "tree_get (rk_pending k) i = Some r"
  obtains k' where "validate_record p fmt clock i k = Ok k'" "keeper_ok k'" "rk_pending k' = tree_remove i (rk_pending k)"
    "rk_processed_count k' = rk_processed_count k + 1" "rk_config k' = rk_config k"
    "\<exists>r'. take 1 (rk_validated k') = [r'] \<and> tn_tx_id r' = i"
proof -
  have r: "tn_tx_id r = i" "sender_readable (tn_transaction r)" using assms by (simp_all add: keeper_ok_def)
  obtain st fs sc act' where e: "evaluate_transaction p fmt (rk_config k) (clock i) (tn_transaction r) (rk_activity k) = Ok (st, fs, sc, act')"
    "verdict_ok st fs sc" using evaluate_Ok [OF r(2)] by blast
  let ?r = "r\<lparr>tn_validation_status := st, tn_anomaly_flags := fs, tn_intelligence_score := sc\<rparr>"
  let ?k = "k\<lparr>rk_activity := act', rk_pending := tree_remove i (rk_pending k), rk_validated := take RING_SIZE (?r # rk_validated k),
    rk_processed_count := rk_processed_count k + 1, rk_anomaly_count := rk_anomaly_count k + of_nat (length fs),
    rk_events := rk_events k @ RecordProcessed i # ValidationComplete i st # map AnomalyDetected fs\<rparr>"
  have v: "validate_record p fmt clock i k = Ok ?k"
    using e assms(2) by (simp add: validate_record_def verdict_ok_def Let_def)
  have "length (tree_remove i (rk_pending k)) \<le> length (rk_pending k)" by (simp add: tree_remove_def)
  moreover have "verdict_ok (tn_validation_status x) (tn_anomaly_flags x) (tn_intelligence_score x)"
    if "x \<in> set (take RING_SIZE (?r # rk_validated k))" for x
    using in_set_takeD [OF that] assms(1) e(2) by (auto simp: keeper_ok_def)
  ultimately have "keeper_ok ?k" using assms(1) by (auto simp: keeper_ok_def tree_simps tree_wf_remove)
  moreover have "take 1 (take RING_SIZE (?r # rk_validated k)) = [?r]" by (simp add: RING_SIZE_def)
  ultimately show ?thesis using that [OF v] r(1) by simp
qed

lemma validate_records_Ok:
  assumes "keeper_ok k" "distinct ids" "set ids \<subseteq> tree_keys (rk_pending k)"
  shows "\<exists>k'. res_fold (validate_record p fmt clock) ids k = Ok k' \<and> keeper_ok k' \<and>
     length (rk_pending k') + length ids = length (rk_pending k) \<and> rk_processed_count k' = rk_processed_count k + of_nat (length ids)"
  using assms
proof (induction ids arbitrary: k)
  case (Cons i ids)
  obtain r where "tree_get (rk_pending k) i = Some r" using Cons.prems(3) tree_get_None_iff [of "rk_pending k" i] by auto
  from Cons.prems(1) this obtain k1 where k1: "validate_record p fmt clock i k = Ok k1" "keeper_ok k1"
    "rk_pending k1 = tree_remove i (rk_pending k)" "rk_processed_count k1 = rk_processed_count k + 1"
    by (rule validate_record_Ok)
  have sub: "set ids \<subseteq> tree_keys (rk_pending k1)" using Cons.prems(2,3) by (auto simp: k1(3) tree_keys_remove)
  have wf: "tree_wf (rk_pending k)" "tree_wf (rk_pending k1)" using Cons.prems(1) k1(2) by (simp_all add: keeper_ok_def)
  have "card (tree_keys (rk_pending k1)) + 1 = card (tree_keys (rk_pending k))"
    using Cons.prems(3) card_Suc_Diff1 [OF finite_tree_keys, of i "rk_pending k"] by (simp add: k1(3) tree_keys_remove)
  then have "length (rk_pending k1) + 1 = length (rk_pending k)" using wf by (simp add: length_tree)
  with Cons.IH [OF k1(2) _ sub] Cons.prems(2) k1(1,4) show ?case by (auto simp: add.assoc)
qed simp

lemma pending_ids_ok:
  assumes "keeper_ok k" "iteration_order order"
  shows "distinct (pending_ids order k)" "set (pending_ids order k) \<subseteq> tree_keys (rk_pending k)"
    "length (pending_ids order k) = min (rc_batch_size (rk_config k)) (length (rk_pending k))"
proof -
  have wf: "tree_wf (rk_pending k)" using assms(1) by (simp add: keeper_ok_def)
  have st: "tn_validation_status r = Unchecked" if "(i, r) \<in> set (rk_pending k)" for i r
    using that assms(1) tree_get_Some_iff [OF wf] by (auto simp: keeper_ok_def)
  have all: "filter (\<lambda>(_, r). tn_validation_status r = Unchecked) (order (rk_pending k)) = order (rk_pending k)"
    using st iteration_order_set [OF assms(2)] by (intro filter_True) auto
  have m: "mset (order (rk_pending k)) = mset (rk_pending k)" using assms(2) by (simp add: iteration_order_def)
  then have "mset (map fst (order (rk_pending k))) = mset (map fst (rk_pending k))" by simp
  then have "distinct (map fst (order (rk_pending k)))" using tree_wf_distinct [OF wf] mset_eq_imp_distinct_iff by blast
  then show "distinct (pending_ids order k)" by (simp only: pending_ids_def all take_map [symmetric] distinct_take)
  show "set (pending_ids order k) \<subseteq> tree_keys (rk_pending k)"
    using iteration_order_set [OF assms(2)] by (auto simp: pending_ids_def all tree_keys_def dest!: in_set_takeD)
  show "length (pending_ids order k) = min (rc_batch_size (rk_config k)) (length (rk_pending k))"
    using mset_eq_length [OF m] by (simp add: pending_ids_def all)
qed

lemma tick_drains:
  assumes "keeper_ok k" "iteration_order order"
  shows "\<exists>k'. validation_tick p fmt clock order k = Ok k' \<and> keeper_ok k' \<and>
     length (rk_pending k') = length (rk_pending k) - rc_batch_size (rk_config k) \<and>
     rk_processed_count k' = rk_processed_count k + of_nat (min (rc_batch_size (rk_config k)) (length (rk_pending k)))"
proof -
  note ids = pending_ids_ok [OF assms]
  obtain k' where k': "res_fold (validate_record p fmt clock) (pending_ids order k) k = Ok k'" "keeper_ok k'"
    "length (rk_pending k') + length (pending_ids order k) = length (rk_pending k)"
    "rk_processed_count k' = rk_processed_count k + of_nat (length (pending_ids order k))"
    using validate_records_Ok [OF assms(1) ids(1,2)] by blast
  then show ?thesis using ids(3) by (auto simp: validation_tick_def)
qed

datatype keeper_op =
    Process string transaction
  | Validate "string \<Rightarrow> string \<times> u64" "(string \<times> transaction_record) list \<Rightarrow> (string \<times> transaction_record) list"
  | Persist "transaction_record \<Rightarrow> bytes option"
  | Cleanup u64

fun keeper_step :: "primitives \<Rightarrow> (nat \<Rightarrow> u64 \<Rightarrow> string) \<Rightarrow> keeper_op \<Rightarrow> records_keeper \<Rightarrow> (records_keeper, unit) res" where
  "keeper_step p fmt (Process now tx) k = Ok (process_transaction now tx k)"
| "keeper_step p fmt (Validate clock order) k = validation_tick p fmt clock order k"
| "keeper_step p fmt (Persist json) k = Ok (persistence_tick json k)"
| "keeper_step p fmt (Cleanup now) k = Ok (activity_cleanup_tick now k)"

fun op_allowed :: "keeper_op \<Rightarrow> bool" where
  "op_allowed (Process now tx) = sender_readable tx"
| "op_allowed (Validate clock order) = iteration_order order"
| "op_allowed _ = True"

interpretation keeper: weighted_machine "keeper_step p fmt" op_allowed "\<lambda>e. 0" 1 "\<lambda>n. keeper_ok"
proof
  fix n k op k'
  assume ok: "keeper_ok k" and al: "op_allowed op" and st: "keeper_step p fmt op k = Ok k'"
  show "keeper_ok k'"
  proof (cases op)
    case (Validate clock order)
    with al st tick_drains [OF ok, of order p fmt clock] show ?thesis by auto
  next
    case (Process now tx)
    with al st keeper_ok_process [OF ok] show ?thesis by auto
  next
    case (Persist json)
    with st have "k' = persistence_tick json k" by simp
    with ok show ?thesis by (simp add: keeper_ok_def persistence_tick_def)
  next
    case (Cleanup now)
    with st have "k' = activity_cleanup_tick now k" by simp
    with ok show ?thesis by (simp add: keeper_ok_def activity_cleanup_tick_def Let_def)
  qed
qed


definition sample_records :: "keeper_op list" where
  "sample_records = [Process ''now'' (gtx ''t1'' ''abcdef'' 5 ''d''), Cleanup 9]"


section \<open>The monitor\<close>

lemma forward_bounded: "length m \<le> MAX_RECENT \<Longrightarrow> length (forward_events evs m) \<le> MAX_RECENT"
proof (induction evs arbitrary: m)
  case (Cons ev evs)
  have "length (case ev of AnomalyDetected f \<Rightarrow> report_anomaly f m | _ \<Rightarrow> m) \<le> MAX_RECENT"
    using Cons.prems by (auto simp: report_anomaly_def split: records_event.split)
  from Cons.IH [OF this] show ?case by (simp add: forward_events_def)
qed (simp add: forward_events_def)

text \<open>
  The anomaly events of quiet traffic leave the monitor green: below ten reports of which at most one is severe.
\<close>

lemma monitor_green:
  "ss_level (monitor_status m) = Green \<longleftrightarrow>
     length m < 10 \<and> length (filter (\<lambda>f. f64_ge (af_severity f) (f64_lit (8 / 10))) m) < 2"
  using length_filter_le [of "\<lambda>f. f64_ge (af_severity f) (f64_lit (8 / 10))" m] by (auto simp: monitor_status_def Let_def)

end
