(* ===== verification/Registry.thy ===== *)
theory Registry
  imports RustStr
begin

text \<open>
  \<^verbatim>\<open>src/src/llm/registry.rs\<close> and the types it keeps: registered models, the assignment of their pipeline stages to
  nodes and the stage heartbeats. The three maps are concurrent hash maps that hand out guards; \<open>order\<close> is their
  iteration order. A \<open>usize\<close> is 64 bits wide and its arithmetic wraps.
\<close>

datatype precision = FP32 | FP16 | BF16 | INT8 | INT4

record model_config =
  mc_model_id :: string
  mc_name :: string
  mc_num_layers :: u64
  mc_hidden_dim :: u64
  mc_num_heads :: u64
  mc_num_kv_heads :: u64
  mc_intermediate_dim :: u64
  mc_vocab_size :: u64
  mc_max_seq_len :: u64
  mc_rope_theta :: f64
  mc_rms_norm_eps :: f64
  mc_precision :: precision
  mc_pipeline_stages :: u64
  mc_layers_per_stage :: u64

datatype model_status = Registered | PartiallyServed | FullyServed | Training | Deprecated

record model_registry_entry =
  me_model_id :: string
  me_config :: model_config
  me_stage_weight_file_ids :: "string list"
  me_tokenizer_file_id :: "string option"
  me_registrant :: string
  me_registered_at_block :: u64
  me_status :: model_status
  me_active_pipelines :: u32

record stage_assignment =
  sa_model_id :: string
  sa_stage_index :: u32
  sa_start_layer :: u64
  sa_end_layer :: u64
  sa_node_address :: string
  sa_weight_file_id :: string
  sa_loaded :: bool
  sa_assigned_at :: u64
  sa_last_heartbeat :: u64

record stage_heartbeat =
  sh_model_id :: string
  sh_stage_index :: u32
  sh_node_address :: string
  sh_loaded :: bool
  sh_current_requests :: u32
  sh_tokens_served :: u64
  sh_avg_latency_ms :: f64
  sh_timestamp :: u64

record model_registry =
  mr_models :: "(string, model_registry_entry) tree"
  mr_stages :: "(string, stage_assignment) tree"
  mr_heartbeats :: "(string, stage_heartbeat) tree"

definition estimated_size_bytes :: "model_config \<Rightarrow> u64" where
  "estimated_size_bytes c =
     (let bytes_per_param = (case mc_precision c of FP32 \<Rightarrow> 4 | BF16 \<Rightarrow> 2 | FP16 \<Rightarrow> 2 | INT8 \<Rightarrow> 1 | INT4 \<Rightarrow> 1);
          embedding_params = mc_vocab_size c * mc_hidden_dim c;
          attn_params_per_layer = 4 * mc_hidden_dim c * mc_hidden_dim c;
          ffn_params_per_layer = 3 * mc_hidden_dim c * mc_intermediate_dim c;
          norm_params_per_layer = 2 * mc_hidden_dim c;
          per_layer = attn_params_per_layer + ffn_params_per_layer + norm_params_per_layer;
          total_params = embedding_params + per_layer * mc_num_layers c + embedding_params
      in total_params * bytes_per_param)"

definition stage_size_bytes :: "model_config \<Rightarrow> (u64, 'e) res" where
  "stage_size_bytes c =
     (if mc_pipeline_stages c = 0 then Panic else Ok (estimated_size_bytes c div mc_pipeline_stages c))"

datatype registry_error =
    Empty_model_id | Weight_count_mismatch nat u64 | Model_not_found string | Stage_out_of_range u32 u64
  | Stage_not_assigned nat string | Stage_not_ready nat string

definition registry_new :: model_registry where
  "registry_new = \<lparr>mr_models = [], mr_stages = [], mr_heartbeats = []\<rparr>"

definition register_model :: "model_registry_entry \<Rightarrow> model_registry \<Rightarrow> (model_registry, registry_error) res" where
  "register_model entry r =
     (if me_model_id entry = [] then Err Empty_model_id
      else if of_nat (length (me_stage_weight_file_ids entry)) \<noteq> mc_pipeline_stages (me_config entry)
      then Err (Weight_count_mismatch (length (me_stage_weight_file_ids entry)) (mc_pipeline_stages (me_config entry)))
      else Ok (r\<lparr>mr_models := tree_insert (me_model_id entry) entry (mr_models r)\<rparr>))"

definition get_model :: "string \<Rightarrow> model_registry \<Rightarrow> model_registry_entry option" where
  "get_model model_id r = tree_get (mr_models r) model_id"

definition list_models ::
    "((string \<times> model_registry_entry) list \<Rightarrow> (string \<times> model_registry_entry) list) \<Rightarrow> model_registry \<Rightarrow> model_registry_entry list" where
  "list_models order r = map snd (order (mr_models r))"

definition stage_key :: "string \<Rightarrow> nat \<Rightarrow> string" where
  "stage_key model_id i = model_id @ '':'' @ dec i"

definition stage_loaded :: "string \<Rightarrow> model_registry \<Rightarrow> nat \<Rightarrow> bool" where
  "stage_loaded model_id r i =
     (case tree_get (mr_stages r) (stage_key model_id i) of Some s \<Rightarrow> sa_loaded s | None \<Rightarrow> False)"

definition served_status :: "string \<Rightarrow> model_registry \<Rightarrow> nat \<Rightarrow> model_status" where
  "served_status model_id r n =
     (let assigned = length (filter (\<lambda>i. tree_get (mr_stages r) (stage_key model_id i) \<noteq> None) [0..<n]);
          ready = length (filter (stage_loaded model_id r) [0..<n])
      in if ready = n then FullyServed else if 0 < assigned then PartiallyServed else Registered)"

definition update_model_status :: "string \<Rightarrow> model_registry \<Rightarrow> model_registry" where
  "update_model_status model_id r =
     (case tree_get (mr_models r) model_id of
        None \<Rightarrow> r
      | Some model \<Rightarrow>
          r\<lparr>mr_models := tree_insert model_id
             (model\<lparr>me_status := served_status model_id r (unat (mc_pipeline_stages (me_config model)))\<rparr>) (mr_models r)\<rparr>)"

text \<open>
  The concurrent map's \<open>get_mut\<close> is the argument \<open>get_mut\<close>: the key of a shared guard the thread holds, the key asked
  for, and the registry; \<open>None\<close> when the call never returns. The crate documents that a call may deadlock while the
  caller holds a reference into the map; for the very entry that is guarded it waits for that guard.
\<close>

definition waits_for_own_guard :: "(string \<Rightarrow> string \<Rightarrow> model_registry \<Rightarrow> model_registry option) \<Rightarrow> bool" where
  "waits_for_own_guard get_mut \<longleftrightarrow> (\<forall>key r. get_mut key key r = None)"

text \<open>
  \<open>claim_stage\<close> keeps the guard \<open>model\<close> of its first lookup until it returns, and \<open>update_model_status\<close> asks for the same
  entry exclusively. The second component is the registry as other threads see it from then on.
\<close>

definition claim_stage ::
    "(string \<Rightarrow> string \<Rightarrow> model_registry \<Rightarrow> model_registry option) \<Rightarrow> stage_assignment \<Rightarrow> model_registry
       \<Rightarrow> (unit, registry_error) res option \<times> model_registry" where
  "claim_stage get_mut a r =
     (case tree_get (mr_models r) (sa_model_id a) of
        None \<Rightarrow> (Some (Err (Model_not_found (sa_model_id a))), r)
      | Some model \<Rightarrow>
          if mc_pipeline_stages (me_config model) \<le> ucast (sa_stage_index a)
          then (Some (Err (Stage_out_of_range (sa_stage_index a) (mc_pipeline_stages (me_config model)))), r)
          else
            let r' = r\<lparr>mr_stages := tree_insert (stage_key (sa_model_id a) (unat (sa_stage_index a))) a (mr_stages r)\<rparr>
            in case get_mut (sa_model_id a) (me_model_id model) r' of
                 None \<Rightarrow> (None, r')
               | Some r'' \<Rightarrow> (Some (Ok ()), update_model_status (me_model_id model) r''))"

definition get_stages ::
    "((string \<times> stage_assignment) list \<Rightarrow> (string \<times> stage_assignment) list) \<Rightarrow> string \<Rightarrow> model_registry \<Rightarrow> stage_assignment list" where
  "get_stages order model_id r = filter (\<lambda>s. sa_model_id s = model_id) (map snd (order (mr_stages r)))"

definition is_model_ready :: "string \<Rightarrow> model_registry \<Rightarrow> bool" where
  "is_model_ready model_id r =
     (case tree_get (mr_models r) model_id of
        None \<Rightarrow> False
      | Some model \<Rightarrow> list_all (stage_loaded model_id r) [0..<unat (mc_pipeline_stages (me_config model))])"

definition route_step :: "string \<Rightarrow> model_registry \<Rightarrow> nat \<Rightarrow> (u32 \<times> string) list \<Rightarrow> ((u32 \<times> string) list, registry_error) res" where
  "route_step model_id r i route =
     (case tree_get (mr_stages r) (stage_key model_id i) of
        None \<Rightarrow> Err (Stage_not_assigned i model_id)
      | Some a \<Rightarrow>
          if \<not> sa_loaded a then Err (Stage_not_ready i (sa_node_address a))
          else Ok (route @ [(of_nat i, sa_node_address a)]))"

definition get_pipeline_route :: "string \<Rightarrow> model_registry \<Rightarrow> ((u32 \<times> string) list, registry_error) res" where
  "get_pipeline_route model_id r =
     (case tree_get (mr_models r) model_id of
        None \<Rightarrow> Err (Model_not_found model_id)
      | Some model \<Rightarrow> res_fold (route_step model_id r) [0..<unat (mc_pipeline_stages (me_config model))] [])"

definition record_heartbeat :: "stage_heartbeat \<Rightarrow> model_registry \<Rightarrow> model_registry" where
  "record_heartbeat h r =
     (let key = stage_key (sh_model_id h) (unat (sh_stage_index h));
          stages = (case tree_get (mr_stages r) key of
                      None \<Rightarrow> mr_stages r
                    | Some a \<Rightarrow> tree_insert key (a\<lparr>sa_loaded := sh_loaded h, sa_last_heartbeat := sh_timestamp h\<rparr>) (mr_stages r))
      in r\<lparr>mr_stages := stages, mr_heartbeats := tree_insert key h (mr_heartbeats r)\<rparr>)"

definition mark_stage_ready :: "string \<Rightarrow> u32 \<Rightarrow> model_registry \<Rightarrow> model_registry" where
  "mark_stage_ready model_id stage_index r =
     (let key = stage_key model_id (unat stage_index);
          stages = (case tree_get (mr_stages r) key of
                      None \<Rightarrow> mr_stages r
                    | Some a \<Rightarrow> tree_insert key (a\<lparr>sa_loaded := True\<rparr>) (mr_stages r))
      in update_model_status model_id (r\<lparr>mr_stages := stages\<rparr>))"

definition model_count :: "model_registry \<Rightarrow> nat" where
  "model_count r = length (mr_models r)"

definition stage_count :: "model_registry \<Rightarrow> nat" where
  "stage_count r = length (mr_stages r)"

definition ready_model_count :: "model_registry \<Rightarrow> nat" where
  "ready_model_count r = length (filter (\<lambda>(k, m). is_model_ready (me_model_id m) r) (mr_models r))"

section \<open>Keys\<close>

lemma dec_no_colon: "CHR '':'' \<notin> set (dec n)"
proof (induction n rule: dec.induct)
  case (1 n)
  have ne: "CHR '':'' \<noteq> digit_char d" if "d < 10" for d
  proof
    assume "CHR '':'' = digit_char d"
    then have "(of_char (CHR '':'') :: nat) = of_char (digit_char d)" by simp
    with that show False by (simp add: digit_char_def)
  qed
  from 1 ne [of n] ne [of "n mod 10"] show ?case
    by (cases "n < 10") (simp_all add: dec.simps [of n])
qed

lemma takeWhile_stop: "\<forall>x \<in> set xs. P x \<Longrightarrow> \<not> P y \<Longrightarrow> takeWhile P (xs @ y # ys) = xs"
  by (induction xs) auto

lemma stage_key_tail: "takeWhile (\<lambda>c. c \<noteq> CHR '':'') (rev (stage_key a n)) = rev (dec n)"
proof -
  have "\<forall>c \<in> set (rev (dec n)). c \<noteq> CHR '':''" using dec_no_colon [of n] by auto
  from takeWhile_stop [OF this, of "CHR '':''" "rev a"] show ?thesis by (simp add: stage_key_def)
qed

lemma stage_key_inj [simp]: "stage_key m i = stage_key m' i' \<longleftrightarrow> m = m' \<and> i = i'"
proof
  assume eq: "stage_key m i = stage_key m' i'"
  then have "rev (dec i) = rev (dec i')" using stage_key_tail [of m i] stage_key_tail [of m' i'] by simp
  then have "i = i'" using dec_inj by simp
  with eq show "m = m' \<and> i = i'" by (simp add: stage_key_def)
qed simp

section \<open>Routes\<close>

definition stage_node :: "string \<Rightarrow> model_registry \<Rightarrow> nat \<Rightarrow> string" where
  "stage_node model_id r i =
     (case tree_get (mr_stages r) (stage_key model_id i) of Some a \<Rightarrow> sa_node_address a | None \<Rightarrow> [])"

lemma route_fold:
  "list_all (stage_loaded model_id r) is \<Longrightarrow>
     res_fold (route_step model_id r) is acc = Ok (acc @ map (\<lambda>i. (of_nat i, stage_node model_id r i)) is)"
  by (induction "is" arbitrary: acc)
    (auto simp: route_step_def stage_loaded_def stage_node_def split: option.splits)

lemma route_fold_Ok:
  "res_fold (route_step model_id r) is acc = Ok route \<Longrightarrow> list_all (stage_loaded model_id r) is"
  by (induction "is" arbitrary: acc)
    (auto simp: res_simps route_step_def stage_loaded_def split: option.splits if_splits)

text \<open>
  A route exists exactly when the model is ready: \<open>get_pipeline_route\<close> succeeds if and only if \<open>is_model_ready\<close> holds,
  and then it lists the stages from first to last, each once, with the node its assignment names.
\<close>

lemma route_iff_ready:
  "(\<exists>route. get_pipeline_route model_id r = Ok route) = is_model_ready model_id r
   \<and> (\<forall>route m. get_pipeline_route model_id r = Ok route \<and> get_model model_id r = Some m \<longrightarrow>
        route = map (\<lambda>i. (of_nat i, stage_node model_id r i)) [0..<unat (mc_pipeline_stages (me_config m))])"
proof -
  have "(\<exists>route. get_pipeline_route model_id r = Ok route) = is_model_ready model_id r"
    using route_fold [of model_id r _ "[]"] route_fold_Ok
    by (auto simp: get_pipeline_route_def is_model_ready_def split: option.splits)
  moreover have "route = map (\<lambda>i. (of_nat i, stage_node model_id r i)) [0..<unat (mc_pipeline_stages (me_config m))]"
    if "get_pipeline_route model_id r = Ok route" "get_model model_id r = Some m" for route m
    using that route_fold_Ok [of model_id r "[0..<unat (mc_pipeline_stages (me_config m))]" "[]" route]
      route_fold [of model_id r "[0..<unat (mc_pipeline_stages (me_config m))]" "[]"]
    by (simp add: get_pipeline_route_def get_model_def)
  ultimately show ?thesis by blast
qed

section \<open>Claims\<close>

definition registry_wf :: "model_registry \<Rightarrow> bool" where
  "registry_wf r \<longleftrightarrow> (\<forall>k m. tree_get (mr_models r) k = Some m \<longrightarrow> me_model_id m = k)"

lemma registry_wf_insert:
  "registry_wf r \<Longrightarrow> me_model_id m = k \<Longrightarrow> registry_wf (r\<lparr>mr_models := tree_insert k m (mr_models r)\<rparr>)"
  by (simp add: registry_wf_def tree_simps)

lemma registry_wf_register: "registry_wf r \<Longrightarrow> register_model e r = Ok r' \<Longrightarrow> registry_wf r'"
  by (auto simp: register_model_def intro: registry_wf_insert split: if_splits)

lemma registry_wf_stages: "registry_wf r \<Longrightarrow> registry_wf (r\<lparr>mr_stages := ss\<rparr>)"
  by (simp add: registry_wf_def)

lemma registry_wf_heartbeat: "registry_wf r \<Longrightarrow> registry_wf (record_heartbeat h r)"
  by (simp add: registry_wf_def record_heartbeat_def Let_def)

lemma registry_wf_update: "registry_wf r \<Longrightarrow> registry_wf (update_model_status m r)"
proof (cases "tree_get (mr_models r) m")
  case (Some e)
  assume "registry_wf r"
  with Some show ?thesis
    unfolding update_model_status_def by (simp add: registry_wf_insert) (simp add: registry_wf_def tree_simps)
qed (simp add: update_model_status_def)

lemma registry_wf_ready: "registry_wf r \<Longrightarrow> registry_wf (mark_stage_ready m i r)"
  by (simp add: mark_stage_ready_def Let_def registry_wf_update registry_wf_stages)

text \<open>The registries the operations reach, claims that hang included.\<close>

inductive registry_reach :: "(string \<Rightarrow> string \<Rightarrow> model_registry \<Rightarrow> model_registry option) \<Rightarrow> model_registry \<Rightarrow> bool"
  for get_mut :: "string \<Rightarrow> string \<Rightarrow> model_registry \<Rightarrow> model_registry option" where
  new: "registry_reach get_mut registry_new"
| register: "registry_reach get_mut r \<Longrightarrow> register_model e r = Ok r' \<Longrightarrow> registry_reach get_mut r'"
| claim: "registry_reach get_mut r \<Longrightarrow> claim_stage get_mut a r = (out, r') \<Longrightarrow> registry_reach get_mut r'"
| heartbeat: "registry_reach get_mut r \<Longrightarrow> registry_reach get_mut (record_heartbeat h r)"
| ready: "registry_reach get_mut r \<Longrightarrow> registry_reach get_mut (mark_stage_ready m i r)"

lemma claim_stage_hangs:
  assumes "registry_wf r" and "waits_for_own_guard get_mut" and "get_model (sa_model_id a) r = Some m"
    and "ucast (sa_stage_index a) < mc_pipeline_stages (me_config m)"
  shows "claim_stage get_mut a r
     = (None, r\<lparr>mr_stages := tree_insert (stage_key (sa_model_id a) (unat (sa_stage_index a))) a (mr_stages r)\<rparr>)"
proof -
  have "me_model_id m = sa_model_id a" using assms(1,3) by (simp add: registry_wf_def get_model_def)
  with assms show ?thesis
    by (simp add: claim_stage_def get_model_def waits_for_own_guard_def Let_def not_le)
qed

lemma registry_wf_claim:
  assumes "registry_wf r" "waits_for_own_guard get_mut" "claim_stage get_mut a r = (out, r')"
  shows "registry_wf r'"
proof (cases "tree_get (mr_models r) (sa_model_id a)")
  case None
  with assms show ?thesis by (simp add: claim_stage_def)
next
  case (Some m)
  show ?thesis
  proof (cases "mc_pipeline_stages (me_config m) \<le> ucast (sa_stage_index a)")
    case True
    with assms Some show ?thesis by (simp add: claim_stage_def)
  next
    case False
    with assms Some claim_stage_hangs [OF assms(1,2), of a m] registry_wf_stages [OF assms(1)] show ?thesis
      by (auto simp: get_model_def not_le)
  qed
qed

lemma registry_reach_wf: "registry_reach get_mut r \<Longrightarrow> waits_for_own_guard get_mut \<Longrightarrow> registry_wf r"
proof (induction rule: registry_reach.induct)
  case new
  show ?case by (simp add: registry_wf_def registry_new_def tree_simps)
next
  case register
  then show ?case using registry_wf_register by blast
next
  case claim
  then show ?case using registry_wf_claim by blast
qed (auto intro: registry_wf_heartbeat registry_wf_ready)

text \<open>
  A valid stage claim never returns: for a registered model and a stage it has, \<open>claim_stage\<close> records the
  assignment and then waits for its own guard on the model, so the caller gets no answer and the model's
  status is never updated, while readers already see the claimed stage.
\<close>

lemma claim_never_returns:
  assumes "registry_reach get_mut r" and "waits_for_own_guard get_mut" and "get_model (sa_model_id a) r = Some m"
    and "ucast (sa_stage_index a) < mc_pipeline_stages (me_config m)"
  shows "\<exists>r'. claim_stage get_mut a r = (None, r') \<and> get_model (sa_model_id a) r' = Some m
     \<and> tree_get (mr_stages r') (stage_key (sa_model_id a) (unat (sa_stage_index a))) = Some a"
  using claim_stage_hangs [OF registry_reach_wf [OF assms(1,2)] assms(2-4)] assms(3)
  by (simp add: get_model_def tree_simps)

definition sample_config :: model_config where
  "sample_config = \<lparr>mc_model_id = ''m'', mc_name = ''small'', mc_num_layers = 2, mc_hidden_dim = 8, mc_num_heads = 2,
     mc_num_kv_heads = 1, mc_intermediate_dim = 32, mc_vocab_size = 100, mc_max_seq_len = 16, mc_rope_theta = 0,
     mc_rms_norm_eps = 0, mc_precision = BF16, mc_pipeline_stages = 1, mc_layers_per_stage = 2\<rparr>"

definition sample_model :: model_registry_entry where
  "sample_model = \<lparr>me_model_id = ''m'', me_config = sample_config, me_stage_weight_file_ids = [''w0''],
     me_tokenizer_file_id = None, me_registrant = ''AROBI1'', me_registered_at_block = 1, me_status = Registered,
     me_active_pipelines = 0\<rparr>"

definition sample_assignment :: stage_assignment where
  "sample_assignment = \<lparr>sa_model_id = ''m'', sa_stage_index = 0, sa_start_layer = 0, sa_end_layer = 2,
     sa_node_address = ''AROBI2'', sa_weight_file_id = ''w0'', sa_loaded = True, sa_assigned_at = 1, sa_last_heartbeat = 1\<rparr>"

definition one_shard :: "string \<Rightarrow> string \<Rightarrow> model_registry \<Rightarrow> model_registry option" where
  "one_shard guarded key r = None"

definition sample_registry :: model_registry where
  "sample_registry = registry_new\<lparr>mr_models := [(''m'', sample_model)]\<rparr>"

lemma claim_never_returns_sample:
  "\<exists>r'. claim_stage one_shard sample_assignment sample_registry = (None, r')
     \<and> get_model ''m'' r' = Some sample_model \<and> tree_get (mr_stages r') (stage_key ''m'' 0) = Some sample_assignment"
proof -
  have "register_model sample_model registry_new = Ok sample_registry"
    by (simp add: register_model_def sample_model_def sample_config_def registry_new_def sample_registry_def)
  then have reach: "registry_reach one_shard sample_registry" by (rule registry_reach.register [OF registry_reach.new])
  have waits: "waits_for_own_guard one_shard" by (simp add: waits_for_own_guard_def one_shard_def)
  have "get_model (sa_model_id sample_assignment) sample_registry = Some sample_model"
    by (simp add: get_model_def sample_registry_def registry_new_def sample_assignment_def tree_simps)
  from claim_never_returns [OF reach waits this] show ?thesis
    by (simp add: sample_assignment_def sample_model_def sample_config_def)
qed

lemma route_iff_ready_sample:
  "get_pipeline_route ''m'' (mark_stage_ready ''m'' 0 (snd (claim_stage one_shard sample_assignment sample_registry)))
     = Ok [(0, ''AROBI2'')]"
proof -
  let ?r = "mark_stage_ready ''m'' 0 (snd (claim_stage one_shard sample_assignment sample_registry))"
  have st: "tree_get (mr_stages ?r) (stage_key ''m'' 0) = Some sample_assignment"
    and m: "\<exists>m. get_model ''m'' ?r = Some m \<and> mc_pipeline_stages (me_config m) = 1"
    by (simp_all add: mark_stage_ready_def claim_stage_def one_shard_def sample_registry_def registry_new_def sample_assignment_def
        sample_model_def sample_config_def update_model_status_def get_model_def Let_def tree_simps)
  then have "is_model_ready ''m'' ?r"
    by (auto simp: is_model_ready_def get_model_def stage_loaded_def sample_assignment_def)
  with route_iff_ready [of "''m''" ?r] obtain route where "get_pipeline_route ''m'' ?r = Ok route"
    "route = map (\<lambda>i. (of_nat i, stage_node ''m'' ?r i)) [0..<1]" using m by auto
  then show ?thesis using st by (simp add: stage_node_def sample_assignment_def)
qed

end
