(* ===== verification/InferenceRouter.thy ===== *)
theory InferenceRouter
  imports Registry
begin

text \<open>
  \<^verbatim>\<open>src/src/agents/inference_router.rs\<close>: the agent in front of the model registry. The heartbeat task it starts only logs. Events are
  collected in the order they are sent.
\<close>

datatype inference_event =
    RequestQueued string | RequestCompleted string | RequestFailed string string | ModelRegistered string | StageReady string u32

record inference_router_config =
  irc_max_concurrent :: nat
  irc_request_timeout_secs :: u64
  irc_heartbeat_interval_secs :: u64

definition inference_router_config_default :: inference_router_config where
  "inference_router_config_default =
     \<lparr>irc_max_concurrent = 16, irc_request_timeout_secs = 120, irc_heartbeat_interval_secs = 30\<rparr>"

record inference_router =
  ir_registry :: model_registry
  ir_config :: inference_router_config
  ir_running :: bool
  ir_events :: "inference_event list"

datatype router_error = Router_not_running | Router_model_not_found string | Model_not_served string model_status

definition inference_router_new :: "model_registry \<Rightarrow> inference_router_config \<Rightarrow> inference_router" where
  "inference_router_new g cfg = \<lparr>ir_registry = g, ir_config = cfg, ir_running = False, ir_events = []\<rparr>"

text \<open>The result tells whether a heartbeat task was started.\<close>

definition router_start :: "inference_router \<Rightarrow> bool \<times> inference_router" where
  "router_start r = (\<not> ir_running r, r\<lparr>ir_running := True\<rparr>)"

definition router_shutdown :: "inference_router \<Rightarrow> inference_router" where
  "router_shutdown r = r\<lparr>ir_running := False\<rparr>"

definition submit_request :: "string \<Rightarrow> string \<Rightarrow> inference_router \<Rightarrow> (inference_router, router_error) res" where
  "submit_request request_id model_id r =
     (if \<not> ir_running r then Err Router_not_running
      else case get_model model_id (ir_registry r) of
             None \<Rightarrow> Err (Router_model_not_found model_id)
           | Some model \<Rightarrow>
               if \<not> is_model_ready model_id (ir_registry r) then Err (Model_not_served model_id (me_status model))
               else Ok (r\<lparr>ir_events := ir_events r @ [RequestQueued request_id]\<rparr>))"

text \<open>A request is queued exactly while the agent runs and a pipeline route for its model exists.\<close>

lemma request_queued_iff:
  "is_ok (submit_request request_id model_id r) \<longleftrightarrow> ir_running r \<and> is_model_ready model_id (ir_registry r)"
  by (auto simp: submit_request_def is_model_ready_def get_model_def is_ok_iff split: option.split)

lemma restart_is_idempotent: "router_start (snd (router_start r)) = (False, snd (router_start r))"
  by (simp add: router_start_def)

end
