(* ===== verification/ToolApi.thy ===== *)
theory ToolApi
  imports ToolExecutor
begin

text \<open>
  The catalogue of tools (\<open>list_tools\<close> of \<^verbatim>\<open>src/src/agents/tool_executor.rs\<close>) and the handlers of \<^verbatim>\<open>src/src/api.rs\<close> under
  \<open>/api/v1/tools\<close>: listing, one execution, an orchestration of several jobs, and the knowledge base. Each job of an orchestration
  sees the host as it is at that time.
\<close>

section \<open>The catalogue\<close>

record tool_definition =
  td_name :: string
  td_description :: string
  td_parameters :: json

definition param :: "string \<Rightarrow> string \<Rightarrow> json" where
  "param ty d = json_object [(''type'', JString ty), (''description'', JString d)]"

definition param_enum :: "string list \<Rightarrow> string \<Rightarrow> json" where
  "param_enum vs d = json_object [(''type'', JString ''string''), (''enum'', JArray (map JString vs)), (''description'', JString d)]"

definition param_items :: "string \<Rightarrow> string \<Rightarrow> json" where
  "param_items ty d =
     json_object [(''type'', JString ''array''), (''items'', json_object [(''type'', JString ty)]), (''description'', JString d)]"

definition tool_schema :: "(string \<times> json) list \<Rightarrow> string list \<Rightarrow> json" where
  "tool_schema props required =
     json_object [(''type'', JString ''object''), (''properties'', json_object props), (''required'', JArray (map JString required))]"

definition list_tools :: "tool_definition list" where
  "list_tools =
     [\<lparr>td_name = ''shell_execute'', td_description = ''Execute a shell command with timeout and working directory'',
       td_parameters = tool_schema
         [(''command'', param ''string'' ''Shell command to execute''),
          (''working_dir'', param ''string'' ''Working directory (optional)''),
          (''timeout_ms'', param ''integer'' ''Timeout in milliseconds (max 30000)'')] [''command'']\<rparr>,
      \<lparr>td_name = ''file_read'', td_description = ''Read contents of a file'',
       td_parameters = tool_schema
         [(''path'', param ''string'' ''File path to read''),
          (''max_bytes'', param ''integer'' ''Maximum bytes to read'')] [''path'']\<rparr>,
      \<lparr>td_name = ''file_write'', td_description = ''Write content to a file'',
       td_parameters = tool_schema
         [(''path'', param ''string'' ''File path to write''),
          (''content'', param ''string'' ''Content to write''),
          (''append'', param ''boolean'' ''Append instead of overwrite'')] [''path'', ''content'']\<rparr>,
      \<lparr>td_name = ''web_fetch'', td_description = ''Fetch content from a URL via HTTP GET or POST'',
       td_parameters = tool_schema
         [(''url'', param ''string'' ''URL to fetch''),
          (''method'', param_enum [''GET'', ''POST''] ''HTTP method''),
          (''body'', param ''string'' ''Request body for POST''),
          (''headers'', param ''object'' ''Custom HTTP headers''),
          (''extract'', param_enum [''text'', ''json'', ''html_text''] ''Response extraction mode'')] [''url'']\<rparr>,
      \<lparr>td_name = ''web_search'', td_description = ''Search the web via DuckDuckGo instant answer API'',
       td_parameters = tool_schema [(''query'', param ''string'' ''Search query'')] [''query'']\<rparr>,
      \<lparr>td_name = ''pdf_extract'', td_description = ''Extract text content from a PDF file'',
       td_parameters = tool_schema [(''path'', param ''string'' ''Path to PDF file'')] [''path'']\<rparr>,
      \<lparr>td_name = ''csv_write'', td_description = ''Generate a CSV file from structured data'',
       td_parameters = tool_schema
         [(''path'', param ''string'' ''Output file path''),
          (''headers'', param_items ''string'' ''Column headers''),
          (''rows'', param_items ''array'' ''Data rows'')] [''path'', ''headers'', ''rows'']\<rparr>,
      \<lparr>td_name = ''code_execute'',
       td_description = ''Execute a code snippet (Python or JavaScript) in a sandboxed subprocess'',
       td_parameters = tool_schema
         [(''language'', param_enum [''python'', ''javascript'', ''node''] ''Programming language''),
          (''code'', param ''string'' ''Code to execute''),
          (''timeout_ms'', param ''integer'' ''Timeout in milliseconds'')] [''language'', ''code'']\<rparr>,
      \<lparr>td_name = ''knowledge_store'',
       td_description = ''Store a knowledge chunk in the agent's persistent knowledge base'',
       td_parameters = tool_schema
         [(''key'', param ''string'' ''Knowledge key''),
          (''content'', param ''string'' ''Knowledge content''),
          (''metadata'', param ''object'' ''Optional metadata'')] [''key'', ''content'']\<rparr>,
      \<lparr>td_name = ''knowledge_query'',
       td_description = ''Query the agent's knowledge base by key prefix or content search'',
       td_parameters = tool_schema
         [(''query'', param ''string'' ''Search query (matches key prefix or content substring)'')] [''query'']\<rparr>]"

section \<open>Handlers\<close>

definition TOOL_ORCHESTRATION_MAX_JOBS :: nat where "TOOL_ORCHESTRATION_MAX_JOBS = 64"

definition redact_runtime_policy_for_public :: "json \<Rightarrow> json" where
  "redact_runtime_policy_for_public v =
     (case v of
        JObject obj \<Rightarrow>
          let obj = tree_insert ''allowed_roots'' (JArray []) (tree_remove ''allowed_roots'' obj)
          in JObject
               (case tree_get obj ''controls'' of
                  Some (JObject controls) \<Rightarrow>
                    tree_insert ''controls''
                      (JObject (tree_remove ''venv_only_env'' (tree_remove ''venv_env'' (tree_remove ''allowed_roots_env'' controls)))) obj
                | _ \<Rightarrow> obj)
      | _ \<Rightarrow> v)"

definition tool_definition_json :: "tool_definition \<Rightarrow> json" where
  "tool_definition_json d =
     json_object [(''name'', JString (td_name d)), (''description'', JString (td_description d)), (''parameters'', td_parameters d)]"

definition tools_list :: "socket_addr \<Rightarrow> headers \<Rightarrow> tool_agent \<Rightarrow> json" where
  "tools_list remote headers a =
     json_object
       [(''tools'', JArray (map tool_definition_json list_tools)),
        (''runtime_policy'',
           if is_direct_local_request remote headers then runtime_policy_snapshot a
           else redact_runtime_policy_for_public (runtime_policy_snapshot a))]"

definition job_parameters :: "json \<Rightarrow> json" where
  "job_parameters job = or_else (json_get ''parameters'' job) (JObject [])"

definition tools_execute :: "primitives \<Rightarrow> texts \<Rightarrow> host \<Rightarrow> json \<Rightarrow> tool_agent \<Rightarrow> (json \<times> tool_agent, api_error) tool" where
  "tools_execute p tx h req a =
     tool_bind (ok_or (get_str ''tool_name'' req) Bad_request) (\<lambda>tool_name.
       execute p tx h tool_name (job_parameters req) (or_else (get_str ''agent_wallet'' req) ''anonymous'')
         (or_else (get_u64 ''timeout_ms'' req) 30000) a)"

text \<open>The loop over the jobs: the results so far, how many succeeded and failed, and the agent.\<close>

record orchestration =
  oc_results :: "json list"
  oc_succeeded :: nat
  oc_failed :: nat
  oc_agent :: tool_agent

definition job_id :: "nat \<Rightarrow> json \<Rightarrow> string" where
  "job_id idx job = or_else (get_str ''id'' job) (''job-'' @ dec (idx + 1))"

definition record_job :: "nat \<Rightarrow> json \<Rightarrow> string \<Rightarrow> json \<Rightarrow> tool_agent \<Rightarrow> orchestration \<Rightarrow> bool \<times> orchestration" where
  "record_job idx job tool_name response a oc =
     (let success = or_else (get_bool ''success'' response) False
      in (success,
          \<lparr>oc_results = oc_results oc @ [json_object
             [(''id'', JString (job_id idx job)), (''tool_name'', JString tool_name), (''success'', JBool success),
              (''response'', response)]],
           oc_succeeded = (if success then oc_succeeded oc + 1 else oc_succeeded oc),
           oc_failed = (if success then oc_failed oc else oc_failed oc + 1), oc_agent = a\<rparr>))"

definition reject_job :: "nat \<Rightarrow> json \<Rightarrow> orchestration \<Rightarrow> orchestration" where
  "reject_job idx job oc =
     oc\<lparr>oc_failed := oc_failed oc + 1,
        oc_results := oc_results oc @ [json_object
          [(''id'', JString (job_id idx job)), (''success'', JBool False), (''error'', JString ''tool_name required'')]]\<rparr>"

fun run_jobs ::
    "primitives \<Rightarrow> texts \<Rightarrow> (nat \<Rightarrow> host) \<Rightarrow> string \<Rightarrow> bool \<Rightarrow> u64 \<Rightarrow> nat \<Rightarrow> json list \<Rightarrow> orchestration \<Rightarrow> (orchestration, 'e) tool" where
  "run_jobs p tx h wallet stop_on_error default_ms idx [] oc = pure (Ok oc)"
| "run_jobs p tx h wallet stop_on_error default_ms idx (job # jobs) oc =
     (case get_str ''tool_name'' job of
        None \<Rightarrow>
          if stop_on_error then pure (Ok (reject_job idx job oc))
          else run_jobs p tx h wallet stop_on_error default_ms (idx + 1) jobs (reject_job idx job oc)
      | Some tool_name \<Rightarrow>
          tool_bind (execute p tx (h idx) tool_name (job_parameters job) wallet (or_else (get_u64 ''timeout_ms'' job) default_ms) (oc_agent oc))
            (\<lambda>(response, a').
               let (success, oc') = record_job idx job tool_name response a' oc
               in if stop_on_error \<and> \<not> success then pure (Ok oc')
                  else run_jobs p tx h wallet stop_on_error default_ms (idx + 1) jobs oc'))"

definition tools_orchestrate :: "primitives \<Rightarrow> texts \<Rightarrow> (nat \<Rightarrow> host) \<Rightarrow> json \<Rightarrow> tool_agent \<Rightarrow> (json \<times> tool_agent, api_error) tool" where
  "tools_orchestrate p tx h req a =
     (let wallet = or_else (get_str ''agent_wallet'' req) ''anonymous'';
          stop_on_error = or_else (get_bool ''stop_on_error'' req) False;
          default_ms = or_else (get_u64 ''timeout_ms'' req) 30000 in
      tool_bind (ok_or (get_array ''jobs'' req) Bad_request) (\<lambda>jobs.
      if jobs = [] \<or> TOOL_ORCHESTRATION_MAX_JOBS < length jobs then pure (Err Bad_request)
      else
        tool_bind (run_jobs p tx h wallet stop_on_error default_ms 0 jobs \<lparr>oc_results = [], oc_succeeded = 0, oc_failed = 0, oc_agent = a\<rparr>) (\<lambda>oc.
        pure (Ok (json_object
          [(''agent_wallet'', JString wallet), (''runtime_policy'', runtime_policy_snapshot (oc_agent oc)),
           (''stop_on_error'', JBool stop_on_error),
           (''summary'', json_object
              [(''requested'', json_len jobs), (''completed'', json_len (oc_results oc)),
               (''succeeded'', JPosInt (of_nat (oc_succeeded oc))), (''failed'', JPosInt (of_nat (oc_failed oc)))]),
           (''results'', JArray (oc_results oc))], oc_agent oc)))))"

definition tools_knowledge_store :: "host \<Rightarrow> json \<Rightarrow> tool_agent \<Rightarrow> (json \<times> tool_agent, api_error) res" where
  "tools_knowledge_store h req a =
     (case (get_str ''wallet'' req, get_str ''key'' req, get_str ''content'' req) of
        (Some wallet, Some key, Some content) \<Rightarrow>
          res_bind (knowledge_store h wallet key content (or_else (json_get ''metadata'' req) JNull) a) (\<lambda>a'.
            Ok (json_object [(''status'', JString ''stored''), (''wallet'', JString wallet), (''key'', JString key)], a'))
      | _ \<Rightarrow> Err Bad_request)"

definition tools_knowledge_query :: "texts \<Rightarrow> json \<Rightarrow> tool_agent \<Rightarrow> (json, api_error) res" where
  "tools_knowledge_query tx req a =
     (case (get_str ''wallet'' req, get_str ''query'' req) of
        (Some wallet, Some query) \<Rightarrow>
          Ok (json_object [(''wallet'', JString wallet), (''query'', JString query),
            (''results'', JArray (knowledge_query tx a wallet query))])
      | _ \<Rightarrow> Err Bad_request)"

end
