(* ===== verification/ToolProps.thy ===== *)
theory ToolProps
  imports ToolApi
begin

text \<open>
  What the tool executor guarantees: which processes it starts, that a CSV file reads back as the table it was made from, that the
  knowledge base returns what was stored to the wallet that stored it, and how an orchestration accounts for its jobs.
\<close>

section \<open>Effects of a sequence of calls\<close>

lemma pure_simps [simp]: "fst (pure r) = r" "snd (pure r) = []" "snd (ok_or v e) = []"
  by (simp_all add: pure_def ok_or_def)

lemma tool_bind_effect:
  assumes "e \<in> set (snd (tool_bind t f))"
  obtains "e \<in> set (snd t)" | v where "fst t = Ok v" "e \<in> set (snd (f v))"
  using assms by (auto simp: tool_bind_def split: res.splits)

lemma tool_bind_Ok: "fst (tool_bind t f) = Ok b \<longleftrightarrow> (\<exists>v. fst t = Ok v \<and> fst (f v) = Ok b)"
  by (cases "fst t") (simp_all add: tool_bind_def)

lemma tool_bind_pure_Ok: "tool_bind (pure (Ok v)) f = f v"
  by (simp add: tool_bind_def pure_def)

section \<open>Confinement\<close>

definition under_venv :: "tool_agent \<Rightarrow> (string \<times> string) list \<Rightarrow> bool" where
  "under_venv a env \<longleftrightarrow>
     (venv_only (runtime_policy a) \<longrightarrow>
        (\<exists>root. venv_root_path a = Some root \<and> map_of env ''VIRTUAL_ENV'' = Some root \<and>
           (\<forall>path. map_of env ''PATH'' = Some path \<longrightarrow> starts_with path (path_join root ''bin'' @ '':''))))"

definition code_program :: "tool_agent \<Rightarrow> string \<Rightarrow> bool" where
  "code_program a prog \<longleftrightarrow>
     prog = ''node'' \<or>
     (if venv_only (runtime_policy a)
      then \<exists>root. venv_root_path a = Some root \<and>
             prog \<in> {path_join (path_join root ''bin'') ''python'', path_join (path_join root ''bin'') ''python3''}
      else prog = ''python'')"

definition confined :: "tool_agent \<Rightarrow> texts \<Rightarrow> process \<Rightarrow> bool" where
  "confined a tx c \<longleftrightarrow>
     pr_limit_ms c \<le> MAX_SHELL_TIMEOUT_MS \<and>
     (pr_program c = ''pdftotext'' \<and> (\<exists>path. pr_args c = [path, ''-'']) \<or>
      (\<exists>dir. pr_dir c = Some dir \<and> dir_allowed a dir) \<and> under_venv a (pr_env c) \<and>
      (pr_program c = ''sh'' \<and>
         (\<exists>cmd. pr_args c = [''-c'', cmd] \<and> list_all (\<lambda>denied. \<not> str_contains (to_lowercase tx cmd) denied) SHELL_DENY_LIST) \<or>
       code_program a (pr_program c) \<and> (\<exists>file. pr_args c = [file])))"

lemma under_venv_apply: "apply_runtime_env a h = Ok env \<Longrightarrow> under_venv a env"
  unfolding under_venv_def by (auto elim!: apply_runtime_env_venv)

lemma code_program_python: "python_program a h = Ok prog \<Longrightarrow> code_program a prog"
  by (auto simp: python_program_def code_program_def resolve_venv_python_def resolve_venv_bin_dir_def res_simps Let_def
      split: if_splits option.splits)

lemma code_program_node: "code_program a ''node''"
  by (simp add: code_program_def)

lemma exec_shell_confined:
  assumes "Spawned c \<in> set (snd (exec_shell a tx h params ms))"
  shows "confined a tx c"
proof -
  from assms obtain cmd dir env where
    "resolve_working_dir a h (get_str ''working_dir'' params) = Ok dir"
    "find (str_contains (to_lowercase tx cmd)) SHELL_DENY_LIST = None" "apply_runtime_env a h = Ok env"
    "c = \<lparr>pr_program = ''sh'', pr_args = [''-c'', cmd], pr_dir = Some dir, pr_env = env, pr_limit_ms = min ms MAX_SHELL_TIMEOUT_MS\<rparr>"
    unfolding exec_shell_def Let_def
    by (auto elim!: tool_bind_effect split: option.splits)
  then show ?thesis
    using resolve_working_dir_allowed under_venv_apply
    by (auto simp: confined_def find_None_iff list_all_iff)
qed

lemma exec_code_confined:
  assumes "Spawned c \<in> set (snd (exec_code a h params ms))"
  shows "confined a tx c"
proof -
  from assms obtain dir prog ext env src where
    "resolve_working_dir a h (get_str ''working_dir'' params) = Ok dir" "apply_runtime_env a h = Ok env"
    "python_program a h = Ok prog \<or> prog = ''node''"
    "c = \<lparr>pr_program = prog, pr_args = [src], pr_dir = Some dir, pr_env = env, pr_limit_ms = min ms MAX_SHELL_TIMEOUT_MS\<rparr>"
    unfolding exec_code_def Let_def
    by (auto elim!: tool_bind_effect simp: res_simps split: if_splits)
  then show ?thesis
    using resolve_working_dir_allowed under_venv_apply code_program_python code_program_node
    by (auto simp: confined_def)
qed

lemma exec_pdf_confined: "Spawned c \<in> set (snd (exec_pdf_extract h params)) \<Longrightarrow> confined a tx c"
  unfolding exec_pdf_extract_def Let_def
  by (auto elim!: tool_bind_effect simp: confined_def MAX_SHELL_TIMEOUT_MS_def)

lemma no_process:
  "Spawned c \<notin> set (snd (exec_file_read h params))"
  "Spawned c \<notin> set (snd (exec_file_write h params))"
  "Spawned c \<notin> set (snd (exec_csv_write tx h params))"
  "Spawned c \<notin> set (snd (exec_web_fetch tx h params ms))"
  "Spawned c \<notin> set (snd (exec_web_search tx h params))"
  unfolding exec_file_read_def exec_file_write_def exec_csv_write_def exec_web_fetch_def exec_web_search_def Let_def
  by (auto elim!: tool_bind_effect split: http_end.splits if_splits)

lemma dispatch_confined:
  assumes "Spawned c \<in> set (snd (dispatch tx h tool_name params wallet ms a))"
  shows "confined a tx c"
  using assms unfolding dispatch_def Let_def
  by (auto elim!: tool_bind_effect dest: exec_shell_confined exec_code_confined exec_pdf_confined simp: no_process
      split: if_splits)

lemma execute_confined: "Spawned c \<in> set (snd (execute p tx h tool_name params wallet ms a)) \<Longrightarrow> confined a tx c"
  unfolding execute_def Let_def by (auto elim!: tool_bind_effect dest: dispatch_confined)

text \<open>No tool changes the policy.\<close>

definition same_policy :: "tool_agent \<Rightarrow> tool_agent \<Rightarrow> bool" where
  "same_policy a a' \<longleftrightarrow>
     runtime_policy a' = runtime_policy a \<and> allowed_root_paths a' = allowed_root_paths a \<and> venv_root_path a' = venv_root_path a"

lemma same_policy_refl [simp]: "same_policy a a"
  by (simp add: same_policy_def)

lemma confined_cong: "same_policy a a' \<Longrightarrow> confined a' tx c = confined a tx c"
  by (simp add: same_policy_def confined_def dir_allowed_def under_venv_def code_program_def)

lemma knowledge_store_policy: "knowledge_store h w k c m a = Ok a' \<Longrightarrow> same_policy a a'"
  by (auto simp: knowledge_store_def Let_def res_simps same_policy_def)

lemma dispatch_policy: "fst (dispatch tx h tool_name params wallet ms a) = Ok (v, a') \<Longrightarrow> same_policy a a'"
  unfolding dispatch_def Let_def
  by (auto simp: tool_bind_Ok res_simps dest: knowledge_store_policy split: if_splits)

lemma execute_Ok:
  assumes "fst (execute p tx h tool_name params wallet ms a) = Ok (r, a')"
  obtains success where "get_bool ''success'' r = Some success" "same_policy a a'"
proof -
  have fin: "get_bool ''success'' (fst (finish_task h t n b v e a0)) = Some b" "same_policy a0 (snd (finish_task h t n b v e a0))"
    for t n b v e a0
    by (simp_all add: finish_task_def get_bool_def same_policy_def)
  have "\<exists>t b v e a0. finish_task h t tool_name b v e a0 = (r, a') \<and> same_policy a a0"
  proof (cases "fst (dispatch tx h tool_name params wallet ms a)")
    case (Ok va)
    obtain v a0 where va: "va = (v, a0)" by (cases va)
    have "same_policy a a0" using Ok va dispatch_policy by simp
    moreover have "\<exists>t. finish_task h t tool_name True v None a0 = (r, a')"
      using assms Ok va unfolding execute_def Let_def by (auto simp: tool_bind_Ok)
    ultimately show ?thesis by blast
  next
    case (Err e)
    have "\<exists>t. finish_task h t tool_name False JNull (Some e) a = (r, a')"
      using assms Err unfolding execute_def Let_def by (auto simp: tool_bind_Ok)
    then show ?thesis using same_policy_refl by blast
  next
    case Panic
    then show ?thesis using assms unfolding execute_def Let_def by (auto simp: tool_bind_Ok)
  qed
  then obtain t b v e a0 where "finish_task h t tool_name b v e a0 = (r, a')" "same_policy a a0" by blast
  with fin(1) [of t tool_name b v e a0] fin(2) [of a0 t tool_name b v e] that show thesis
    by (cases "finish_task h t tool_name b v e a0") (auto simp: same_policy_def)
qed

lemma record_job_agent: "record_job idx job tool r a oc = (b, oc') \<Longrightarrow> oc_agent oc' = a"
  by (auto simp: record_job_def Let_def)

lemma run_jobs_confined:
  assumes "Spawned c \<in> set (snd (run_jobs p tx h wallet stop ms idx jobs oc :: (orchestration, 'e) tool))"
  shows "confined (oc_agent oc) tx c"
  using assms
proof (induction jobs arbitrary: idx oc)
  case (Cons job jobs)
  show ?case
  proof (cases "get_str ''tool_name'' job")
    case None
    with Cons.prems have "Spawned c \<in> set (snd (run_jobs p tx h wallet stop ms (idx + 1) jobs (reject_job idx job oc) :: (orchestration, 'e) tool))"
      by (simp split: if_splits)
    from Cons.IH [OF this] show ?thesis by (simp add: reject_job_def)
  next
    case (Some tool_name)
    let ?f = "\<lambda>(response, a'). let (success, oc') = record_job idx job tool_name response a' oc
       in if stop \<and> \<not> success then pure (Ok oc') else run_jobs p tx h wallet stop ms (idx + 1) jobs oc' :: (orchestration, 'e) tool"
    from Cons.prems Some
    have "Spawned c \<in> set (snd (tool_bind (execute p tx (h idx) tool_name (job_parameters job) wallet
        (or_else (get_u64 ''timeout_ms'' job) ms) (oc_agent oc)) ?f))" by simp
    then show ?thesis
    proof (rule tool_bind_effect)
      fix v :: "json \<times> tool_agent"
      assume x: "fst (execute p tx (h idx) tool_name (job_parameters job) wallet (or_else (get_u64 ''timeout_ms'' job) ms) (oc_agent oc)
          :: (json \<times> tool_agent, 'e) tool) = Ok v"
        and e: "Spawned c \<in> set (snd (?f v))"
      obtain r a' where v: "v = (r, a')" by (cases v)
      obtain b oc' where oc': "record_job idx job tool_name r a' oc = (b, oc')" by (cases "record_job idx job tool_name r a' oc")
      from e v oc' have "Spawned c \<in> set (snd (run_jobs p tx h wallet stop ms (idx + 1) jobs oc' :: (orchestration, 'e) tool))"
        by (simp split: if_splits)
      from Cons.IH [OF this] have "confined a' tx c" by (simp add: record_job_agent [OF oc'])
      moreover have "same_policy (oc_agent oc) a'" using x v by (auto elim: execute_Ok)
      ultimately show ?thesis by (simp add: confined_cong)
    qed (rule execute_confined)
  qed
qed simp

section \<open>Orchestrations\<close>

definition succeeded :: "json \<Rightarrow> bool" where
  "succeeded r \<longleftrightarrow> get_bool ''success'' r = Some True"

text \<open>The results answer the jobs in order, up to the first failure when the request stops there.\<close>

fun answers :: "bool \<Rightarrow> nat \<Rightarrow> json list \<Rightarrow> json list \<Rightarrow> bool" where
  "answers stop idx [] rs = (rs = [])"
| "answers stop idx (job # jobs) [] = False"
| "answers stop idx (job # jobs) (r # rs) =
     (get_str ''id'' r = Some (job_id idx job) \<and>
      (if stop \<and> \<not> succeeded r then rs = [] else answers stop (idx + 1) jobs rs))"

lemma answers_length: "answers stop idx jobs rs \<Longrightarrow> length rs \<le> length jobs \<and> (rs = [] \<longleftrightarrow> jobs = [])"
  by (induction stop idx jobs rs rule: answers.induct) (auto split: if_splits)

lemma answers_stop:
  "answers stop idx jobs rs \<Longrightarrow> length rs < length jobs \<Longrightarrow> stop \<and> \<not> succeeded (last rs)"
proof (induction stop idx jobs rs rule: answers.induct)
  case (3 stop idx job jobs r rs)
  then show ?case using answers_length [of stop "idx + 1" jobs rs] by (auto split: if_splits)
qed simp_all

lemma answers_butlast: "answers True idx jobs rs \<Longrightarrow> list_all succeeded (butlast rs)"
  by (induction True idx jobs rs rule: answers.induct) (auto split: if_splits)

lemma answers_ids:
  "answers stop idx jobs rs \<Longrightarrow> i < length rs \<Longrightarrow> get_str ''id'' (rs ! i) = Some (job_id (idx + i) (jobs ! i))"
proof (induction stop idx jobs rs arbitrary: i rule: answers.induct)
  case (3 stop idx job jobs r rs)
  show ?case
  proof (cases i)
    case 0
    with 3 show ?thesis by simp
  next
    case (Suc j)
    with 3 show ?thesis by (auto split: if_splits)
  qed
qed simp_all

lemma reject_job_step:
  obtains r where "oc_results (reject_job idx job oc) = oc_results oc @ [r]" "get_str ''id'' r = Some (job_id idx job)" "\<not> succeeded r"
    "oc_succeeded (reject_job idx job oc) = oc_succeeded oc" "oc_failed (reject_job idx job oc) = oc_failed oc + 1"
  by (rule that [of "json_object [(''id'', JString (job_id idx job)), (''success'', JBool False), (''error'', JString ''tool_name required'')]"])
    (simp_all add: reject_job_def get_str_def get_bool_def succeeded_def)

lemma record_job_step:
  assumes "record_job idx job tool r a oc = (b, oc')"
  obtains r' where "oc_results oc' = oc_results oc @ [r']" "get_str ''id'' r' = Some (job_id idx job)" "succeeded r' = b"
    "oc_succeeded oc' = oc_succeeded oc + (if b then 1 else 0)" "oc_failed oc' = oc_failed oc + (if b then 0 else 1)"
  by (rule that [of "last (oc_results oc')"])
    (use assms in \<open>auto simp: record_job_def Let_def get_str_def get_bool_def succeeded_def\<close>)

definition accounted :: "bool \<Rightarrow> nat \<Rightarrow> json list \<Rightarrow> orchestration \<Rightarrow> orchestration \<Rightarrow> bool" where
  "accounted stop idx jobs oc oc' \<longleftrightarrow>
     (\<exists>rs. oc_results oc' = oc_results oc @ rs \<and> answers stop idx jobs rs \<and>
        oc_succeeded oc' = oc_succeeded oc + length (filter succeeded rs) \<and>
        oc_failed oc' = oc_failed oc + length (filter (\<lambda>r. \<not> succeeded r) rs))"

lemma accounted_step:
  assumes "oc_results oc1 = oc_results oc @ [r]" "get_str ''id'' r = Some (job_id idx job)"
    "oc_succeeded oc1 = oc_succeeded oc + (if succeeded r then 1 else 0)" "oc_failed oc1 = oc_failed oc + (if succeeded r then 0 else 1)"
    "if stop \<and> \<not> succeeded r then oc' = oc1 else accounted stop (idx + 1) jobs oc1 oc'"
  shows "accounted stop idx (job # jobs) oc oc'"
proof (cases "stop \<and> \<not> succeeded r")
  case True
  with assms show ?thesis unfolding accounted_def by (intro exI [of _ "[r]"]) simp
next
  case False
  with assms(5) obtain rs where "oc_results oc' = oc_results oc1 @ rs" "answers stop (idx + 1) jobs rs"
    "oc_succeeded oc' = oc_succeeded oc1 + length (filter succeeded rs)"
    "oc_failed oc' = oc_failed oc1 + length (filter (\<lambda>r. \<not> succeeded r) rs)"
    unfolding accounted_def by (simp only: if_False) blast
  with False assms(1-4) show ?thesis unfolding accounted_def by (intro exI [of _ "r # rs"]) auto
qed

lemma run_jobs_accounted:
  assumes "fst (run_jobs p tx h wallet stop ms idx jobs oc :: (orchestration, 'e) tool) = Ok oc'"
  shows "accounted stop idx jobs oc oc'"
  using assms
proof (induction jobs arbitrary: idx oc)
  case Nil
  then show ?case by (simp add: accounted_def)
next
  case (Cons job jobs)
  show ?case
  proof (cases "get_str ''tool_name'' job")
    case None
    obtain r where r: "oc_results (reject_job idx job oc) = oc_results oc @ [r]" "get_str ''id'' r = Some (job_id idx job)"
      "\<not> succeeded r" "oc_succeeded (reject_job idx job oc) = oc_succeeded oc" "oc_failed (reject_job idx job oc) = oc_failed oc + 1"
      by (rule reject_job_step)
    from Cons.prems None Cons.IH [of "idx + 1" "reject_job idx job oc"] r show ?thesis
      by (intro accounted_step [OF r(1,2)]) (simp_all split: if_splits)
  next
    case (Some tool_name)
    let ?f = "\<lambda>(response, a'). let (success, oc') = record_job idx job tool_name response a' oc
       in if stop \<and> \<not> success then pure (Ok oc') else run_jobs p tx h wallet stop ms (idx + 1) jobs oc' :: (orchestration, 'e) tool"
    from Cons.prems Some obtain v where v: "fst (?f v) = Ok oc'" by (auto simp: tool_bind_Ok)
    obtain res a' where "v = (res, a')" by (cases v)
    moreover obtain b oc1 where oc1: "record_job idx job tool_name res a' oc = (b, oc1)"
      by (cases "record_job idx job tool_name res a' oc")
    ultimately have rest: "if stop \<and> \<not> b then oc' = oc1
        else fst (run_jobs p tx h wallet stop ms (idx + 1) jobs oc1 :: (orchestration, 'e) tool) = Ok oc'"
      using v by (auto split: if_splits)
    obtain r' where "oc_results oc1 = oc_results oc @ [r']" "get_str ''id'' r' = Some (job_id idx job)" "succeeded r' = b"
      "oc_succeeded oc1 = oc_succeeded oc + (if b then 1 else 0)" "oc_failed oc1 = oc_failed oc + (if b then 0 else 1)"
      using oc1 by (rule record_job_step)
    with rest Cons.IH [of "idx + 1" oc1] show ?thesis by (intro accounted_step [of oc1 oc r']) (simp_all split: if_splits)
  qed
qed

section \<open>The knowledge base\<close>

lemma starts_with_le: "starts_with k q \<Longrightarrow> q \<le> (k :: string)"
proof (induction q arbitrary: k)
  case (Cons c q)
  then obtain k' where "k = c # k'" "starts_with k' q" by (auto simp: starts_with_iff)
  with Cons.IH show ?case by simp
qed simp

lemma hd_filter_prefix:
  "tree_wf t \<Longrightarrow> tree_get t k = Some v \<Longrightarrow> hd (map snd (filter (\<lambda>e. starts_with (fst e) k) t)) = v"
proof (induction t)
  case (Cons e t)
  show ?case
  proof (cases "fst e = k")
    case True
    then show ?thesis using Cons.prems(2) starts_with_append [of k "[]"] by (cases e) (simp add: tree_simps)
  next
    case False
    with Cons.prems(2) have k: "tree_get t k = Some v" by (cases e) (simp add: tree_simps split: if_splits)
    then have "fst e < k" using Cons.prems(1) tree_get_SomeD [OF k] by (auto simp: tree_wf_def)
    then have "\<not> starts_with (fst e) k" using starts_with_le [of "fst e" k] by auto
    with Cons k show ?thesis by (simp add: tree_wf_def)
  qed
qed (simp add: tree_simps)

lemma kb_tree_store:
  assumes "knowledge_store h w k c m a = Ok a'"
  shows "kb_tree a' w' = (if w' = w then tree_insert k (kb_entry k c m (now_text h)) (kb_tree a w) else kb_tree a w')"
  using assms by (auto simp: knowledge_store_def Let_def res_simps kb_tree_def tree_simps or_else_def)

section \<open>Properties\<close>

lemma tool_agent_new_roots:
  "allowed_root_paths (tool_agent_new h trees) = allowed_roots (runtime_policy (tool_agent_new h trees))"
  "current_dir h = Some cwd \<Longrightarrow> path_exists h cwd \<Longrightarrow> canonicalize h cwd = Ok root \<Longrightarrow>
     allowed_root_paths (tool_agent_new h trees) \<noteq> []"
  by (auto simp: tool_agent_new_def load_runtime_policy_def Let_def normalize_existing_path_def push_unique_path_def
      split: prod.splits)


text \<open>
  The file that \<open>csv_write\<close> writes reads back, with quoted fields, as the header and the rows it was given: strings as they
  are and other cells as their JSON text.
\<close>

lemma csv_file_reads_back:
  assumes "exec_csv_write tx h params = (Ok v, es)" "get_str ''path'' params = Some path"
    "get_array ''headers'' params = Some (map JString names)" "get_array ''rows'' params = Some (map JArray rows)"
    "names \<noteq> []" "list_all (\<lambda>row. row \<noteq> []) rows"
  shows "\<exists>text. es = [Wrote path text False] \<and> csv_table text = Some (names # map (map (csv_cell tx)) rows)"
proof -
  let ?table = "names # map (map (csv_cell tx)) rows"
  have "List.map_filter as_str (map JString names) = names"
    by (induction names) (simp_all add: map_filter_simps)
  then have "es = [Wrote path (concat (map csv_line ?table)) False]"
    using assms(1-4) by (auto simp: exec_csv_write_def ok_or_def pure_def tool_bind_def Let_def comp_def split: res.splits)
  moreover have "csv_table (concat (map csv_line ?table)) = Some ?table"
    by (rule read_table) (use assms(5,6) in \<open>auto simp: list_all_iff\<close>)
  ultimately show ?thesis by blast
qed

text \<open>
  What a wallet stores under a key is the first answer when it queries for that key, however many other keys begin the same
  way; at most twenty answers are given, and no query of another wallet changes.
\<close>

lemma knowledge_found_by_key:
  assumes "knowledge_store h wallet key content meta a = Ok a'" "tree_wf (kb_tree a wallet)"
  shows "(\<exists>rest. knowledge_query tx a' wallet key = kb_entry key content meta (now_text h) # rest \<and> length rest < 20) \<and>
     (\<forall>w q. w = wallet \<or> knowledge_query tx a' w q = knowledge_query tx a w q)"
proof -
  let ?t = "kb_tree a' wallet" and ?e = "kb_entry key content meta (now_text h)"
  let ?hits = "map snd (filter (\<lambda>e. starts_with (fst e) key) ?t)"
  have t: "tree_wf ?t" "tree_get ?t key = Some ?e"
    using assms by (simp_all add: kb_tree_store [OF assms(1)] tree_simps tree_wf_insert)
  from t have "(key, ?e) \<in> set (filter (\<lambda>e. starts_with (fst e) key) ?t)"
    using tree_get_SomeD starts_with_append [of key "[]"] by auto
  then have ne: "?hits \<noteq> []" by (metis empty_iff list.set(1) map_is_Nil_conv)
  moreover have "hd ?hits = ?e" using t by (rule hd_filter_prefix)
  ultimately obtain rest where hits: "?hits = ?e # rest" by (cases ?hits) auto
  then have "filter (\<lambda>e. starts_with (fst e) key) ?t \<noteq> []" by auto
  with hits have "knowledge_query tx a' wallet key = ?e # take 19 rest"
    by (simp add: knowledge_query_def Let_def push_until_all)
  then show ?thesis by (simp add: knowledge_query_def kb_tree_store [OF assms(1)])
qed

text \<open>
  An orchestration answers its jobs in order and accounts for all of them: the summary's counts are those of the results,
  every job is answered unless the request stops on errors, and then everything before the last result succeeded.
\<close>

lemma orchestration_accounts:
  assumes "fst (tools_orchestrate p tx h req a) = Ok (v, a')"
  shows "\<exists>jobs rs. get_array ''jobs'' req = Some jobs \<and> 0 < length rs \<and> length rs \<le> length jobs \<and>
     length jobs \<le> TOOL_ORCHESTRATION_MAX_JOBS \<and> json_get ''results'' v = Some (JArray rs) \<and>
     (\<forall>i < length rs. get_str ''id'' (rs ! i) = Some (job_id i (jobs ! i))) \<and>
     json_get ''summary'' v = Some (json_object
       [(''requested'', json_len jobs), (''completed'', json_len rs), (''succeeded'', json_len (filter succeeded rs)),
        (''failed'', json_len (filter (\<lambda>r. \<not> succeeded r) rs))]) \<and>
     (if get_bool ''stop_on_error'' req = Some True
      then list_all succeeded (butlast rs) \<and> (length rs = length jobs \<or> \<not> succeeded (last rs))
      else length rs = length jobs)"
proof -
  let ?stop = "or_else (get_bool ''stop_on_error'' req) False"
  let ?start = "\<lparr>oc_results = [], oc_succeeded = 0, oc_failed = 0, oc_agent = a\<rparr>"
  from assms obtain jobs oc where jobs: "get_array ''jobs'' req = Some jobs" "jobs \<noteq> []" "length jobs \<le> TOOL_ORCHESTRATION_MAX_JOBS"
    and run: "fst (run_jobs p tx h (or_else (get_str ''agent_wallet'' req) ''anonymous'') ?stop
        (or_else (get_u64 ''timeout_ms'' req) 30000) 0 jobs ?start :: (orchestration, api_error) tool) = Ok oc"
    and v: "json_get ''results'' v = Some (JArray (oc_results oc))"
      "json_get ''summary'' v = Some (json_object
         [(''requested'', json_len jobs), (''completed'', json_len (oc_results oc)),
          (''succeeded'', JPosInt (of_nat (oc_succeeded oc))), (''failed'', JPosInt (of_nat (oc_failed oc)))])"
    unfolding tools_orchestrate_def Let_def
    by (auto simp: tool_bind_Ok ok_or_def split: option.splits if_splits)
  from run_jobs_accounted [OF run] have rs: "answers ?stop 0 jobs (oc_results oc)"
    "oc_succeeded oc = length (filter succeeded (oc_results oc))" "oc_failed oc = length (filter (\<lambda>r. \<not> succeeded r) (oc_results oc))"
    by (auto simp: accounted_def)
  have stop: "?stop = (get_bool ''stop_on_error'' req = Some True)"
    by (cases "get_bool ''stop_on_error'' req") (simp_all add: or_else_def)
  have len: "length (oc_results oc) \<le> length jobs" "0 < length (oc_results oc)" using answers_length [OF rs(1)] jobs(2) by auto
  have "\<forall>i < length (oc_results oc). get_str ''id'' (oc_results oc ! i) = Some (job_id i (jobs ! i))"
    using answers_ids [OF rs(1)] by simp
  moreover have "if ?stop then list_all succeeded (butlast (oc_results oc)) \<and>
        (length (oc_results oc) = length jobs \<or> \<not> succeeded (last (oc_results oc)))
      else length (oc_results oc) = length jobs"
  proof (cases "length (oc_results oc) = length jobs")
    case True
    with rs(1) answers_butlast [of 0 jobs "oc_results oc"] show ?thesis by (cases ?stop) simp_all
  next
    case False
    with len(1) answers_stop [OF rs(1)] have "?stop" "\<not> succeeded (last (oc_results oc))" by simp_all
    with rs(1) answers_butlast [of 0 jobs "oc_results oc"] show ?thesis by simp
  qed
  ultimately show ?thesis
    using jobs(1,3) len v rs(2,3) unfolding stop json_len_def by (intro exI [of _ jobs] exI [of _ "oc_results oc"]) simp
qed

text \<open>
  A page of more than a mebibyte whose byte at that offset continues a character makes \<open>web_fetch\<close> panic, and the release build
  aborts the node on a panic.
\<close>

lemma fetched_page_aborts:
  assumes "hex_codec p" "blake3_size p" "get_str ''tool_name'' req = Some ''web_fetch''"
    "get_str ''url'' (job_parameters req) = Some url" "get_str ''extract'' (job_parameters req) = None"
    "\<And>r. send_http h r = Answered 200 body" "MAX_OUTPUT_SIZE < length body" "\<not> is_char_boundary body MAX_OUTPUT_SIZE"
  shows "fst (tools_execute p tx h req a) = Panic"
proof -
  have "slice_max body = (Panic :: (string, string) res)"
    using assms(7,8) by (simp add: slice_max_def str_slice_to_def min_absorb2)
  then have "fst (exec_web_fetch tx h (job_parameters req) ms) = Panic" for ms
    using assms(4-6) by (simp add: exec_web_fetch_def Let_def tool_bind_def ok_or_def pure_def fetched_content_def or_else_def)
  then have "fst (dispatch tx h ''web_fetch'' (job_parameters req) w ms a) = Panic" for w ms
    by (simp add: dispatch_def tool_bind_def)
  then have "fst (execute p tx h ''web_fetch'' (job_parameters req) w ms a :: (json \<times> tool_agent, api_error) tool) = Panic" for w ms
    using assms(2) by (simp add: execute_def Let_def tool_bind_def blake3_size_def hex_digest_slice [OF assms(1)])
  then show ?thesis using assms(3) by (simp add: tools_execute_def tool_bind_def ok_or_def pure_def)
qed

section \<open>Samples\<close>

definition sample_texts :: texts where
  "sample_texts =
     \<lparr>to_lowercase = to_ascii_lowercase, to_uppercase = id, json_text = (\<lambda>v. ''7''), json_parse = (\<lambda>s. None), url_encode = id\<rparr>"

definition sample_host :: host where
  "sample_host =
     \<lparr>env_var = (\<lambda>n. if n = TOOL_POLICY_VENV_PATH_ENV then Some ''/srv/venv'' else None), current_dir = Some ''/srv/app'',
      temp_dir = ''/tmp'', path_exists = (\<lambda>p. True), canonicalize = Ok, read_file = (\<lambda>p. Err ''missing''), open_append = (\<lambda>p. Ok ()),
      write_file = (\<lambda>p c b. Ok ()), run_process = (\<lambda>c. Exited (Some 0) [] []),
      send_http = (\<lambda>r. Answered 200 []), now_ms = 7, now_text = ''now'', elapsed_ms = 1\<rparr>"

definition sample_jobs :: json where
  "sample_jobs = json_object
     [(''jobs'', JArray
        [json_object [(''tool_name'', JString ''shell_execute''), (''parameters'', json_object [(''command'', JString ''ls'')])],
         json_object [(''id'', JString ''second'')]]),
      (''stop_on_error'', JBool True)]"

definition sample_shell :: process where
  "sample_shell =
     \<lparr>pr_program = ''sh'', pr_args = [''-c'', ''ls''], pr_dir = Some ''/srv/app'',
      pr_env = [(''VIRTUAL_ENV'', ''/srv/venv''), (''PATH'', ''/srv/venv/bin:'')], pr_limit_ms = 30000\<rparr>"

definition sample_agent :: tool_agent where
  "sample_agent =
     \<lparr>db = [], running_tasks = [],
      runtime_policy = \<lparr>venv_only = True, venv_path = Some ''/srv/venv'', allowed_roots = [''/srv/app'']\<rparr>,
      allowed_root_paths = [''/srv/app''], venv_root_path = Some ''/srv/venv''\<rparr>"

lemma sample_policy:
  "tool_agent_new sample_host [] = sample_agent"
  "resolve_working_dir sample_agent sample_host None = Ok ''/srv/app''"
  "apply_runtime_env sample_agent sample_host = Ok [(''VIRTUAL_ENV'', ''/srv/venv''), (''PATH'', ''/srv/venv/bin:'')]"
  "find (str_contains (to_lowercase sample_texts ''ls'')) SHELL_DENY_LIST = None"
  by code_simp+

lemma sample_tool_run: "run_process sample_host c = Exited (Some 0) [] []"
  by (simp add: sample_host_def)

lemma sample_shell_run:
  "snd (dispatch sample_texts sample_host ''shell_execute'' (json_object [(''command'', JString ''ls'')]) w 30000 sample_agent) = [Spawned sample_shell]"
  "\<exists>v. fst (dispatch sample_texts sample_host ''shell_execute'' (json_object [(''command'', JString ''ls'')]) w 30000 sample_agent) = Ok (v, sample_agent)"
  unfolding dispatch_def exec_shell_def
  by (simp_all add: tool_bind_def ok_or_def pure_def get_str_def sample_policy MAX_SHELL_TIMEOUT_MS_def sample_shell_def sample_tool_run)

lemma sample_execute:
  "\<exists>v a'. execute sample_primitives sample_texts sample_host ''shell_execute'' (json_object [(''command'', JString ''ls'')]) w 30000 sample_agent =
     (Ok (v, a'), [Spawned sample_shell]) \<and> get_bool ''success'' v = Some True"
  using sample_shell_run(1) [of w] sample_shell_run(2) [of w] sample_primitives_ok
  by (auto simp: execute_def Let_def tool_bind_def pure_def hex_digest_slice blake3_size_def finish_task_def get_bool_def)

lemma sample_orchestration:
  "snd (tools_orchestrate sample_primitives sample_texts (\<lambda>i. sample_host) sample_jobs sample_agent) = [Spawned sample_shell]"
  "is_ok (fst (tools_orchestrate sample_primitives sample_texts (\<lambda>i. sample_host) sample_jobs sample_agent))"
proof -
  obtain v a' where x: "execute sample_primitives sample_texts sample_host ''shell_execute'' (json_object [(''command'', JString ''ls'')]) ''anonymous'' 30000 sample_agent
      = ((Ok (v, a'), [Spawned sample_shell]) :: (json \<times> tool_agent, api_error) tool)" and v: "get_bool ''success'' v = Some True"
    using sample_execute [of "''anonymous''"] by blast
  show "snd (tools_orchestrate sample_primitives sample_texts (\<lambda>i. sample_host) sample_jobs sample_agent) = [Spawned sample_shell]"
    "is_ok (fst (tools_orchestrate sample_primitives sample_texts (\<lambda>i. sample_host) sample_jobs sample_agent))"
    by (simp_all add: tools_orchestrate_def sample_jobs_def get_array_def get_str_def get_u64_def get_bool_def or_else_def tool_bind_def
        ok_or_def pure_def job_parameters_def x v [unfolded get_bool_def] record_job_def TOOL_ORCHESTRATION_MAX_JOBS_def)
qed


lemma sample_jobs_fields: "map_option length (get_array ''jobs'' sample_jobs) = Some 2" "get_bool ''stop_on_error'' sample_jobs = Some True"
  by (simp_all add: sample_jobs_def get_array_def get_bool_def)

lemma orchestration_accounts_sample:
  "\<exists>v a' rs. fst (tools_orchestrate sample_primitives sample_texts (\<lambda>i. sample_host) sample_jobs sample_agent) = Ok (v, a') \<and>
     json_get ''results'' v = Some (JArray rs) \<and> 0 < length rs \<and> length rs \<le> 2 \<and> list_all succeeded (butlast rs)"
proof -
  obtain v a' where va: "fst (tools_orchestrate sample_primitives sample_texts (\<lambda>i. sample_host) sample_jobs sample_agent) = Ok (v, a')"
    using sample_orchestration(2) by (auto simp: is_ok_iff)
  from orchestration_accounts [OF va] obtain jobs rs where "get_array ''jobs'' sample_jobs = Some jobs" "0 < length rs"
    "length rs \<le> length jobs" "json_get ''results'' v = Some (JArray rs)" "list_all succeeded (butlast rs)"
    unfolding sample_jobs_fields(2) by (simp only: if_True simp_thms) blast
  with va sample_jobs_fields(1) show ?thesis by auto
qed

definition sample_csv :: json where
  "sample_csv = json_object
     [(''path'', JString ''/srv/app/out.csv''), (''headers'', JArray [JString ''name'', JString ''note'']),
      (''rows'', JArray [JArray [JString ''a,b'', JString [CHR 0x22, CHR 0x0A]], JArray [JString [], JPosInt 7]])]"

lemma csv_file_reads_back_sample:
  "\<exists>text. snd (exec_csv_write sample_texts sample_host sample_csv) = [Wrote ''/srv/app/out.csv'' text False] \<and>
     csv_table text = Some [[''name'', ''note''], [''a,b'', [CHR 0x22, CHR 0x0A]], [[], ''7'']]"
proof -
  have w: "exec_csv_write sample_texts sample_host sample_csv =
      (Ok (case fst (exec_csv_write sample_texts sample_host sample_csv) of Ok v \<Rightarrow> v), snd (exec_csv_write sample_texts sample_host sample_csv))"
    by (simp add: exec_csv_write_def sample_csv_def tool_bind_def ok_or_def pure_def get_str_def get_array_def sample_host_def Let_def)
  from csv_file_reads_back [OF w, of "''/srv/app/out.csv''" "[''name'', ''note'']"
      "[[JString ''a,b'', JString [CHR 0x22, CHR 0x0A]], [JString [], JPosInt 7]]"]
  show ?thesis by (simp add: sample_csv_def get_str_def get_array_def csv_cell_def sample_texts_def)
qed

lemma knowledge_found_by_key_sample:
  "\<exists>rest. knowledge_query sample_texts
       (sample_agent\<lparr>db := [(''agent_kb_w'', [(''k'', kb_entry ''k'' ''c'' JNull ''now'')])]\<rparr>) ''w'' ''k'' =
     kb_entry ''k'' ''c'' JNull ''now'' # rest"
proof -
  have "knowledge_store sample_host ''w'' ''k'' ''c'' JNull sample_agent =
      (Ok (sample_agent\<lparr>db := [(''agent_kb_w'', [(''k'', kb_entry ''k'' ''c'' JNull ''now'')])]\<rparr>) :: (tool_agent, unit) res)"
    by (simp add: knowledge_store_def sample_agent_def kb_tree_def or_else_def str_slice_to_def is_char_boundary_def tree_simps sample_host_def)
  from knowledge_found_by_key [OF this, of sample_texts] show ?thesis
    by (auto simp: kb_tree_def sample_agent_def tree_simps or_else_def tree_wf_def sample_host_def)
qed

definition sample_fetch :: json where
  "sample_fetch = json_object [(''tool_name'', JString ''web_fetch''), (''parameters'', json_object [(''url'', JString ''http://a'')])]"

lemma fetched_page_aborts_sample:
  "fst (tools_execute sample_primitives sample_texts
     (sample_host\<lparr>send_http := \<lambda>r. Answered 200 (replicate MAX_OUTPUT_SIZE (CHR ''a'') @ [CHR 0x80])\<rparr>) sample_fetch sample_agent) = Panic"
  by (rule fetched_page_aborts [of _ _ "''http://a''" _ "replicate MAX_OUTPUT_SIZE (CHR ''a'') @ [CHR 0x80]"])
    (simp_all add: sample_primitives_ok sample_fetch_def get_str_def job_parameters_def or_else_def is_char_boundary_def nth_append
      MAX_OUTPUT_SIZE_def)

end
