(* ===== verification/FileTransfer.thy ===== *)
theory FileTransfer
  imports ArobiFs
begin

text \<open>
  The upload, download and pin handlers of \<^verbatim>\<open>src/src/api.rs\<close> over the chunk store: chunking, the manifest,
  storing every shard, and reading the data shards back. Base64 decoding is the argument \<open>b64_decode\<close>; the two clock
  readings of an upload are arguments.
\<close>

record fs_upload_req =
  fu_name :: string
  fu_owner :: string
  fu_data_b64 :: string

record fs_upload_resp =
  fr_file_id :: string
  fr_chunks_stored :: u32
  fr_total_size :: u64

record fs_pin_req =
  fp_file_id :: string
  fp_pinner :: string
  fp_duration_secs :: "u64 option"

datatype fs_api_error = Fs_bad_request | Fs_not_found string | Fs_internal fs_error

definition upload_meta :: "string \<Rightarrow> u64 \<Rightarrow> shard \<Rightarrow> chunk_meta" where
  "upload_meta file_id now c =
     \<lparr>cm_chunk_id = fst c, cm_file_id = file_id, cm_index = 0, cm_shard_type = fst (snd c),
      cm_size = of_nat (length (snd (snd c))), cm_stored_at = now\<rparr>"

text \<open>The loop of \<open>put_chunk\<close> calls: a failing call ends the handler and keeps what was written before.\<close>

fun store_chunks :: "primitives \<Rightarrow> string \<Rightarrow> u64 \<Rightarrow> shard list \<Rightarrow> chunk_store \<Rightarrow> (unit, fs_error) res \<times> chunk_store" where
  "store_chunks p file_id now [] s = (Ok (), s)"
| "store_chunks p file_id now (c # cs) s =
     (case put_chunk p (upload_meta file_id now c) (snd (snd c)) s of
        Ok s' \<Rightarrow> store_chunks p file_id now cs s'
      | Err e \<Rightarrow> (Err e, s)
      | Panic \<Rightarrow> (Panic, s))"

definition fs_upload ::
    "primitives \<Rightarrow> (string \<Rightarrow> bytes option) \<Rightarrow> (bytes list \<Rightarrow> bytes list option) \<Rightarrow> u64 \<Rightarrow> u64 \<Rightarrow> fs_upload_req
       \<Rightarrow> chunk_store \<Rightarrow> (fs_upload_resp, fs_api_error) res \<times> chunk_store" where
  "fs_upload p b64_decode rs_encode created_ms stored_ms req s =
     (case b64_decode (fu_data_b64 req) of
        None \<Rightarrow> (Err Fs_bad_request, s)
      | Some data \<Rightarrow>
          if data = [] then (Err Fs_bad_request, s)
          else if MAX_FILE_SIZE < length data then (Err Fs_bad_request, s)
          else case chunk_file p rs_encode data of
                 Err e \<Rightarrow> (Err (Fs_internal e), s)
               | Panic \<Rightarrow> (Panic, s)
               | Ok chunks \<Rightarrow>
                   let m = build_manifest p created_ms (fu_name req) (of_nat (length data)) (fu_owner req) chunks;
                       (r, s') = store_chunks p (fm_file_id m) stored_ms chunks (put_manifest m s)
                   in case r of
                        Err e \<Rightarrow> (Err (Fs_internal e), s')
                      | Panic \<Rightarrow> (Panic, s')
                      | Ok u \<Rightarrow>
                          if length (fm_file_id m) < 16 then (Panic, s')
                          else (Ok \<lparr>fr_file_id = fm_file_id m, fr_chunks_stored = fm_chunk_count m,
                                    fr_total_size = of_nat (length data)\<rparr>, s'))"

definition fs_download :: "string \<Rightarrow> chunk_store \<Rightarrow> (bytes, fs_api_error) res" where
  "fs_download file_id s =
     (case get_manifest file_id s of
        None \<Rightarrow> Err (Fs_not_found file_id)
      | Some m \<Rightarrow>
          res_bind (res_fold (\<lambda>c file_data.
              if cr_shard_type c \<noteq> Data then Ok file_data
              else case get_chunk_data (cr_chunk_id c) s of
                     None \<Rightarrow> Err (Fs_not_found (cr_chunk_id c))
                   | Some b \<Rightarrow> Ok (file_data @ b)) (fm_chunks m) [])
            (\<lambda>file_data. Ok (take (unat (fm_total_size m)) file_data)))"

definition fs_pin :: "u64 \<Rightarrow> fs_pin_req \<Rightarrow> chunk_store \<Rightarrow> (string, fs_api_error) res \<times> chunk_store" where
  "fs_pin now req s =
     (if get_manifest (fp_file_id req) s = None then (Err (Fs_not_found (fp_file_id req)), s)
      else let duration = (case fp_duration_secs req of None \<Rightarrow> 0 | Some d \<Rightarrow> d);
               r = \<lparr>pr_file_id = fp_file_id req, pr_pinner = fp_pinner req, pr_deposit_aura = 0,
                    pr_pin_policy = pin_policy_default\<lparr>pp_pin_duration_secs := duration\<rparr>, pr_pinned_at = now,
                    pr_expires_at = (if 0 < duration then now + duration * 1000 else 0)\<rparr>
           in (Ok ''pinned'', put_pin r s))"

definition fs_unpin :: "string \<Rightarrow> chunk_store \<Rightarrow> string \<times> chunk_store" where
  "fs_unpin file_id s =
     (let (removed, s') = delete_pin file_id s in (if removed then ''unpinned'' else ''not_pinned'', s'))"

text \<open>\<^verbatim>\<open>save_to_arobifs\<close> of \<^verbatim>\<open>src/src/llm/checkpoint.rs\<close> from the serialised checkpoint on: the chunks first, then
  the manifest.\<close>

definition save_to_arobifs ::
    "primitives \<Rightarrow> (bytes list \<Rightarrow> bytes list option) \<Rightarrow> u64 \<Rightarrow> u64 \<Rightarrow> string \<Rightarrow> u64 \<Rightarrow> string \<Rightarrow> bytes
       \<Rightarrow> chunk_store \<Rightarrow> (string, fs_error) res \<times> chunk_store" where
  "save_to_arobifs p rs_encode created_ms stored_ms model_id round_id owner data s =
     (case chunk_file p rs_encode data of
        Err e \<Rightarrow> (Err e, s)
      | Panic \<Rightarrow> (Panic, s)
      | Ok chunks \<Rightarrow>
          let m = build_manifest p created_ms (model_id @ ''_checkpoint_'' @ dec64 round_id)
                    (of_nat (length data)) owner chunks;
              (r, s') = store_chunks p (fm_file_id m) stored_ms chunks s
          in case r of
               Err e \<Rightarrow> (Err e, s')
             | Panic \<Rightarrow> (Panic, s')
             | Ok u \<Rightarrow> (Ok (fm_file_id m), put_manifest m s'))"

section \<open>Chunking loses nothing\<close>

lemma slice_chunks_Nil [simp]: "slice_chunks n [] = []"
  by (simp add: slice_chunks.simps)

lemma concat_slice_chunks [simp]: "0 < n \<Longrightarrow> concat (slice_chunks n xs) = xs"
  by (induction n xs rule: slice_chunks.induct) (subst slice_chunks.simps, simp)

lemma slice_chunks_short: "xs \<noteq> [] \<Longrightarrow> length xs \<le> n \<Longrightarrow> slice_chunks n xs = [xs]"
  by (cases xs) (auto simp: slice_chunks.simps)

lemma length_slice_chunks: "length (slice_chunks n xs) * n \<le> length xs + n"
proof (induction n xs rule: slice_chunks.induct)
  case (1 n xs)
  then show ?case
    by (subst slice_chunks.simps)
      (cases "n \<le> length xs", auto simp: slice_chunks.simps [of n "drop n xs"])
qed

lemma slice_chunks_sizes: "c \<in> set (slice_chunks n xs) \<Longrightarrow> 0 < length c \<and> length c \<le> n"
  by (induction n xs rule: slice_chunks.induct) (subst (asm) (2) slice_chunks.simps, auto split: if_splits)

definition data_shards :: "shard list \<Rightarrow> bytes list" where
  "data_shards cs = map (snd \<circ> snd) (filter (\<lambda>c. fst (snd c) = Data) cs)"

definition shard_ok :: "primitives \<Rightarrow> shard \<Rightarrow> bool" where
  "shard_ok p c \<longleftrightarrow> fst c = content_id p (snd (snd c))"

lemma data_shards_append [simp]: "data_shards (a @ b) = data_shards a @ data_shards b"
  by (simp add: data_shards_def)

lemma data_shards_group [simp]:
  "data_shards (map (\<lambda>b. (f b, Data, b)) g) = g"
  "data_shards (map (\<lambda>(i, b). (f b, Parity (h i), b)) ps) = []"
  by (induction g) (auto simp: data_shards_def filter_map o_def split_def)

lemma chunk_group_result:
  assumes "chunk_group p rs_encode g acc = Ok r"
  shows "data_shards r = data_shards acc @ g"
    and "list_all (shard_ok p) acc \<Longrightarrow> list_all (shard_ok p) r"
    and "\<exists>ps. rs_encode (map (resize (foldr max (map length g) 0)) g
             @ replicate (RS_DATA_SHARDS - length g) (replicate (foldr max (map length g) 0) (CHR 0x00))) = Some ps
           \<and> length r = length acc + length g + length ps"
  using assms
  by (auto simp: chunk_group_def encode_group_def res_simps Let_def shard_ok_def list_all_iff split: option.splits)

lemma chunk_groups_data:
  "res_fold (chunk_group p rs_encode) gs acc = Ok r \<Longrightarrow> data_shards r = data_shards acc @ concat gs"
  by (induction gs arbitrary: acc) (auto simp: res_simps chunk_group_result(1))

lemma chunk_groups_ids:
  "res_fold (chunk_group p rs_encode) gs acc = Ok r \<Longrightarrow> list_all (shard_ok p) acc \<Longrightarrow> list_all (shard_ok p) r"
  by (rule res_fold_invariant [where I = "list_all (shard_ok p)"]) (auto intro: chunk_group_result(2))

text \<open>The crate returns one parity shard per configured parity position.\<close>

definition rs_parity_count :: "(bytes list \<Rightarrow> bytes list option) \<Rightarrow> bool" where
  "rs_parity_count rs_encode \<longleftrightarrow> (\<forall>ds ps. rs_encode ds = Some ps \<longrightarrow> length ps = RS_PARITY_SHARDS)"

lemma chunk_groups_length:
  assumes "rs_parity_count rs_encode"
  shows "res_fold (chunk_group p rs_encode) gs acc = Ok r \<Longrightarrow>
    length r = length acc + length (concat gs) + RS_PARITY_SHARDS * length gs"
proof (induction gs arbitrary: acc)
  case (Cons g gs)
  then obtain a where a: "chunk_group p rs_encode g acc = Ok a" "res_fold (chunk_group p rs_encode) gs a = Ok r"
    by (auto simp: res_simps)
  from chunk_group_result(3) [OF a(1)] assms have "length a = length acc + length g + RS_PARITY_SHARDS"
    by (auto simp: rs_parity_count_def)
  with Cons.IH [OF a(2)] show ?case by simp
qed (simp add: res_simps)

lemma chunk_file_shards:
  assumes "chunk_file p rs_encode data = Ok cs"
  shows "concat (data_shards cs) = data" and "list_all (shard_ok p) cs"
proof -
  have run: "res_fold (chunk_group p rs_encode) (slice_chunks RS_DATA_SHARDS (slice_chunks CHUNK_SIZE data)) [] = Ok cs"
    using assms by (simp add: chunk_file_def Let_def split: if_splits)
  show "concat (data_shards cs) = data"
    using chunk_groups_data [OF run] by (simp add: RS_DATA_SHARDS_def CHUNK_SIZE_def data_shards_def [of "[]"])
  show "list_all (shard_ok p) cs"
    using chunk_groups_ids [OF run] by simp
qed

lemma chunk_file_length:
  assumes "chunk_file p rs_encode data = Ok cs" and "rs_parity_count rs_encode"
  shows "length cs < 2 ^ 32"
proof -
  let ?ds = "slice_chunks CHUNK_SIZE data"
  let ?gs = "slice_chunks RS_DATA_SHARDS ?ds"
  have run: "res_fold (chunk_group p rs_encode) ?gs [] = Ok cs" and le: "length data \<le> MAX_FILE_SIZE"
    using assms(1) by (auto simp: chunk_file_def Let_def split: if_splits)
  have "length cs = length ?ds + 2 * length ?gs"
    using chunk_groups_length [OF assms(2) run] by (simp add: RS_DATA_SHARDS_def RS_PARITY_SHARDS_def)
  moreover have "length ?ds * CHUNK_SIZE \<le> length data + CHUNK_SIZE"
    "length ?gs * RS_DATA_SHARDS \<le> length ?ds + RS_DATA_SHARDS"
    by (rule length_slice_chunks)+
  ultimately show ?thesis
    using le by (simp add: CHUNK_SIZE_def MAX_FILE_SIZE_def RS_DATA_SHARDS_def)
qed

section \<open>What a successful upload leaves in the store\<close>

lemma put_chunk_Ok:
  "put_chunk p meta data s = Ok s' \<longleftrightarrow>
     content_id p data = cm_chunk_id meta \<and> chunk_count s < MAX_LOCAL_CHUNKS
       \<and> s' = s\<lparr>st_blobs := tree_insert (cm_chunk_id meta) data (st_blobs s),
               st_index := tree_insert (cm_chunk_id meta) meta (st_index s)\<rparr>"
  by (auto simp: put_chunk_def Let_def)

lemma store_chunks_blobs:
  "store_chunks p fid now cs s = (Ok (), s') \<Longrightarrow>
     get_chunk_data j s' = (case map_of (rev (map (\<lambda>c. (fst c, snd (snd c))) cs)) j of
                              None \<Rightarrow> get_chunk_data j s | Some b \<Rightarrow> Some b)"
proof (induction cs arbitrary: s)
  case (Cons c cs)
  then obtain s1 where step: "put_chunk p (upload_meta fid now c) (snd (snd c)) s = Ok s1"
    and rest: "store_chunks p fid now cs s1 = (Ok (), s')"
    by (auto split: res.splits)
  have "get_chunk_data j s1 = (if j = fst c then Some (snd (snd c)) else get_chunk_data j s)"
    using step by (auto simp: put_chunk_Ok get_chunk_data_def upload_meta_def tree_simps)
  with Cons.IH [OF rest] show ?case
    by (auto simp: map_add_def split: option.splits)
qed simp

lemma store_chunks_manifests: "st_manifests (snd (store_chunks p fid now cs s)) = st_manifests s"
  by (induction cs arbitrary: s) (auto simp: put_chunk_Ok split: res.splits)

text \<open>Two shards of one file with different bytes and the same BLAKE3 content id.\<close>

definition shard_collision :: "primitives \<Rightarrow> shard list \<Rightarrow> bool" where
  "shard_collision p cs \<longleftrightarrow>
     (\<exists>c \<in> set cs. \<exists>c' \<in> set cs. snd (snd c) \<noteq> snd (snd c') \<and> content_id p (snd (snd c)) = content_id p (snd (snd c')))"

lemma store_chunks_keeps_shards:
  assumes run: "store_chunks p fid now cs s = (Ok (), s')" and ids: "list_all (shard_ok p) cs"
    and free: "\<not> shard_collision p cs"
  shows "\<forall>c \<in> set cs. get_chunk_data (fst c) s' = Some (snd (snd c))"
proof
  fix c assume c: "c \<in> set cs"
  let ?m = "rev (map (\<lambda>c. (fst c, snd (snd c))) cs)"
  from c have "fst c \<in> fst ` set ?m" by force
  then have "map_of ?m (fst c) \<noteq> None" by (simp only: map_of_eq_None_iff not_not)
  then obtain b where b: "map_of ?m (fst c) = Some b" by (cases "map_of ?m (fst c)") simp_all
  then obtain c' where c': "c' \<in> set cs" "fst c' = fst c" "snd (snd c') = b"
    by (auto dest!: map_of_SomeD)
  with c ids have "content_id p (snd (snd c')) = content_id p (snd (snd c))"
    by (auto simp: list_all_iff shard_ok_def)
  with free c c' have "b = snd (snd c)" by (auto simp: shard_collision_def)
  with store_chunks_blobs [OF run, of "fst c"] b show "get_chunk_data (fst c) s' = Some (snd (snd c))" by simp
qed

section \<open>Reading back\<close>

definition manifest_ref :: "nat \<times> shard \<Rightarrow> chunk_ref" where
  "manifest_ref x = \<lparr>cr_chunk_id = fst (snd x), cr_index = of_nat (fst x), cr_shard_type = fst (snd (snd x)),
     cr_size = of_nat (length (snd (snd (snd x))))\<rparr>"

lemma build_manifest_fields [simp]:
  "fm_chunks (build_manifest p now name n owner cs) = map manifest_ref (enumerate 0 cs)"
  "fm_total_size (build_manifest p now name n owner cs) = n"
  by (simp_all add: build_manifest_def manifest_ref_def Let_def split_def)

lemma download_fold:
  assumes "\<forall>c \<in> set cs. get_chunk_data (fst c) s = Some (snd (snd c))"
  shows "res_fold (\<lambda>c file_data.
              if cr_shard_type c \<noteq> Data then Ok file_data
              else case get_chunk_data (cr_chunk_id c) s of
                     None \<Rightarrow> Err (Fs_not_found (cr_chunk_id c))
                   | Some b \<Rightarrow> Ok (file_data @ b)) (map manifest_ref (enumerate k cs)) acc
         = Ok (acc @ concat (data_shards cs))"
  using assms by (induction cs arbitrary: k acc) (auto simp: manifest_ref_def data_shards_def)

lemma reassemble_fold:
  assumes "\<forall>c \<in> set cs. get_chunk_data (fst c) s = Some (snd (snd c))"
  shows "res_fold (\<lambda>c file_data.
              case get_chunk_data (cr_chunk_id c) s of
                None \<Rightarrow> Err (Missing_chunk (cr_chunk_id c) fid)
              | Some b \<Rightarrow> Ok (file_data @ b))
           (filter (\<lambda>c. cr_shard_type c = Data) (map manifest_ref (enumerate k cs))) acc
         = Ok (acc @ concat (data_shards cs))"
  using assms by (induction cs arbitrary: k acc) (auto simp: manifest_ref_def data_shards_def)

lemma of_nat_u32_mono: "a \<le> b \<Longrightarrow> b < 2 ^ 32 \<Longrightarrow> (of_nat a :: u32) \<le> of_nat b"
  by (simp add: word_le_nat_alt unat_of_nat take_bit_nat_eq_self)

lemma manifest_refs_sorted:
  assumes "length cs < 2 ^ 32"
  shows "sort_key cr_index (filter P (map manifest_ref (enumerate 0 cs))) = filter P (map manifest_ref (enumerate 0 cs))"
proof -
  have "sorted (map cr_index (map manifest_ref (enumerate 0 cs)))"
    using assms by (auto simp: sorted_iff_nth_mono nth_enumerate_eq manifest_ref_def intro: of_nat_u32_mono)
  then show ?thesis
    by (intro sort_key_id_if_sorted sorted_filter)
qed

lemma stored_file_reads_back:
  assumes m: "get_manifest fid s = Some (build_manifest p now name (of_nat (length data)) owner cs)"
    and cs: "chunk_file p rs_encode data = Ok cs"
    and held: "\<forall>c \<in> set cs. get_chunk_data (fst c) s = Some (snd (snd c))"
  shows "fs_download fid s = Ok data"
    and "rs_parity_count rs_encode \<Longrightarrow> reassemble_file fid s = Ok data"
proof -
  have "length data \<le> MAX_FILE_SIZE" using cs by (auto simp: chunk_file_def split: if_splits)
  then have n: "unat (of_nat (length data) :: u64) = length data"
    by (intro unat_of_nat_u64) (simp add: MAX_FILE_SIZE_def)
  show "fs_download fid s = Ok data"
    by (simp add: fs_download_def m download_fold [OF held] chunk_file_shards [OF cs] n)
  assume "rs_parity_count rs_encode"
  then show "reassemble_file fid s = Ok data"
    using chunk_file_length [OF cs]
    by (simp add: reassemble_file_def m Let_def manifest_refs_sorted reassemble_fold [OF held]
        chunk_file_shards [OF cs] n)
qed

lemma fs_upload_OkE:
  assumes "fs_upload p b64_decode rs_encode t1 t2 req s = (Ok resp, s')"
  obtains data cs m where
    "b64_decode (fu_data_b64 req) = Some data" "chunk_file p rs_encode data = Ok cs"
    "m = build_manifest p t1 (fu_name req) (of_nat (length data)) (fu_owner req) cs"
    "store_chunks p (fm_file_id m) t2 cs (put_manifest m s) = (Ok (), s')"
    "fr_file_id resp = fm_file_id m"
proof -
  from assms obtain data where data: "b64_decode (fu_data_b64 req) = Some data"
    by (auto simp: fs_upload_def split: option.splits)
  with assms obtain cs where cs: "chunk_file p rs_encode data = Ok cs"
    by (auto simp: fs_upload_def split: if_splits res.splits)
  let ?m = "build_manifest p t1 (fu_name req) (of_nat (length data)) (fu_owner req) cs"
  obtain r s2 where run: "store_chunks p (fm_file_id ?m) t2 cs (put_manifest ?m s) = (r, s2)" by force
  with assms data cs have "r = Ok ()" "s2 = s'" "fr_file_id resp = fm_file_id ?m"
    by (auto simp: fs_upload_def Let_def split: if_splits res.splits)
  with that data cs run show thesis by blast
qed

lemma upload_reads_back:
  assumes "fs_upload p b64_decode rs_encode created_ms stored_ms req s = (Ok resp, s')"
    and "b64_decode (fu_data_b64 req) = Some data" and "rs_parity_count rs_encode"
    and cs: "chunk_file p rs_encode data = Ok cs" and free: "\<not> shard_collision p cs"
  shows "fs_download (fr_file_id resp) s' = Ok data \<and> reassemble_file (fr_file_id resp) s' = Ok data"
proof -
  from assms(1) obtain m where
    m: "m = build_manifest p created_ms (fu_name req) (of_nat (length data)) (fu_owner req) cs" and
    run: "store_chunks p (fm_file_id m) stored_ms cs (put_manifest m s) = (Ok (), s')" and
    fid: "fr_file_id resp = fm_file_id m"
    using assms(2) cs by (elim fs_upload_OkE) auto
  have held: "\<forall>c \<in> set cs. get_chunk_data (fst c) s' = Some (snd (snd c))"
    using store_chunks_keeps_shards [OF run chunk_file_shards(2) [OF cs] free] .
  have "get_manifest (fm_file_id m) s' = Some m"
    using store_chunks_manifests [of p "fm_file_id m" stored_ms cs "put_manifest m s"] unfolding run
    by (simp add: get_manifest_def put_manifest_def tree_simps)
  with stored_file_reads_back [OF _ cs held] m fid assms(3) show ?thesis by simp
qed

text \<open>
  C13. The round trip of the file store: after an upload that answered with a file id, downloading that id and
  reassembling it (the path that loads model checkpoints) both give back exactly the uploaded bytes, whatever
  was stored before, unless two different shards of this very file have the same BLAKE3 content id. The
  erasure-coding crate is only required to return its two parity shards.
\<close>

theorem upload_round_trip:
  assumes "fs_upload p b64_decode rs_encode created_ms stored_ms req s = (Ok resp, s')"
    and "b64_decode (fu_data_b64 req) = Some data" and "rs_parity_count rs_encode"
  shows "(fs_download (fr_file_id resp) s' = Ok data \<and> reassemble_file (fr_file_id resp) s' = Ok data)
       \<or> (\<exists>cs. chunk_file p rs_encode data = Ok cs \<and> shard_collision p cs)"
proof -
  from assms obtain cs where "chunk_file p rs_encode data = Ok cs"
    by (elim fs_upload_OkE) auto
  then show ?thesis using upload_reads_back [OF assms] by blast
qed

section \<open>When an upload succeeds\<close>

lemma store_chunks_room:
  "list_all (shard_ok p) cs \<Longrightarrow> chunk_count s + length cs \<le> MAX_LOCAL_CHUNKS \<Longrightarrow>
     \<exists>s'. store_chunks p fid now cs s = (Ok (), s')"
proof (induction cs arbitrary: s)
  case (Cons c cs)
  let ?m = "upload_meta fid now c"
  let ?s = "s\<lparr>st_blobs := tree_insert (cm_chunk_id ?m) (snd (snd c)) (st_blobs s),
             st_index := tree_insert (cm_chunk_id ?m) ?m (st_index s)\<rparr>"
  have "put_chunk p ?m (snd (snd c)) s = Ok ?s"
    using Cons.prems by (simp add: put_chunk_Ok shard_ok_def upload_meta_def)
  moreover have "chunk_count ?s + length cs \<le> MAX_LOCAL_CHUNKS"
    using Cons.prems(2) length_tree_insert_le [of "cm_chunk_id ?m" ?m "st_index s"] by (simp add: chunk_count_def)
  ultimately show ?case using Cons.IH [of ?s] Cons.prems(1) by simp
qed simp

text \<open>The crate encodes every group of four shards of one size.\<close>

definition rs_encodes :: "(bytes list \<Rightarrow> bytes list option) \<Rightarrow> bool" where
  "rs_encodes rs_encode \<longleftrightarrow>
     (\<forall>n ds. 0 < n \<and> length ds = RS_DATA_SHARDS \<and> (\<forall>d \<in> set ds. length d = n) \<longrightarrow> rs_encode ds \<noteq> None)"

lemma length_resize [simp]: "length (resize n v) = n"
  by (simp add: resize_def)

lemma encode_group_total:
  assumes "rs_encodes rs_encode" and "g \<noteq> []" "length g \<le> RS_DATA_SHARDS" "\<forall>c \<in> set g. c \<noteq> []"
  shows "\<exists>ps. encode_group rs_encode g = Ok ps"
proof -
  define n where "n = foldr max (map length g) 0"
  let ?full = "map (resize n) g @ replicate (RS_DATA_SHARDS - length g) (replicate n (CHR 0x00))"
  from assms obtain c g' where "g = c # g'" "c \<noteq> []" by (cases g) auto
  then have "0 < n" by (simp add: n_def less_max_iff_disj)
  then have "rs_encode ?full \<noteq> None"
    using assms(1,3) unfolding rs_encodes_def by (elim allE [of _ n] allE [of _ ?full]) auto
  then show ?thesis by (auto simp: encode_group_def Let_def n_def [symmetric])
qed

lemma chunk_groups_total:
  assumes "rs_encodes rs_encode"
  shows "\<forall>g \<in> set gs. g \<noteq> [] \<and> length g \<le> RS_DATA_SHARDS \<and> (\<forall>c \<in> set g. c \<noteq> []) \<Longrightarrow>
    \<exists>r. res_fold (chunk_group p rs_encode) gs acc = Ok r"
proof (induction gs arbitrary: acc)
  case (Cons g gs)
  obtain ps where "encode_group rs_encode g = Ok ps"
    using encode_group_total [OF assms, of g] Cons.prems by auto
  then show ?case using Cons by (simp add: chunk_group_def)
qed simp

lemma set_slice_chunks: "g \<in> set (slice_chunks n xs) \<Longrightarrow> set g \<subseteq> set xs"
proof (induction n xs rule: slice_chunks.induct)
  case (1 n xs)
  from 1(2) consider "g = take n xs" | "xs \<noteq> [] \<and> n \<noteq> 0" "g \<in> set (slice_chunks n (drop n xs))"
    by (subst (asm) slice_chunks.simps) (auto split: if_splits)
  then show ?case
    by cases (use 1(1) set_take_subset set_drop_subset in \<open>fastforce+\<close>)
qed

lemma chunk_file_total:
  assumes "rs_encodes rs_encode" and "data \<noteq> []" "length data \<le> MAX_FILE_SIZE"
  shows "\<exists>cs. chunk_file p rs_encode data = Ok cs"
proof -
  let ?ds = "slice_chunks CHUNK_SIZE data"
  have "\<forall>g \<in> set (slice_chunks RS_DATA_SHARDS ?ds). g \<noteq> [] \<and> length g \<le> RS_DATA_SHARDS \<and> (\<forall>c \<in> set g. c \<noteq> [])"
    (is "\<forall>g \<in> ?G. ?P g")
  proof
    fix g assume g: "g \<in> ?G"
    have "c \<noteq> []" if "c \<in> set g" for c
      using slice_chunks_sizes [of c CHUNK_SIZE data] set_slice_chunks [OF g] that by auto
    with slice_chunks_sizes [OF g] show "?P g" by auto
  qed
  from chunk_groups_total [OF assms(1) this, of p "[]"] assms(2,3) show ?thesis
    by (simp add: chunk_file_def Let_def)
qed

lemma upload_completes:
  assumes "b64_decode (fu_data_b64 req) = Some data" and "data \<noteq> []" "length data \<le> MAX_FILE_SIZE"
    and "rs_encodes rs_encode" "rs_parity_count rs_encode" "hex_codec p" "blake3_size p"
    and room: "chunk_count s + length data div (128 * 1024) + 9 \<le> MAX_LOCAL_CHUNKS"
  shows "\<exists>resp s'. fs_upload p b64_decode rs_encode created_ms stored_ms req s = (Ok resp, s')"
proof -
  obtain cs where cs: "chunk_file p rs_encode data = Ok cs"
    using chunk_file_total [OF assms(4,2,3)] by blast
  let ?m = "build_manifest p created_ms (fu_name req) (of_nat (length data)) (fu_owner req) cs"
  let ?ds = "slice_chunks CHUNK_SIZE data"
  let ?gs = "slice_chunks RS_DATA_SHARDS ?ds"
  have run: "res_fold (chunk_group p rs_encode) ?gs [] = Ok cs"
    using cs assms(2,3) by (simp add: chunk_file_def Let_def)
  have "length cs = length ?ds + 2 * length ?gs"
    using chunk_groups_length [OF assms(5) run] by (simp add: RS_DATA_SHARDS_def RS_PARITY_SHARDS_def)
  with length_slice_chunks [of CHUNK_SIZE data] length_slice_chunks [of RS_DATA_SHARDS ?ds] room
  have "chunk_count (put_manifest ?m s) + length cs \<le> MAX_LOCAL_CHUNKS"
    by (simp add: RS_DATA_SHARDS_def CHUNK_SIZE_def chunk_count_def put_manifest_def)
  from store_chunks_room [OF chunk_file_shards(2) [OF cs] this]
  obtain s' where st: "store_chunks p (fm_file_id ?m) stored_ms cs (put_manifest ?m s) = (Ok (), s')" by blast
  have "\<not> length (fm_file_id ?m) < 16"
    using assms(6,7) by (simp add: build_manifest_def Let_def content_id_def hex_codec_def blake3_size_def)
  then show ?thesis
    using assms(1-3) by (simp add: fs_upload_def cs st Let_def)
qed

text \<open>
  C14. Uploads do succeed: for a body that decodes to a non-empty file within the size limit, with room for its
  shards under the local chunk limit and an erasure coder that encodes equal-sized groups, the handler answers
  with a file id; neither the id slice of its log line nor the store panics or fails.
\<close>

theorem upload_succeeds:
  assumes "b64_decode (fu_data_b64 req) = Some data" and "data \<noteq> []" "length data \<le> MAX_FILE_SIZE"
    and "rs_encodes rs_encode" "rs_parity_count rs_encode" "hex_codec p" "blake3_size p"
    and room: "chunk_count s + length data div (128 * 1024) + 9 \<le> MAX_LOCAL_CHUNKS"
  shows "\<exists>resp s'. fs_upload p b64_decode rs_encode created_ms stored_ms req s = (Ok resp, s')"
  by (rule upload_completes) (fact assms)+

section \<open>A concrete upload, and uploads into a full store\<close>

definition empty_store :: chunk_store where
  "empty_store = \<lparr>st_blobs = [], st_index = [], st_manifests = [], st_pins = [], st_proofs = []\<rparr>"

definition sample_rs :: "bytes list \<Rightarrow> bytes list option" where
  "sample_rs ds = Some [''parity0'', ''parity1'']"

definition sample_upload :: fs_upload_req where
  "sample_upload = \<lparr>fu_name = ''a.txt'', fu_owner = ''AROBI1'', fu_data_b64 = ''abc''\<rparr>"

lemma sample_rs_laws: "rs_encodes sample_rs" "rs_parity_count sample_rs"
  by (auto simp: rs_encodes_def rs_parity_count_def sample_rs_def RS_PARITY_SHARDS_def)

lemma chunk_file_sample:
  "chunk_file p sample_rs ''abc'' =
     Ok [(content_id p ''abc'', Data, ''abc''), (content_id p ''parity0'', Parity 0, ''parity0''),
         (content_id p ''parity1'', Parity 1, ''parity1'')]"
  by (simp add: chunk_file_def MAX_FILE_SIZE_def CHUNK_SIZE_def RS_DATA_SHARDS_def slice_chunks_short
      chunk_group_def encode_group_def sample_rs_def Let_def)

lemma sample_content_id_eq:
  "content_id sample_primitives a = content_id sample_primitives b \<longleftrightarrow> sample_digest a = sample_digest b"
  unfolding content_id_def sample_primitives_def by simp (metis sample_hex_roundtrip option.inject)

lemma sample_no_collision:
  "chunk_file sample_primitives sample_rs ''abc'' = Ok cs \<Longrightarrow> \<not> shard_collision sample_primitives cs"
  by (auto simp: chunk_file_sample shard_collision_def sample_content_id_eq sample_digest_def)

theorem upload_succeeds_witness:
  "\<exists>resp s'. fs_upload sample_primitives Some sample_rs 7 8 sample_upload empty_store = (Ok resp, s')"
  by (rule upload_succeeds [where data = "''abc''"])
    (simp_all add: sample_upload_def MAX_FILE_SIZE_def MAX_LOCAL_CHUNKS_def chunk_count_def empty_store_def
      sample_rs_laws sample_primitives_ok)

theorem upload_round_trip_witness:
  "\<exists>resp s'. fs_upload sample_primitives Some sample_rs 7 8 sample_upload empty_store = (Ok resp, s')
     \<and> fs_download (fr_file_id resp) s' = Ok ''abc'' \<and> reassemble_file (fr_file_id resp) s' = Ok ''abc''"
proof -
  obtain resp s' where up: "fs_upload sample_primitives Some sample_rs 7 8 sample_upload empty_store = (Ok resp, s')"
    using upload_completes [of Some sample_upload "''abc''" sample_rs sample_primitives empty_store 7 8]
    by (auto simp: sample_upload_def MAX_FILE_SIZE_def MAX_LOCAL_CHUNKS_def chunk_count_def empty_store_def
        sample_rs_laws sample_primitives_ok)
  with upload_round_trip [OF up, of "''abc''"] sample_no_collision sample_rs_laws(2) show ?thesis
    by (auto simp: sample_upload_def)
qed

text \<open>
  An upload into a full store fails but leaves its manifest behind: the handler writes the manifest before the
  chunks, so the caller gets an error while the store now lists a file whose chunks were never written, and
  every download of it answers that the first chunk is missing.
\<close>

lemma failed_upload_leaves_manifest:
  assumes "b64_decode (fu_data_b64 req) = Some data" and "data \<noteq> []" "length data \<le> MAX_FILE_SIZE"
    and cs: "chunk_file p rs_encode data = Ok ((i, Data, b) # cs)"
    and full: "MAX_LOCAL_CHUNKS \<le> chunk_count s" and absent: "get_chunk_data i s = None"
  shows "\<exists>m s'. fs_upload p b64_decode rs_encode created_ms stored_ms req s
                  = (Err (Fs_internal (Storage_full (chunk_count s))), s')
     \<and> get_manifest (fm_file_id m) s' = Some m \<and> fm_name m = fu_name req
     \<and> fs_download (fm_file_id m) s' = Err (Fs_not_found i)"
proof -
  let ?m = "build_manifest p created_ms (fu_name req) (of_nat (length data)) (fu_owner req) ((i, Data, b) # cs)"
  let ?s = "put_manifest ?m s"
  have "i = content_id p b" using chunk_file_shards(2) [OF cs] by (simp add: shard_ok_def)
  with full have st: "store_chunks p (fm_file_id ?m) stored_ms ((i, Data, b) # cs) ?s
      = (Err (Storage_full (chunk_count s)), ?s)"
    by (simp add: put_chunk_def upload_meta_def chunk_count_def put_manifest_def)
  have up: "fs_upload p b64_decode rs_encode created_ms stored_ms req s = (Err (Fs_internal (Storage_full (chunk_count s))), ?s)"
    using assms(1-3) by (simp add: fs_upload_def cs st Let_def del: store_chunks.simps)
  have m: "get_manifest (fm_file_id ?m) ?s = Some ?m" "fm_name ?m = fu_name req"
    by (simp_all add: get_manifest_def put_manifest_def tree_simps build_manifest_def Let_def)
  have "get_chunk_data i ?s = None"
    using absent by (simp add: get_chunk_data_def put_manifest_def)
  then have "fs_download (fm_file_id ?m) ?s = Err (Fs_not_found i)"
    by (simp add: fs_download_def m manifest_ref_def)
  with up m show ?thesis by blast
qed

definition full_store :: chunk_store where
  "full_store = empty_store\<lparr>st_index := map (\<lambda>n. (replicate n (CHR ''a''),
     upload_meta ''f'' 0 (replicate n (CHR ''a''), Data, ''x''))) [0..<MAX_LOCAL_CHUNKS]\<rparr>"

lemma full_store_facts:
  "chunk_count full_store = MAX_LOCAL_CHUNKS" "get_chunk_data i full_store = None"
  by (simp_all add: full_store_def chunk_count_def get_chunk_data_def empty_store_def tree_simps)

lemma failed_upload_leaves_manifest_sample:
  "\<exists>m s'. fs_upload sample_primitives Some sample_rs 7 8 sample_upload full_store
            = (Err (Fs_internal (Storage_full MAX_LOCAL_CHUNKS)), s')
     \<and> get_manifest (fm_file_id m) s' = Some m \<and> fm_name m = ''a.txt''
     \<and> fs_download (fm_file_id m) s' = Err (Fs_not_found (content_id sample_primitives ''abc''))"
  using failed_upload_leaves_manifest [where b64_decode = Some and req = sample_upload and data = "''abc''"
      and s = full_store, OF _ _ _ chunk_file_sample [of sample_primitives], of 7 8]
  by (simp add: sample_upload_def MAX_FILE_SIZE_def full_store_facts)

end
