(* ===== verification/FsProof.thy ===== *)
theory FsProof
  imports FileTransfer
begin

text \<open>
  \<^verbatim>\<open>src/src/fs/proof.rs\<close>: challenges over random byte ranges of a chunk and the proofs that answer them. The random
  draws of \<open>generate\<close> are arguments: the nonce, and per range the drawn length and the draw of a start below a
  bound. Clock readings are arguments.
\<close>

type_synonym range_draw = "nat \<times> (nat \<Rightarrow> nat)"

text \<open>\<open>gen_range(32..=256)\<close> and \<open>gen_range(0..n)\<close> for a positive \<open>n\<close>.\<close>

definition draw_ok :: "range_draw \<Rightarrow> bool" where
  "draw_ok d \<longleftrightarrow> 32 \<le> fst d \<and> fst d \<le> 256 \<and> (\<forall>n>0. snd d n < n)"

definition challenge_range :: "u32 \<Rightarrow> range_draw \<Rightarrow> u64 \<times> u64" where
  "challenge_range chunk_size d =
     (let range_size = min (fst d) (unat chunk_size);
          max_start = unat chunk_size - range_size;
          start = (if 0 < max_start then of_nat (snd d max_start) else 0) :: u64
      in (start, start + of_nat range_size))"

definition generate_challenge ::
    "primitives \<Rightarrow> u64 \<Rightarrow> bytes \<Rightarrow> range_draw list \<Rightarrow> string \<Rightarrow> u32 \<Rightarrow> u64 \<Rightarrow> storage_challenge" where
  "generate_challenge p now nonce draws chunk_id chunk_size deadline_ms =
     \<lparr>sc_challenge_id = content_id p (chunk_id @ ''|'' @ hex_encode p nonce @ ''|'' @ dec64 now),
      sc_chunk_id = chunk_id, sc_byte_ranges = map (challenge_range chunk_size) draws, sc_nonce = nonce,
      sc_deadline_ms = deadline_ms\<rparr>"

datatype proof_error = Challenge_id_mismatch

definition compute_proof_hash :: "primitives \<Rightarrow> bytes \<Rightarrow> bytes \<Rightarrow> (u64 \<times> u64) list \<Rightarrow> (string, 'e) res" where
  "compute_proof_hash p nonce chunk_data ranges =
     res_bind (read_ranges chunk_data ranges) (\<lambda>b. Ok (content_id p (nonce @ b)))"

definition generate_proof ::
    "primitives \<Rightarrow> u64 \<Rightarrow> bytes \<Rightarrow> storage_challenge \<Rightarrow> string \<Rightarrow> (storage_proof, 'e) res" where
  "generate_proof p now chunk_data challenge prover_address =
     res_bind (compute_proof_hash p (sc_nonce challenge) chunk_data (sc_byte_ranges challenge)) (\<lambda>h.
       Ok \<lparr>sp_challenge_id = sc_challenge_id challenge, sp_chunk_id = sc_chunk_id challenge, sp_proof_hash = h,
           sp_prover = prover_address, sp_timestamp = now\<rparr>)"

definition verify_proof ::
    "primitives \<Rightarrow> u64 \<Rightarrow> bytes \<Rightarrow> storage_challenge \<Rightarrow> storage_proof \<Rightarrow> (bool, proof_error) res" where
  "verify_proof p now chunk_data challenge proof_rec =
     (if sp_challenge_id proof_rec \<noteq> sc_challenge_id challenge then Err Challenge_id_mismatch
      else if sc_deadline_ms challenge < now then Ok False
      else res_bind (compute_proof_hash p (sc_nonce challenge) chunk_data (sc_byte_ranges challenge)) (\<lambda>expected.
             Ok (sp_proof_hash proof_rec = expected)))"

section \<open>Ranges\<close>

definition range_within :: "nat \<Rightarrow> u64 \<times> u64 \<Rightarrow> bool" where
  "range_within n r \<longleftrightarrow> unat (fst r) \<le> unat (snd r) \<and> unat (snd r) \<le> n"

lemma challenge_range_bounds:
  assumes "draw_ok d"
  shows "range_within (unat n) (challenge_range n d)"
    and "unat (snd (challenge_range n d)) - unat (fst (challenge_range n d)) = min (fst d) (unat n)"
proof -
  let ?size = "min (fst d) (unat n)"
  let ?max = "unat n - ?size"
  define st where "st = (if 0 < ?max then snd d ?max else 0)"
  have n: "unat n < 2 ^ 32" using unsigned_less [of n, where ?'a = nat] by simp
  have le: "st + ?size \<le> unat n"
    using assms by (auto simp: st_def draw_ok_def min_def dest!: spec [of _ ?max])
  have eq: "challenge_range n d = (of_nat st, of_nat st + of_nat ?size)"
    by (simp add: challenge_range_def Let_def st_def)
  have ends: "unat (of_nat st :: u64) = st" "unat (of_nat st + of_nat ?size :: u64) = st + ?size"
    using le n by (simp_all add: unat_of_nat_u64 flip: of_nat_add)
  show "range_within (unat n) (challenge_range n d)" "unat (snd (challenge_range n d)) - unat (fst (challenge_range n d)) = ?size"
    using le by (simp_all add: eq ends range_within_def)
qed

text \<open>The bytes a list of in-range ranges selects, as a specification.\<close>

definition selected_bytes :: "bytes \<Rightarrow> (u64 \<times> u64) list \<Rightarrow> bytes" where
  "selected_bytes data rs = concat (map (\<lambda>r. take (unat (snd r) - unat (fst r)) (drop (unat (fst r)) data)) rs)"

lemma range_bytes_within:
  "range_within (length data) r \<Longrightarrow>
     range_bytes data r = Ok (take (unat (snd r) - unat (fst r)) (drop (unat (fst r)) data))"
  by (auto simp: range_bytes_def range_within_def Let_def min_def)

lemma read_ranges_within:
  assumes "\<forall>r \<in> set rs. range_within (length data) r"
  shows "read_ranges data rs = Ok (selected_bytes data rs)"
proof -
  have "res_fold (\<lambda>r acc. res_bind (range_bytes data r) (\<lambda>b. Ok (acc @ b))) rs acc = Ok (acc @ selected_bytes data rs)" for acc
    using assms by (induction rs arbitrary: acc) (simp_all add: range_bytes_within selected_bytes_def)
  from this [of "[]"] show ?thesis by (simp add: read_ranges_def)
qed

lemma generate_challenge_ranges:
  "list_all draw_ok draws \<Longrightarrow> r \<in> set (sc_byte_ranges (generate_challenge p now nonce draws i n deadline)) \<Longrightarrow>
     range_within (unat n) r"
  by (auto simp: generate_challenge_def list_all_iff intro: challenge_range_bounds(1))

lemma generated_hash:
  assumes "list_all draw_ok draws" and "unat n = length data"
    and c: "c = generate_challenge p now nonce draws i n deadline"
  shows "compute_proof_hash p (sc_nonce c) data (sc_byte_ranges c)
           = Ok (content_id p (nonce @ selected_bytes data (sc_byte_ranges c)))"
proof -
  have "\<forall>r \<in> set (sc_byte_ranges c). range_within (length data) r"
    using generate_challenge_ranges assms by metis
  then show ?thesis
    by (simp add: compute_proof_hash_def read_ranges_within) (simp add: c generate_challenge_def)
qed

text \<open>
  Honest storage proofs pass: for any chunk and any challenge \<open>generate\<close> can draw for its size, a node holding the
  chunk computes a proof without panicking, and the verifier accepts it at every time up to the deadline, and
  answers false (not an error) after it.
\<close>

lemma honest_proof_accepted:
  assumes "list_all draw_ok draws" and "length data < 2 ^ 32"
    and "c = generate_challenge p t0 nonce draws i (of_nat (length data)) deadline"
  shows "\<exists>r. generate_proof p t1 data c me = (Ok r :: (storage_proof, proof_error) res) \<and> sp_prover r = me
           \<and> verify_proof p t2 data c r = Ok (t2 \<le> deadline)"
proof -
  have n: "unat (of_nat (length data) :: u32) = length data"
    using assms(2) by (simp add: unat_of_nat take_bit_nat_eq_self)
  have "sc_deadline_ms c = deadline" by (simp add: assms(3) generate_challenge_def)
  then show ?thesis
    by (simp add: generate_proof_def verify_proof_def generated_hash [OF assms(1) n assms(3)] linorder_not_less
        split: if_splits) auto
qed

definition sample_draw :: range_draw where "sample_draw = (32, \<lambda>n. 0)"

lemma sample_draw_ok [simp]: "draw_ok sample_draw"
  by (simp add: draw_ok_def sample_draw_def)

lemma honest_proof_accepted_sample:
  "\<exists>r. generate_proof sample_primitives 5 ''abc''
          (generate_challenge sample_primitives 1 ''nonce'' [sample_draw] ''id'' 3 30000) ''AROBI1'' = (Ok r :: (storage_proof, proof_error) res)
     \<and> sp_prover r = ''AROBI1''
     \<and> verify_proof sample_primitives 6 ''abc''
          (generate_challenge sample_primitives 1 ''nonce'' [sample_draw] ''id'' 3 30000) r = Ok True"
  using honest_proof_accepted [of "[sample_draw]" "''abc''" _ sample_primitives 1 "''nonce''" "''id''" 30000 5 "''AROBI1''" 6]
  by simp


definition sample_challenge :: storage_challenge where
  "sample_challenge = generate_challenge sample_primitives 1 ''nonce'' [sample_draw] ''id'' 33 30000"


text \<open>
  A challenge is not checked before it is answered: a range that starts inside the chunk and ends before it
  starts makes the proof computation panic (\<open>&chunk_data[start..end]\<close>), whatever the other fields are.
\<close>

lemma reversed_range_panics:
  assumes "unat (fst r) < length data" and "unat (snd r) < unat (fst r)"
    and "sc_byte_ranges c = r # rs"
  shows "generate_proof p now data c me = (Panic :: (storage_proof, proof_error) res)"
  using assms
  by (simp add: generate_proof_def compute_proof_hash_def read_ranges_def range_bytes_def Let_def min_def)

lemma reversed_range_panics_sample:
  "generate_proof sample_primitives 5 ''abc'' (sample_challenge\<lparr>sc_byte_ranges := [(2, 1)]\<rparr>) ''AROBI1''
     = (Panic :: (storage_proof, proof_error) res)"
  by (rule reversed_range_panics [where r = "(2, 1)" and rs = "[]"]) simp_all

end
