(* ===== verification/Dht.thy ===== *)
theory Dht
  imports ArobiFs
begin

text \<open>
  \<^verbatim>\<open>src/src/fs/dht.rs\<close>: the routing table of 256 buckets of at most twenty peers, indexed by the number of leading
  zero bits of the XOR distance to this node, and the bounded table of chunk location records. The record table
  is a hash map: the order in which eviction scans it is the argument \<open>order\<close>. Clock readings are arguments.
\<close>

unbundle bit_operations_syntax

record dht_peer =
  dp_node_id :: bytes
  dp_arobi_address :: string
  dp_p2p_addr :: string
  dp_storage_capacity :: u64
  dp_stored_chunks :: u64
  dp_last_seen :: u64

record dht_record =
  dr_chunk_id :: string
  dr_holders :: "dht_peer list"
  dr_last_verified :: u64

record dht_table =
  dt_local_id :: bytes
  dt_local_address :: string
  dt_buckets :: "dht_peer list list"
  dt_records :: "(string, dht_record) tree"

definition K_BUCKET_SIZE :: nat where "K_BUCKET_SIZE = 20"
definition NUM_BUCKETS :: nat where "NUM_BUCKETS = 256"
definition MAX_DHT_RECORDS :: nat where "MAX_DHT_RECORDS = 100000"
definition REPLICATION_FACTOR :: nat where "REPLICATION_FACTOR = 3"

definition node_id_from_address :: "primitives \<Rightarrow> string \<Rightarrow> bytes" where
  "node_id_from_address p address = blake3 p address"

definition chunk_id_to_node_id :: "primitives \<Rightarrow> string \<Rightarrow> bytes" where
  "chunk_id_to_node_id p chunk_id = blake3 p chunk_id"

definition xor_distance :: "bytes \<Rightarrow> bytes \<Rightarrow> u8 list" where
  "xor_distance a b = map2 (\<lambda>x y. of_char x XOR of_char y) a b"

definition byte_leading_zeros :: "u8 \<Rightarrow> nat" where
  "byte_leading_zeros w = length (takeWhile (\<lambda>i. \<not> bit w i) [7, 6, 5, 4, 3, 2, 1, 0])"

fun leading_zeros :: "u8 list \<Rightarrow> nat" where
  "leading_zeros [] = 0"
| "leading_zeros (b # bs) = (if b = 0 then 8 + leading_zeros bs else byte_leading_zeros b)"

definition xor_distance_leading_zeros :: "bytes \<Rightarrow> bytes \<Rightarrow> nat" where
  "xor_distance_leading_zeros a b = leading_zeros (xor_distance a b)"

definition dht_new :: "primitives \<Rightarrow> string \<Rightarrow> dht_table" where
  "dht_new p address =
     \<lparr>dt_local_id = node_id_from_address p address, dt_local_address = address,
      dt_buckets = replicate NUM_BUCKETS [], dt_records = []\<rparr>"

definition refresh_peer :: "dht_peer \<Rightarrow> dht_peer \<Rightarrow> dht_peer" where
  "refresh_peer peer existing =
     existing\<lparr>dp_last_seen := dp_last_seen peer, dp_storage_capacity := dp_storage_capacity peer,
       dp_stored_chunks := dp_stored_chunks peer, dp_p2p_addr := dp_p2p_addr peer\<rparr>"

definition bucket_add :: "dht_peer \<Rightarrow> dht_peer list \<Rightarrow> dht_peer list" where
  "bucket_add peer bucket =
     (if find (\<lambda>q. dp_node_id q = dp_node_id peer) bucket \<noteq> None
      then update_first (\<lambda>q. dp_node_id q = dp_node_id peer) (refresh_peer peer) bucket
      else if length bucket < K_BUCKET_SIZE then bucket @ [peer]
      else case min_by_key (dp_last_seen \<circ> snd) (enumerate 0 bucket) of
             None \<Rightarrow> bucket
           | Some (idx, oldest) \<Rightarrow> if dp_last_seen oldest < dp_last_seen peer then bucket[idx := peer] else bucket)"

definition add_peer :: "dht_peer \<Rightarrow> dht_table \<Rightarrow> dht_table" where
  "add_peer peer t =
     (let bucket_idx = xor_distance_leading_zeros (dt_local_id t) (dp_node_id peer) in
      if NUM_BUCKETS \<le> bucket_idx then t
      else t\<lparr>dt_buckets := (dt_buckets t)[bucket_idx := bucket_add peer (dt_buckets t ! bucket_idx)]\<rparr>)"

definition remove_peer :: "bytes \<Rightarrow> dht_table \<Rightarrow> dht_table" where
  "remove_peer node_id t =
     (let bucket_idx = xor_distance_leading_zeros (dt_local_id t) node_id in
      if NUM_BUCKETS \<le> bucket_idx then t
      else t\<lparr>dt_buckets := (dt_buckets t)[bucket_idx :=
             filter (\<lambda>q. dp_node_id q \<noteq> node_id) (dt_buckets t ! bucket_idx)]\<rparr>)"

definition all_peers :: "dht_table \<Rightarrow> dht_peer list" where
  "all_peers t = concat (dt_buckets t)"

definition peer_count :: "dht_table \<Rightarrow> nat" where
  "peer_count t = sum_list (map length (dt_buckets t))"

text \<open>A stable sort by \<open>Reverse\<close> of the number of shared leading bits.\<close>

definition find_closest :: "bytes \<Rightarrow> nat \<Rightarrow> dht_table \<Rightarrow> dht_peer list" where
  "find_closest target n t =
     map snd (take n (sort_key (\<lambda>x. - int (fst x))
       (map (\<lambda>q. (xor_distance_leading_zeros (dp_node_id q) target, q)) (all_peers t))))"

definition find_chunk_holders_candidates :: "primitives \<Rightarrow> string \<Rightarrow> dht_table \<Rightarrow> dht_peer list" where
  "find_chunk_holders_candidates p chunk_id t = find_closest (chunk_id_to_node_id p chunk_id) REPLICATION_FACTOR t"

definition evict_oldest ::
    "((string \<times> dht_record) list \<Rightarrow> (string \<times> dht_record) list) \<Rightarrow> string \<Rightarrow> (string, dht_record) tree \<Rightarrow> (string, dht_record) tree" where
  "evict_oldest order chunk_id records =
     (if MAX_DHT_RECORDS \<le> length records \<and> tree_get records chunk_id = None
      then case min_by_key (dr_last_verified \<circ> snd) (order records) of
             None \<Rightarrow> records
           | Some (oldest_key, _) \<Rightarrow> tree_remove oldest_key records
      else records)"

definition add_holder :: "dht_peer \<Rightarrow> dht_peer list \<Rightarrow> dht_peer list" where
  "add_holder holder hs =
     (if find (\<lambda>h. dp_node_id h = dp_node_id holder) hs \<noteq> None
      then update_first (\<lambda>h. dp_node_id h = dp_node_id holder) (\<lambda>h. h\<lparr>dp_last_seen := dp_last_seen holder\<rparr>) hs
      else hs @ [holder])"

definition announce_chunk ::
    "((string \<times> dht_record) list \<Rightarrow> (string \<times> dht_record) list) \<Rightarrow> u64 \<Rightarrow> string \<Rightarrow> dht_peer \<Rightarrow> dht_table \<Rightarrow> dht_table" where
  "announce_chunk order now chunk_id holder t =
     (let records = evict_oldest order chunk_id (dt_records t);
          entry = (case tree_get records chunk_id of
                     Some r \<Rightarrow> r
                   | None \<Rightarrow> \<lparr>dr_chunk_id = chunk_id, dr_holders = [], dr_last_verified = now\<rparr>)
      in t\<lparr>dt_records := tree_insert chunk_id
            (entry\<lparr>dr_holders := add_holder holder (dr_holders entry), dr_last_verified := now\<rparr>) records\<rparr>)"

definition find_chunk_holders :: "string \<Rightarrow> dht_table \<Rightarrow> dht_record option" where
  "find_chunk_holders chunk_id t = tree_get (dt_records t) chunk_id"

definition evict_stale_holders :: "u64 \<Rightarrow> u64 \<Rightarrow> dht_table \<Rightarrow> dht_table" where
  "evict_stale_holders now max_age_ms t =
     (let cutoff = saturating_sub now max_age_ms;
          pruned = map (\<lambda>(k, r). (k, r\<lparr>dr_holders := filter (\<lambda>h. cutoff \<le> dp_last_seen h) (dr_holders r)\<rparr>)) (dt_records t)
      in t\<lparr>dt_records := filter (\<lambda>(k, r). dr_holders r \<noteq> []) pruned\<rparr>)"

definition record_count :: "dht_table \<Rightarrow> nat" where
  "record_count t = length (dt_records t)"

definition local_peer :: "u64 \<Rightarrow> dht_table \<Rightarrow> string \<Rightarrow> u64 \<Rightarrow> u64 \<Rightarrow> dht_peer" where
  "local_peer now t p2p_addr storage_capacity stored_chunks =
     \<lparr>dp_node_id = dt_local_id t, dp_arobi_address = dt_local_address t, dp_p2p_addr = p2p_addr,
      dp_storage_capacity = storage_capacity, dp_stored_chunks = stored_chunks, dp_last_seen = now\<rparr>"

section \<open>Well-formed tables\<close>

definition bucket_ok :: "bytes \<Rightarrow> nat \<Rightarrow> dht_peer list \<Rightarrow> bool" where
  "bucket_ok lid i b \<longleftrightarrow> length b \<le> K_BUCKET_SIZE \<and> distinct (map dp_node_id b)
     \<and> list_all (\<lambda>d. length d = 32 \<and> xor_distance_leading_zeros lid d = i) (map dp_node_id b)"

definition record_ok :: "string \<Rightarrow> dht_record \<Rightarrow> bool" where
  "record_ok k r \<longleftrightarrow> dr_chunk_id r = k \<and> dr_holders r \<noteq> [] \<and> distinct (map dp_node_id (dr_holders r))"

definition dht_wf :: "dht_table \<Rightarrow> bool" where
  "dht_wf t \<longleftrightarrow> length (dt_local_id t) = 32 \<and> length (dt_buckets t) = NUM_BUCKETS
     \<and> (\<forall>i < NUM_BUCKETS. bucket_ok (dt_local_id t) i (dt_buckets t ! i))
     \<and> tree_wf (dt_records t) \<and> length (dt_records t) \<le> MAX_DHT_RECORDS
     \<and> (\<forall>(k, r) \<in> set (dt_records t). record_ok k r)"

lemma find_id_None:
  "find (\<lambda>q. dp_node_id q = i) b = None \<longleftrightarrow> i \<notin> dp_node_id ` set b"
  by (auto simp: find_None_iff)

lemma bucket_ok_add:
  assumes "bucket_ok lid i b" and "length (dp_node_id peer) = 32"
    and "xor_distance_leading_zeros lid (dp_node_id peer) = i"
  shows "bucket_ok lid i (bucket_add peer b)"
proof (cases "find (\<lambda>q. dp_node_id q = dp_node_id peer) b = None")
  case False
  have "map dp_node_id (update_first (\<lambda>q. dp_node_id q = dp_node_id peer) (refresh_peer peer) b) = map dp_node_id b"
    by (rule map_update_first) (simp add: refresh_peer_def)
  with assms(1) False show ?thesis by (simp add: bucket_ok_def bucket_add_def)
next
  case True
  then have new: "dp_node_id peer \<notin> dp_node_id ` set b" by (simp add: find_id_None)
  have upd: "bucket_ok lid i (b[idx := peer])" for idx
  proof -
    have "distinct (map dp_node_id (b[idx := peer]))"
      using assms(1) new by (auto simp: bucket_ok_def map_update distinct_list_update)
    with assms set_update_subset_insert [of b idx peer] show ?thesis
      by (auto simp: bucket_ok_def list_all_iff simp del: list.set_map)
  qed
  show ?thesis
    using assms True new upd by (auto simp: bucket_add_def bucket_ok_def split: option.splits)
qed

lemma dht_wf_set_bucket:
  assumes "dht_wf t" and "bucket_ok (dt_local_id t) i b"
  shows "dht_wf (t\<lparr>dt_buckets := (dt_buckets t)[i := b]\<rparr>)"
  using assms by (cases "i < length (dt_buckets t)") (auto simp: dht_wf_def nth_list_update list_update_beyond)

lemma dht_wf_bucket: "dht_wf t \<Longrightarrow> i < NUM_BUCKETS \<Longrightarrow> bucket_ok (dt_local_id t) i (dt_buckets t ! i)"
  by (simp add: dht_wf_def)

lemma add_peer_wf: "dht_wf t \<Longrightarrow> length (dp_node_id peer) = 32 \<Longrightarrow> dht_wf (add_peer peer t)"
  unfolding add_peer_def Let_def
  by (auto intro!: dht_wf_set_bucket bucket_ok_add dht_wf_bucket simp: not_le)

lemma bucket_ok_filter: "bucket_ok lid i b \<Longrightarrow> bucket_ok lid i (filter P b)"
  by (auto simp: bucket_ok_def list_all_iff distinct_map_filter intro: order_trans [OF length_filter_le])

lemma remove_peer_wf: "dht_wf t \<Longrightarrow> dht_wf (remove_peer i t)"
  unfolding remove_peer_def Let_def
  by (auto intro!: dht_wf_set_bucket bucket_ok_filter dht_wf_bucket simp: not_le)

lemma distinct_add_holder: "distinct (map dp_node_id hs) \<Longrightarrow> distinct (map dp_node_id (add_holder h hs))"
  by (auto simp: add_holder_def map_update_first find_id_None)

lemma add_holder_nonempty: "add_holder h hs \<noteq> []"
  by (cases hs) (auto simp: add_holder_def)

lemma add_holder_mem: "\<exists>h' \<in> set (add_holder h hs). dp_node_id h' = dp_node_id h \<and> dp_last_seen h' = dp_last_seen h"
proof (cases "find (\<lambda>q. dp_node_id q = dp_node_id h) hs = None")
  case False
  then have "\<exists>x \<in> set hs. dp_node_id x = dp_node_id h" by (auto simp: find_id_None)
  from update_first_hit [OF this, of "\<lambda>h'. h'\<lparr>dp_last_seen := dp_last_seen h\<rparr>"]
  obtain x where "dp_node_id x = dp_node_id h" "x\<lparr>dp_last_seen := dp_last_seen h\<rparr> \<in> set (add_holder h hs)"
    using False by (auto simp: add_holder_def)
  then show ?thesis by (intro bexI [of _ "x\<lparr>dp_last_seen := dp_last_seen h\<rparr>"]) simp_all
qed (auto simp: add_holder_def)

lemma evict_oldest_props:
  assumes "tree_wf rs" "length rs \<le> MAX_DHT_RECORDS" and "iteration_order order"
  shows "tree_wf (evict_oldest order k rs)" "set (evict_oldest order k rs) \<subseteq> set rs"
    and "length (evict_oldest order k rs) < MAX_DHT_RECORDS \<or> k \<in> tree_keys (evict_oldest order k rs)
           \<and> length (evict_oldest order k rs) \<le> MAX_DHT_RECORDS"
proof -
  show "tree_wf (evict_oldest order k rs)" "set (evict_oldest order k rs) \<subseteq> set rs"
    using assms(1) by (auto simp: evict_oldest_def tree_remove_def split: option.splits)
  show "length (evict_oldest order k rs) < MAX_DHT_RECORDS \<or> k \<in> tree_keys (evict_oldest order k rs)
           \<and> length (evict_oldest order k rs) \<le> MAX_DHT_RECORDS"
  proof (cases "MAX_DHT_RECORDS \<le> length rs \<and> tree_get rs k = None")
    case True
    then have "order rs \<noteq> []"
      using iteration_order_set [OF assms(3), of rs] by (auto simp: MAX_DHT_RECORDS_def)
    then obtain k' r' where m: "min_by_key (dr_last_verified \<circ> snd) (order rs) = Some (k', r')"
      by (metis min_by_key_None option.exhaust surj_pair)
    then have "(k', r') \<in> set rs"
      using iteration_order_set [OF assms(3), of rs] by (auto dest: min_by_key_Some)
    then have "k' \<in> tree_keys rs" by (force simp: tree_keys_def)
    then have "0 < card (tree_keys rs)" by (auto simp: card_gt_0_iff)
    with assms(1) have "length (tree_remove k' rs) < length rs"
      using \<open>k' \<in> tree_keys rs\<close> by (simp add: length_tree tree_wf_remove tree_keys_remove)
    with True m assms(2) show ?thesis by (simp add: evict_oldest_def)
  next
    case False
    with assms(2) show ?thesis
      by (auto simp: evict_oldest_def tree_get_None_iff)
  qed
qed

lemma announce_chunk_wf:
  assumes "dht_wf t" and "iteration_order order"
  shows "dht_wf (announce_chunk order now k h t)"
proof -
  define rs where "rs = evict_oldest order k (dt_records t)"
  note ev = evict_oldest_props [of "dt_records t" order k, folded rs_def]
  have wf: "tree_wf rs" "\<forall>(k, r) \<in> set rs. record_ok k r"
    and len: "length rs < MAX_DHT_RECORDS \<or> k \<in> tree_keys rs \<and> length rs \<le> MAX_DHT_RECORDS"
    using assms ev by (auto simp: dht_wf_def)
  define e where "e = (case tree_get rs k of Some r \<Rightarrow> r
      | None \<Rightarrow> \<lparr>dr_chunk_id = k, dr_holders = [], dr_last_verified = now\<rparr>)"
  let ?e = "e\<lparr>dr_holders := add_holder h (dr_holders e), dr_last_verified := now\<rparr>"
  have "record_ok k ?e"
    using wf(2) by (auto simp: e_def record_ok_def add_holder_nonempty distinct_add_holder
        dest!: tree_get_SomeD split: option.splits)
  moreover have "length (tree_insert k ?e rs) \<le> MAX_DHT_RECORDS"
    using len length_tree_insert_le [of k ?e rs] length_tree_insert [OF wf(1), of k ?e] by auto
  ultimately have "tree_wf (tree_insert k ?e rs) \<and> length (tree_insert k ?e rs) \<le> MAX_DHT_RECORDS
      \<and> (\<forall>(k, r) \<in> set (tree_insert k ?e rs). record_ok k r)"
    using wf set_tree_insert_subset [of k ?e rs] by auto
  then show ?thesis
    using assms(1) by (simp add: announce_chunk_def Let_def dht_wf_def rs_def e_def)
qed

lemma evict_stale_wf:
  assumes "dht_wf t" shows "dht_wf (evict_stale_holders now age t)"
proof -
  let ?f = "\<lambda>(k, r). (k, r\<lparr>dr_holders := filter (\<lambda>h. saturating_sub now age \<le> dp_last_seen h) (dr_holders r)\<rparr>)"
  have "map fst (map ?f rs) = map fst rs" for rs by (simp add: split_def o_def)
  then have "tree_wf (map ?f (dt_records t))" using assms unfolding dht_wf_def tree_wf_def by metis
  then have "tree_wf (dt_records (evict_stale_holders now age t))"
    by (auto simp: evict_stale_holders_def Let_def)
  moreover have "length (dt_records (evict_stale_holders now age t)) \<le> MAX_DHT_RECORDS"
    using assms by (auto simp: evict_stale_holders_def Let_def dht_wf_def intro: order_trans [OF length_filter_le])
  moreover have "\<forall>(k, r) \<in> set (dt_records (evict_stale_holders now age t)). record_ok k r"
    using assms by (fastforce simp: evict_stale_holders_def Let_def dht_wf_def record_ok_def distinct_map_filter)
  ultimately show ?thesis
    using assms by (simp add: dht_wf_def evict_stale_holders_def Let_def)
qed

text \<open>The states a table reaches: nodes pass peers with 32-byte ids (the field is a \<open>[u8; 32]\<close>).\<close>

inductive dht_reach :: "primitives \<Rightarrow> string \<Rightarrow> dht_table \<Rightarrow> bool" for p :: primitives and address :: string where
  new: "dht_reach p address (dht_new p address)"
| add: "dht_reach p address t \<Longrightarrow> length (dp_node_id peer) = 32 \<Longrightarrow> dht_reach p address (add_peer peer t)"
| remove: "dht_reach p address t \<Longrightarrow> dht_reach p address (remove_peer i t)"
| announce: "dht_reach p address t \<Longrightarrow> iteration_order order \<Longrightarrow>
    dht_reach p address (announce_chunk order now k h t)"
| evict: "dht_reach p address t \<Longrightarrow> dht_reach p address (evict_stale_holders now age t)"

lemma dht_new_wf: "blake3_size p \<Longrightarrow> dht_wf (dht_new p address)"
  by (simp add: dht_wf_def dht_new_def bucket_ok_def node_id_from_address_def blake3_size_def)

lemma dht_reach_wf: "dht_reach p address t \<Longrightarrow> blake3_size p \<Longrightarrow> dht_wf t"
  by (induction rule: dht_reach.induct)
    (auto intro: dht_new_wf add_peer_wf remove_peer_wf announce_chunk_wf evict_stale_wf)

section \<open>Distances\<close>

lemma byte_leading_zeros_less: "b \<noteq> 0 \<Longrightarrow> byte_leading_zeros b < 8"
proof -
  assume "b \<noteq> 0"
  then obtain i where "bit b i" by (auto simp: bit_eq_iff)
  moreover from this have "i < 8" using bit_imp_le_length [of b i] by simp
  ultimately have "\<exists>i \<in> set [7, 6, 5, 4, 3, 2, 1, 0]. bit b i"
    by (auto simp: less_Suc_eq numeral_eq_Suc)
  then show ?thesis
    unfolding byte_leading_zeros_def by (auto split: if_splits)
qed

lemma leading_zeros_le: "leading_zeros bs \<le> 8 * length bs"
  by (induction bs) (auto dest: byte_leading_zeros_less)

lemma leading_zeros_max: "leading_zeros bs = 8 * length bs \<longleftrightarrow> (\<forall>b \<in> set bs. b = 0)"
proof (induction bs)
  case (Cons b bs)
  then show ?case using byte_leading_zeros_less [of b] by (cases "b = 0") auto
qed simp

lemma xor_byte_zero: "(of_char x :: u8) XOR of_char y = 0 \<longleftrightarrow> x = y"
proof -
  have bytes: "(of_char c :: u8) = of_nat (of_char c)" "(of_char c :: nat) < 256" for c
    by (simp_all add: of_nat_of_char nat_of_char_less_256)
  have "(of_char x :: u8) XOR of_char y = 0 \<longleftrightarrow> (of_char x :: u8) = of_char y"
    by (auto simp: bit_eq_iff bit_xor_iff)
  also have "\<dots> \<longleftrightarrow> (of_char x :: nat) = of_char y"
    using bytes(2) [of x] bytes(2) [of y] by (simp add: bytes(1) word_of_nat_eq_iff take_bit_nat_eq_self)
  finally show ?thesis by simp
qed

lemma xor_lz_max:
  "length a = 32 \<Longrightarrow> length b = 32 \<Longrightarrow> xor_distance_leading_zeros a b = 256 \<longleftrightarrow> a = b"
  unfolding xor_distance_leading_zeros_def
  using leading_zeros_max [of "xor_distance a b"]
  by (auto simp: xor_distance_def xor_byte_zero set_zip list_eq_iff_nth_eq)

lemma xor_lz_le: "length a = 32 \<Longrightarrow> xor_distance_leading_zeros a b \<le> 256"
  unfolding xor_distance_leading_zeros_def
  using leading_zeros_le [of "xor_distance a b"] by (simp add: xor_distance_def)

lemma in_all_peers:
  assumes "dht_wf t"
  shows "q \<in> set (all_peers t) \<longleftrightarrow> (\<exists>i < NUM_BUCKETS. q \<in> set (dt_buckets t ! i))"
proof -
  have "set (dt_buckets t) = (!) (dt_buckets t) ` {..<NUM_BUCKETS}"
    using assms by (auto simp: dht_wf_def set_conv_nth)
  then show ?thesis by (auto simp: all_peers_def)
qed

lemma peer_bucket:
  assumes "dht_wf t" "i < NUM_BUCKETS" "q \<in> set (dt_buckets t ! i)"
  shows "length (dp_node_id q) = 32" "xor_distance_leading_zeros (dt_local_id t) (dp_node_id q) = i"
  using dht_wf_bucket [OF assms(1,2)] assms(3) by (auto simp: bucket_ok_def list_all_iff)

lemma peers_by_id:
  assumes wf: "dht_wf t" and "q \<in> set (all_peers t)" "r \<in> set (all_peers t)" "dp_node_id q = dp_node_id r"
  shows "q = r"
proof -
  obtain i j where i: "i < NUM_BUCKETS" "q \<in> set (dt_buckets t ! i)" and j: "j < NUM_BUCKETS" "r \<in> set (dt_buckets t ! j)"
    using assms by (auto simp: in_all_peers)
  have "i = j" using peer_bucket(2) [OF wf i] peer_bucket(2) [OF wf j] assms(4) by simp
  with dht_wf_bucket [OF wf i(1)] i(2) j(2) assms(4) show ?thesis
    by (auto simp: bucket_ok_def distinct_map dest: inj_onD)
qed

lemma sort_key_hd_least:
  assumes "x \<in> set xs"
  shows "sort_key k xs \<noteq> [] \<and> hd (sort_key k xs) \<in> set xs \<and> k (hd (sort_key k xs)) \<le> k x"
proof -
  obtain y ys where y: "sort_key k xs = y # ys"
    using assms by (cases "sort_key k xs") (metis empty_iff list.set(1) set_sort, blast)
  have "sorted (map k (y # ys))" using sorted_sort_key [of k xs] by (simp only: y)
  moreover have "set (y # ys) = set xs" by (simp only: set_sort flip: y)
  ultimately show ?thesis using assms by (auto simp: y)
qed

lemma find_closest_self:
  assumes wf: "dht_wf t" and q: "q \<in> set (all_peers t)"
  shows "find_closest (dp_node_id q) 1 t = [q]"
proof -
  let ?xs = "map (\<lambda>r. (xor_distance_leading_zeros (dp_node_id r) (dp_node_id q), r)) (all_peers t)"
  have len: "length (dp_node_id r) = 32" if "r \<in> set (all_peers t)" for r
    using that peer_bucket(1) [OF wf] by (auto simp: in_all_peers [OF wf])
  from q len have "(256, q) \<in> set ?xs" by (force simp: xor_lz_max)
  from sort_key_hd_least [OF this, of "\<lambda>x. - int (fst x)"]
  obtain r ys where ys: "sort_key (\<lambda>x. - int (fst x)) ?xs
      = (xor_distance_leading_zeros (dp_node_id r) (dp_node_id q), r) # ys"
    and r: "r \<in> set (all_peers t)" and "256 \<le> xor_distance_leading_zeros (dp_node_id r) (dp_node_id q)"
    by (cases "sort_key (\<lambda>x. - int (fst x)) ?xs") auto
  then have "dp_node_id r = dp_node_id q"
    using len [OF r] len [OF q] xor_lz_le [of "dp_node_id r" "dp_node_id q"] xor_lz_max by force
  with peers_by_id [OF wf r q] ys show ?thesis by (simp add: find_closest_def)
qed

lemma set_concat_snoc_at: "i < length xss \<Longrightarrow> set (concat (xss[i := xss ! i @ [x]])) = insert x (set (concat xss))"
proof (induction xss arbitrary: i)
  case (Cons xs xss)
  then show ?case by (cases i) auto
qed simp

lemma bucket_add_new:
  assumes "dp_node_id peer \<notin> dp_node_id ` set b" and "length b < K_BUCKET_SIZE"
  shows "bucket_add peer b = b @ [peer]"
  using assms by (simp add: bucket_add_def find_id_None)

text \<open>
  C17. Every routing table a node can reach is well formed: it has 256 buckets of at most twenty peers with distinct ids,
  each in the bucket of its distance (so this node itself is never listed), and at most 100000 location records,
  each under its own chunk id with a non-empty list of distinct holders; this whatever the order in which the
  hash map is scanned when a record has to be evicted.
\<close>

theorem dht_reachable_wf:
  assumes "dht_reach p address t" and "blake3_size p"
  shows "dht_wf t \<and> dt_local_id t \<notin> dp_node_id ` set (all_peers t)"
proof -
  have wf: "dht_wf t" using dht_reach_wf [OF assms] .
  then have "xor_distance_leading_zeros (dt_local_id t) (dt_local_id t) = NUM_BUCKETS"
    by (simp add: dht_wf_def xor_lz_max NUM_BUCKETS_def)
  then show ?thesis
    using wf peer_bucket(2) [OF wf] by (fastforce simp: in_all_peers [OF wf])
qed

definition sample_peer :: dht_peer where
  "sample_peer = \<lparr>dp_node_id = replicate 32 (CHR ''z''), dp_arobi_address = ''AROBIz'', dp_p2p_addr = ''1.2.3.4:30303'',
     dp_storage_capacity = 1000, dp_stored_chunks = 0, dp_last_seen = 5\<rparr>"

lemma sample_dht_reach:
  "dht_reach sample_primitives ''AROBI1'' (add_peer sample_peer (dht_new sample_primitives ''AROBI1''))"
  by (intro dht_reach.intros) (simp add: sample_peer_def)

theorem dht_reachable_wf_witness:
  "dht_wf (add_peer sample_peer (dht_new sample_primitives ''AROBI1''))
   \<and> dt_local_id (add_peer sample_peer (dht_new sample_primitives ''AROBI1''))
       \<notin> dp_node_id ` set (all_peers (add_peer sample_peer (dht_new sample_primitives ''AROBI1'')))"
  by (rule dht_reachable_wf [OF sample_dht_reach sample_primitives_ok(4)])

text \<open>
  A peer that joins is found: when its bucket has room and it is not this node, the peer is the answer to a lookup of
  its own id, no other peer is; and every peer already listed stays the answer to a lookup of its id.
\<close>

lemma added_peer_found:
  assumes "dht_reach p address t" and "blake3_size p"
    and "length (dp_node_id peer) = 32" "dp_node_id peer \<noteq> dt_local_id t"
    and "dp_node_id peer \<notin> dp_node_id ` set (all_peers t)"
    and "length (dt_buckets t ! xor_distance_leading_zeros (dt_local_id t) (dp_node_id peer)) < K_BUCKET_SIZE"
  shows "find_closest (dp_node_id peer) 1 (add_peer peer t) = [peer]
     \<and> (\<forall>q. q \<in> set (all_peers t) \<longrightarrow> find_closest (dp_node_id q) 1 (add_peer peer t) = [q])"
proof -
  let ?i = "xor_distance_leading_zeros (dt_local_id t) (dp_node_id peer)"
  let ?t = "add_peer peer t"
  have wf: "dht_wf t" and wf': "dht_wf ?t"
    using dht_reach_wf [OF assms(1,2)] add_peer_wf assms(3) by blast+
  have "length (dt_local_id t) = 32" using wf by (simp add: dht_wf_def)
  then have i: "?i < NUM_BUCKETS"
    using assms(3,4) xor_lz_le xor_lz_max by (metis NUM_BUCKETS_def le_neq_implies_less)
  have "set (dt_buckets t ! ?i) \<subseteq> set (all_peers t)"
    using i by (auto simp: in_all_peers [OF wf])
  with assms(5) have "dp_node_id peer \<notin> dp_node_id ` set (dt_buckets t ! ?i)" by blast
  then have b: "bucket_add peer (dt_buckets t ! ?i) = dt_buckets t ! ?i @ [peer]"
    using assms(6) by (intro bucket_add_new)
  have "set (all_peers ?t) = insert peer (set (all_peers t))"
    using i wf set_concat_snoc_at [of ?i "dt_buckets t" peer] by (simp add: all_peers_def add_peer_def Let_def b dht_wf_def)
  with find_closest_self [OF wf'] show ?thesis by auto
qed

lemma added_peer_found_sample:
  "find_closest (replicate 32 (CHR ''z'')) 1 (add_peer sample_peer (dht_new sample_primitives ''AROBI1'')) = [sample_peer]"
proof -
  let ?t = "dht_new sample_primitives ''AROBI1''"
  have ids: "hd (dt_local_id ?t) = CHR ''A''" "hd (dp_node_id sample_peer) = CHR ''z''"
    by (simp_all add: dht_new_def sample_peer_def node_id_from_address_def sample_primitives_def sample_digest_def)
  then have ne: "dp_node_id sample_peer \<noteq> dt_local_id ?t" by auto
  have len: "length (dt_local_id ?t) = 32" "length (dp_node_id sample_peer) = 32"
    by (simp_all add: dht_new_def sample_peer_def node_id_from_address_def sample_primitives_def sample_digest_def)
  have "xor_distance_leading_zeros (dt_local_id ?t) (dp_node_id sample_peer) < NUM_BUCKETS"
    using xor_lz_le [OF len(1), of "dp_node_id sample_peer"] xor_lz_max [OF len] ne by (auto simp: NUM_BUCKETS_def)
  then have "length (dt_buckets ?t ! xor_distance_leading_zeros (dt_local_id ?t) (dp_node_id sample_peer)) < K_BUCKET_SIZE"
    by (simp add: dht_new_def K_BUCKET_SIZE_def)
  moreover have "all_peers ?t = []" by (simp add: all_peers_def dht_new_def)
  ultimately have "find_closest (dp_node_id sample_peer) 1 (add_peer sample_peer ?t) = [sample_peer]"
    using added_peer_found [OF dht_reach.new sample_primitives_ok(4) len(2) ne] by simp
  then show ?thesis by (simp add: sample_peer_def)
qed

end
