(* ===== verification/StorageKeeper.thy ===== *)
theory StorageKeeper
  imports FsProof Dht
begin

text \<open>
  \<^verbatim>\<open>src/src/agents/storage_keeper.rs\<close>: the agent that joins the chunk store, the routing table and the storage
  proofs. Each operation returns the events it broadcasts; the periodic stale-holder eviction is one step.
\<close>

datatype storage_event =
    Chunk_stored string | Chunk_replicated string string | Storage_proof_passed string | Storage_proof_failed string

record storage_keeper_config =
  sk_max_storage_bytes :: u64
  sk_dht_maintenance_secs :: u64
  sk_dht_eviction_secs :: u64
  sk_dht_max_age_ms :: u64

definition storage_keeper_config_default :: storage_keeper_config where
  "storage_keeper_config_default =
     \<lparr>sk_max_storage_bytes = 100 * 1024 * 1024 * 1024, sk_dht_maintenance_secs = 60, sk_dht_eviction_secs = 300,
      sk_dht_max_age_ms = 3600000\<rparr>"

record storage_keeper =
  sk_chunk_store :: chunk_store
  sk_dht :: dht_table
  sk_config :: storage_keeper_config

definition eviction_tick :: "u64 \<Rightarrow> storage_keeper \<Rightarrow> storage_keeper" where
  "eviction_tick now k = k\<lparr>sk_dht := evict_stale_holders now (sk_dht_max_age_ms (sk_config k)) (sk_dht k)\<rparr>"

definition handle_challenge ::
    "primitives \<Rightarrow> u64 \<Rightarrow> storage_challenge \<Rightarrow> string \<Rightarrow> storage_keeper
       \<Rightarrow> (storage_proof option \<times> storage_event list, unit) res" where
  "handle_challenge p now challenge prover_address k =
     (case get_chunk_data (sc_chunk_id challenge) (sk_chunk_store k) of
        None \<Rightarrow> Ok (None, [])
      | Some data \<Rightarrow>
          (case generate_proof p now data challenge prover_address of
             Ok r \<Rightarrow> Ok (Some r, [Storage_proof_passed (sc_challenge_id challenge)])
           | Err (u :: unit) \<Rightarrow> Ok (None, [Storage_proof_failed (sc_challenge_id challenge)])
           | Panic \<Rightarrow> Panic))"

definition store_chunk ::
    "primitives \<Rightarrow> ((string \<times> dht_record) list \<Rightarrow> (string \<times> dht_record) list) \<Rightarrow> u64 \<Rightarrow> u64 \<Rightarrow> chunk_meta \<Rightarrow> bytes \<Rightarrow> string
       \<Rightarrow> storage_keeper \<Rightarrow> (storage_keeper \<times> storage_event list, fs_error) res" where
  "store_chunk p order seen_ms announce_ms meta data local_p2p_addr k =
     res_bind (put_chunk p meta data (sk_chunk_store k)) (\<lambda>s.
       let me = local_peer seen_ms (sk_dht k) local_p2p_addr (sk_max_storage_bytes (sk_config k)) (of_nat (chunk_count s))
       in Ok (k\<lparr>sk_chunk_store := s, sk_dht := announce_chunk order announce_ms (cm_chunk_id meta) me (sk_dht k)\<rparr>,
              [Chunk_stored (cm_chunk_id meta)]))"

text \<open>\<open>pick\<close> is the draw of \<open>gen_range(0..len)\<close>.\<close>

definition generate_random_challenge ::
    "primitives \<Rightarrow> (nat \<Rightarrow> nat) \<Rightarrow> u64 \<Rightarrow> u64 \<Rightarrow> bytes \<Rightarrow> range_draw list \<Rightarrow> storage_keeper \<Rightarrow> storage_challenge option" where
  "generate_random_challenge p pick now issued_ms nonce draws k =
     (let chunk_ids = list_chunk_ids (sk_chunk_store k) in
      if chunk_ids = [] then None
      else let chunk_id = chunk_ids ! pick (length chunk_ids) in
        (case get_chunk_meta chunk_id (sk_chunk_store k) of
           None \<Rightarrow> None
         | Some meta \<Rightarrow> Some (generate_challenge p issued_ms nonce draws chunk_id (cm_size meta) (now + 30000))))"

lemma announced_holder:
  "\<exists>r. find_chunk_holders k (announce_chunk order now k h t) = Some r \<and> dr_last_verified r = now
     \<and> (\<exists>h' \<in> set (dr_holders r). dp_node_id h' = dp_node_id h \<and> dp_last_seen h' = dp_last_seen h)"
  using add_holder_mem by (auto simp: find_chunk_holders_def announce_chunk_def Let_def tree_simps)

text \<open>
  C18. What the storage agent stores can be discovered and proven: when storing a chunk succeeds, the routing table has a
  fresh record for it that lists this node as a holder, and every challenge the protocol can draw for the
  chunk's real size is answered with a proof that any verifier holding the chunk accepts until the deadline. The hash
  map's scan order and all clock readings are arbitrary.
\<close>

theorem stored_chunk_discoverable_provable:
  assumes "store_chunk p order seen_ms announce_ms meta data addr k = Ok (k', events)"
    and "length data < 2 ^ 32" "list_all draw_ok draws"
    and "c = generate_challenge p t0 nonce draws (cm_chunk_id meta) (of_nat (length data)) deadline"
    and "t2 \<le> deadline"
  shows "(\<exists>r. find_chunk_holders (cm_chunk_id meta) (sk_dht k') = Some r \<and> dr_last_verified r = announce_ms
            \<and> (\<exists>h. h \<in> set (dr_holders r) \<and> dp_node_id h = dt_local_id (sk_dht k) \<and> dp_last_seen h = seen_ms))
     \<and> (\<exists>r. handle_challenge p t1 c me k' = Ok (Some r, [Storage_proof_passed (sc_challenge_id c)])
            \<and> verify_proof p t2 data c r = Ok True)"
proof -
  obtain s where s: "put_chunk p meta data (sk_chunk_store k) = Ok s"
    and st: "sk_chunk_store k' = s"
    and dht: "sk_dht k' = announce_chunk order announce_ms (cm_chunk_id meta)
      (local_peer seen_ms (sk_dht k) addr (sk_max_storage_bytes (sk_config k)) (of_nat (chunk_count s))) (sk_dht k)"
    using assms(1) by (auto simp: store_chunk_def res_simps Let_def)
  have "get_chunk_data (cm_chunk_id meta) s = Some data"
    using s by (auto simp: put_chunk_Ok get_chunk_data_def tree_simps)
  moreover have n: "unat (of_nat (length data) :: u32) = length data"
    using assms(2) by (simp add: unat_of_nat take_bit_nat_eq_self)
  moreover have "sc_chunk_id c = cm_chunk_id meta" "sc_deadline_ms c = deadline"
    by (simp_all add: assms(4) generate_challenge_def)
  ultimately have "\<exists>r. handle_challenge p t1 c me k' = Ok (Some r, [Storage_proof_passed (sc_challenge_id c)])
            \<and> verify_proof p t2 data c r = Ok True"
    using assms(5) generated_hash [OF assms(3) n assms(4)]
    by (simp add: handle_challenge_def st generate_proof_def verify_proof_def generated_hash [OF assms(3) n assms(4)])
  moreover have "\<exists>r. find_chunk_holders (cm_chunk_id meta) (sk_dht k') = Some r \<and> dr_last_verified r = announce_ms
            \<and> (\<exists>h. h \<in> set (dr_holders r) \<and> dp_node_id h = dt_local_id (sk_dht k) \<and> dp_last_seen h = seen_ms)"
    using announced_holder [of "cm_chunk_id meta" order announce_ms
        "local_peer seen_ms (sk_dht k) addr (sk_max_storage_bytes (sk_config k)) (of_nat (chunk_count s))" "sk_dht k"]
    by (auto simp: dht local_peer_def)
  ultimately show ?thesis by blast
qed

definition sample_keeper :: storage_keeper where
  "sample_keeper = \<lparr>sk_chunk_store = empty_store, sk_dht = dht_new sample_primitives ''AROBI1'',
     sk_config = storage_keeper_config_default\<rparr>"

definition sample_meta :: chunk_meta where
  "sample_meta = upload_meta ''f'' 0 (content_id sample_primitives ''abc'', Data, ''abc'')"

theorem stored_chunk_discoverable_provable_witness:
  "\<exists>k' events. store_chunk sample_primitives (\<lambda>xs. xs) 5 6 sample_meta ''abc'' ''1.2.3.4:1'' sample_keeper = Ok (k', events)
     \<and> (\<exists>r. find_chunk_holders (cm_chunk_id sample_meta) (sk_dht k') = Some r \<and> dr_last_verified r = 6)"
proof -
  obtain k' events where run: "store_chunk sample_primitives (\<lambda>xs. xs) 5 6 sample_meta ''abc'' ''1.2.3.4:1'' sample_keeper
      = Ok (k', events)"
    by (simp add: store_chunk_def put_chunk_def sample_meta_def upload_meta_def sample_keeper_def empty_store_def
        chunk_count_def MAX_LOCAL_CHUNKS_def Let_def)
  from stored_chunk_discoverable_provable [OF run _ _ refl, where draws = "[sample_draw]" and ?t0.0 = 1 and ?t1.0 = 2 and
      ?t2.0 = 3 and deadline = 9 and nonce = "''nonce''" and me = "''AROBI1''"] run show ?thesis
    by (simp add: sample_draw_ok) blast
qed

end
