(* ===== verification/PoiChain.thy ===== *)
theory PoiChain
  imports Poi Consensus
begin

text \<open>
  How proofs of intelligence meet the chain: \<open>Block::validate\<close> of \<^verbatim>\<open>src/src/block.rs\<close>, which checks a block against its predecessor
  and its proof, and the block producer of \<^verbatim>\<open>src/src/consensus.rs\<close> with the proof that \<^verbatim>\<open>src/src/poi.rs\<close> generates for it.
\<close>

datatype block_error =
    Height_mismatch u64 u64 | Prev_hash_mismatch | Timestamp_not_after | Block_hash_invalid | Merkle_root_mismatch
  | Invalid_tx string tx_error | Invalid_intelligence_proof poi_error

text \<open>The message of an invalid transaction slices its identifier, which panics when that is shorter than 8 bytes.\<close>

fun check_transactions :: "primitives \<Rightarrow> transaction list \<Rightarrow> (unit, block_error) res" where
  "check_transactions p [] = Ok ()"
| "check_transactions p (tx # txs) =
     (case validate_basic p tx of
        Panic \<Rightarrow> Panic
      | Err x \<Rightarrow> res_bind (str_slice_to (tx_id tx) 8) (\<lambda>d. Err (Invalid_tx d x))
      | Ok _ \<Rightarrow> check_transactions p txs)"

definition block_validate :: "primitives \<Rightarrow> poi_codec \<Rightarrow> block \<Rightarrow> block \<Rightarrow> (unit, block_error) res" where
  "block_validate p bc prev b =
     (if b_height b \<noteq> b_height prev + 1 then Err (Height_mismatch (b_height prev + 1) (b_height b))
      else if b_prev_hash b \<noteq> b_hash prev then Err Prev_hash_mismatch
      else if b_timestamp b \<le> b_timestamp prev then Err Timestamp_not_after
      else if \<not> verify_hash p b then Err Block_hash_invalid
      else if b_merkle_root b \<noteq> compute_merkle_root p (b_transactions b) then Err Merkle_root_mismatch
      else res_bind (check_transactions p (b_transactions b)) (\<lambda>_.
             case b_intelligence_proof b of
               None \<Rightarrow> Ok ()
             | Some pf \<Rightarrow> res_map_err Invalid_intelligence_proof (poi_verify_proof p bc pf)))"

definition proof_for_block ::
    "primitives \<Rightarrow> maths \<Rightarrow> poi_codec \<Rightarrow> ((bytes \<times> nat) list \<Rightarrow> (bytes \<times> nat) list) \<Rightarrow> rng \<Rightarrow> u64 \<Rightarrow> poi_engine \<Rightarrow> chain
     \<Rightarrow> (intelligence_proof, produce_error) res" where
  "proof_for_block p mt bc visit r elapsed e c =
     res_map_err (\<lambda>_. Poi_failed) (fst (poi_generate_proof p mt bc visit r elapsed (chain_height c + 1) e))"

lemma check_transactions_Ok: "\<forall>tx \<in> set txs. validate_basic p tx = Ok () \<Longrightarrow> check_transactions p txs = Ok ()"
  by (induction txs) simp_all

lemma reward_valid: "\<not> is_consensus_pool_address a \<Longrightarrow> validate_basic p (reward_tx p fmt a c t) = Ok ()"
  using validate_basic_pool_ok_iff [of "reward_tx p fmt a c t" p] reward_has_expected_id
  by simp

lemma linked_tip:
  assumes "chain_linked c" "get_block c (chain_height c) = Some prev"
  shows "b_height prev = chain_height c" "b_hash prev = tip_hash c"
proof -
  obtain b where b: "block_at c (unat (chain_height c)) b" using assms(1) unfolding chain_linked_def by blast
  then have eq: "b = prev" "unat (b_height b) = unat (chain_height c)" using assms(2) by (simp_all add: block_at_def)
  then show "b_height prev = chain_height c" by (simp add: word_unat_eq_iff)
  show "b_hash prev = tip_hash c" using assms(1) b unfolding chain_linked_def eq(1) by auto
qed

text \<open>
  C29. What an honest producer builds passes full validation: on a linked chain whose tip is older than the clock, with a
  mempool of admitted transactions, a wallet that signs and a solver within its time limit, the producer returns a block, and
  checking that block against the tip succeeds, its proof of intelligence included.
\<close>

theorem produced_block_validates:
  assumes "chain_linked c" "get_block c (chain_height c) = Some prev" "b_timestamp prev < now" "mempool_ok p m" "iteration_order order"
    "\<not> is_consensus_pool_address (w_address w)" "\<And>msg. \<exists>sg. wallet_sign p w msg = Ok sg"
    "blake3_size p" "codec_ok bc" "rng_ok r" "pe_difficulty e \<noteq> 0" "elapsed \<le> 30000"
  shows "\<exists>b. produce_block p fmt w order now (proof_for_block p mt bc visit r elapsed e c) c m = Ok b \<and> block_validate p bc prev b = Ok ()"
proof -
  obtain pf where pf: "fst (poi_generate_proof p mt bc visit r elapsed (chain_height c + 1) e) = Ok pf" "poi_verify_proof p bc pf = Ok ()"
    using proof_generated [OF assms(8-12)] by (metis fst_conv)
  let ?txs = "reward_tx p fmt (w_address w) c now # take_for_block order (MAX_TXS_PER_BLOCK - 1) m"
  obtain sg where "wallet_sign p w (dec64 (chain_height c + 1) @ tip_hash c @ dec64 now @ compute_merkle_root p ?txs) = Ok sg"
    using assms(7) by blast
  then obtain b where b: "produce_block p fmt w order now (proof_for_block p mt bc visit r elapsed e c) c m = Ok b"
    "b_timestamp b = now" "b_intelligence_proof b = Some pf"
    using pf(1) by (simp add: produce_block_def proof_for_block_def Let_def)
  note f = produce_block_Ok [OF b(1)]
  have "validate_basic p tx = Ok ()" if "tx \<in> set (take_for_block order (MAX_TXS_PER_BLOCK - 1) m)" for tx
    using subsetD [OF set_take_for_block [OF assms(5)] that] assms(4) unfolding mempool_ok_def tree_values_def by auto
  then have "validate_basic p tx = Ok ()" if "tx \<in> set (b_transactions b)" for tx
    using that reward_valid [OF assms(6)] unfolding f(4) by auto
  then have "check_transactions p (b_transactions b) = Ok ()" by (intro check_transactions_Ok) blast
  then have "block_validate p bc prev b = Ok ()"
    using f(1,2,5,6) b(2,3) pf(2) assms(3) linked_tip [OF assms(1,2)] by (simp add: block_validate_def not_le)
  with b(1) show ?thesis by blast
qed

lemma genesis_tip_block:
  "get_block (genesis_chain p) 0 = Some (genesis_block p)" "b_timestamp (genesis_block p) = TIMESTAMP_MS"
  by (simp_all add: store_open_def write_genesis_def empty_chain_def get_block_def chain_simps tree_simps)
    (simp add: genesis_block_def Let_def)

theorem produced_block_validates_witness:
  "\<exists>b. produce_block sample_primitives (\<lambda>_ _. []) sample_wallet (\<lambda>xs. xs) 1742611260000
       (proof_for_block sample_primitives sample_maths sample_poi_codec (\<lambda>xs. xs) sample_rng 20 poi_engine_new
          (genesis_chain sample_primitives)) (genesis_chain sample_primitives) mempool_new = Ok b \<and>
     block_validate sample_primitives sample_poi_codec (genesis_block sample_primitives) b = Ok ()"
  by (rule produced_block_validates [OF store_open_linked _ _ mempool_ok_new iteration_order_id _ sample_sign])
    (simp_all add: genesis_chain_tip genesis_tip_block TIMESTAMP_MS_def sample_wallet_def is_consensus_pool_address_def starts_with_def
      sample_primitives_ok sample_poi_codec_ok sample_rng_ok poi_engine_new_def)

end
