(* ===== verification/P2p.thy ===== *)
theory P2p
  imports PoiChain Reputation FileTransfer Dht Registry PeerBook AgentStore Machine
begin

text \<open>
  \<^verbatim>\<open>src/src/p2p.rs\<close>: what a node does with the messages of a peer, every arm of \<open>handle_msg\<close> and the read loop of a
  connection. The replies are returned in order; events for the inference and training agents are appended to the context's
  queues. A compute message carries its decoded JSON payload, \<open>None\<close> when it does not decode. Log lines are modelled only where
  they can panic, by slicing a peer's text at a byte offset.
\<close>

definition MAX_BLOCK_RANGE :: u64 where "MAX_BLOCK_RANGE = 100"

datatype p2p_message =
    Handshake string u64 string "string list"
  | NewBlock block
  | NewTransaction transaction
  | GetBlocks u64 u64
  | Blocks "block list"
  | Ping
  | Pong
  | IntelligenceProofShare u64 intelligence_proof string
  | ChunkAnnounce "string list" string string
  | ChunkRequest string string
  | ChunkResponse string string
  | DhtFindChunk string string
  | DhtChunkHolders string "dht_peer list"
  | ManifestRequest string
  | ManifestResponse file_manifest
  | StorageChallengeMsg storage_challenge
  | StorageProofMsg storage_proof
  | CapabilityAnnounce "node_capability option" string
  | AutonomoHeartbeatGossip string string
  | AutonomoChatGossip string string string string string
  | AutonomoSecureRelayGossip json
  | JobBroadcast "compute_job option"
  | JobClaim string string u64
  | JobResultMsg string "worker_result option"
  | ModelAnnounce string "u32 list" string
  | InferencePipelineForward string string u32 string "u32 list" bool
  | InferencePipelineResult string u32 bool string
  | StageHeartbeat string u32 string f32 u32
  | TrainingRoundStart string u64 string "string list" f64 u32
  | GradientSubmit string u64 string string u64 string
  | TrainingRoundComplete string u64 string f64 "string list"
  | ToolExecutionRequest string string json string u64
  | ToolExecutionResult string bool json u64

datatype inference_p2p_event =
    PipelineForward string string u32 string "u32 list" bool string
  | PipelineResult string u32 bool string

datatype training_p2p_event =
    RoundStart string u64 string "string list" f64 u32
  | GradientReceived string u64 string string u64 string
  | RoundComplete string u64 string f64 "string list"

text \<open>
  The store's trees are separate components; \<open>pc_llm_stages\<close> is the tree of announced stages, and of the reputation records only
  scores are read here.
\<close>

record peer_context =
  pc_store :: chain
  pc_peers :: peer_book
  pc_chunks :: chunk_store
  pc_agents :: agent_store
  pc_llm_stages :: "(string, string) tree"
  pc_mempool :: mempool
  pc_scheduler :: scheduler
  pc_reputation :: rep_oracle
  pc_registry :: model_registry
  pc_inference_tx :: "inference_p2p_event list"
  pc_training_tx :: "training_p2p_event list"
  pc_advertised :: "string list"

text \<open>
  What the handler reads besides its context: the peer's socket address as text, the clock, base64, the files outside the chunk
  directory, the serialisation that proofs of intelligence use, and the iteration order of the marketplace's hash count.
\<close>

record msg_env =
  env_peer_addr :: string
  env_now_ms :: u64
  env_rfc3339 :: string
  env_b64_encode :: "bytes \<Rightarrow> string"
  env_b64_decode :: "string \<Rightarrow> bytes option"
  env_read_path :: "string \<Rightarrow> bytes option"
  env_poi_codec :: poi_codec
  env_order :: "(string \<times> nat) list \<Rightarrow> (string \<times> nat) list"

type_synonym handled = "(peer_context \<times> p2p_message list, unit) res"

section \<open>Handshake\<close>

definition discovered_addrs :: "string \<Rightarrow> string \<Rightarrow> string list \<Rightarrow> string list" where
  "discovered_addrs peer_addr primary advertised =
     (let found = List.map_filter normalize_peer_endpoint (primary # advertised);
          fallback = (case parse_socket_addr peer_addr of
              None \<Rightarrow> []
            | Some sa \<Rightarrow>
                let text = (case socket_ip sa of
                    V4 a b c d \<Rightarrow> show_socket_addr (SocketAddrV4 a b c d 30333)
                  | V6 segs \<Rightarrow> show_socket_addr (SocketAddrV6 segs 30333 0))
                in (case normalize_peer_endpoint text of None \<Rightarrow> [] | Some a \<Rightarrow> [a]))
      in remdups_adj (sort (if found = [] then fallback else found)))"

definition remember_discovered :: "u64 \<Rightarrow> string list \<Rightarrow> string list \<Rightarrow> peer_book \<Rightarrow> peer_book" where
  "remember_discovered now own addrs book =
     (let local_advertised = set (List.map_filter normalize_peer_endpoint own)
      in fold (\<lambda>a b. if a \<in> local_advertised then b
                     else if \<not> is_public_peer_endpoint a then b
                     else remember_peer now a ''handshake'' b) addrs book)"

text \<open>The end of the \<open>Handshake\<close> arm: a peer on this network that is ahead is asked for its blocks.\<close>

definition handshake_request :: "string \<Rightarrow> u64 \<Rightarrow> chain \<Rightarrow> p2p_message list" where
  "handshake_request version peer_height c =
     (if version \<noteq> NETWORK_MAGIC then []
      else let our_height = chain_height c in
        if our_height < peer_height then [GetBlocks (our_height + 1) peer_height] else [])"

definition handle_handshake :: "msg_env \<Rightarrow> string \<Rightarrow> u64 \<Rightarrow> string \<Rightarrow> string list \<Rightarrow> peer_context \<Rightarrow> peer_context \<times> p2p_message list" where
  "handle_handshake env version peer_height primary advertised ctx =
     (if version \<noteq> NETWORK_MAGIC then (ctx, [])
      else let found = discovered_addrs (env_peer_addr env) primary advertised;
               book = remember_discovered (env_now_ms env) (pc_advertised ctx) found (pc_peers ctx)
           in (ctx\<lparr>pc_peers := book\<rparr>, handshake_request version peer_height (pc_store ctx)))"

section \<open>Chain and mempool\<close>

definition handle_new_block :: "primitives \<Rightarrow> block \<Rightarrow> chain \<Rightarrow> (chain \<times> p2p_message list, unit) res" where
  "handle_new_block p b c =
     (if \<not> verify_hash p b then Ok (c, [])
      else let cur = chain_height c in
        if b_height b = cur + 1 then
          (case apply_block c b of Ok c' \<Rightarrow> Ok (c', []) | Err e \<Rightarrow> Ok (c, []) | Panic \<Rightarrow> Panic)
        else if cur + 1 < b_height b then Ok (c, [GetBlocks (cur + 1) (b_height b)])
        else Ok (c, []))"

definition handle_new_transaction :: "primitives \<Rightarrow> transaction \<Rightarrow> chain \<Rightarrow> mempool \<Rightarrow> (mempool, unit) res" where
  "handle_new_transaction p tx c m =
     (case mempool_add p tx c m of Ok m' \<Rightarrow> Ok m' | Err e \<Rightarrow> Ok m | Panic \<Rightarrow> Panic)"

definition handle_get_blocks :: "u64 \<Rightarrow> u64 \<Rightarrow> chain \<Rightarrow> p2p_message list" where
  "handle_get_blocks fr to c =
     (let to_clamped = min to (fr + MAX_BLOCK_RANGE);
          blocks = get_blocks c fr to_clamped
      in if blocks = [] then [] else [Blocks blocks])"

fun handle_blocks :: "primitives \<Rightarrow> block list \<Rightarrow> chain \<Rightarrow> (chain, unit) res" where
  "handle_blocks p [] c = Ok c"
| "handle_blocks p (b # bs) c =
     (if \<not> verify_hash p b then Ok c
      else case apply_block c b of
             Ok c' \<Rightarrow> handle_blocks p bs c'
           | Err e \<Rightarrow> handle_blocks p bs c
           | Panic \<Rightarrow> Panic)"

section \<open>Files\<close>

text \<open>The blob is written without an index entry.\<close>

definition handle_chunk_response ::
    "primitives \<Rightarrow> (string \<Rightarrow> bytes option) \<Rightarrow> string \<Rightarrow> string \<Rightarrow> chunk_store \<Rightarrow> chunk_store" where
  "handle_chunk_response p b64_decode chunk_id data_b64 s =
     (case b64_decode data_b64 of
        None \<Rightarrow> s
      | Some data \<Rightarrow>
          if content_id p data = chunk_id then s\<lparr>st_blobs := tree_insert chunk_id data (st_blobs s)\<rparr> else s)"

definition handle_manifest_request :: "string \<Rightarrow> chunk_store \<Rightarrow> p2p_message list" where
  "handle_manifest_request file_id s =
     (case get_manifest file_id s of None \<Rightarrow> [] | Some m \<Rightarrow> [ManifestResponse m])"

text \<open>
  \<open>chunks_dir.join(&chunk_id)\<close> leaves the chunk directory when the id has a separator; the file is then read like any other.
\<close>

definition read_chunk_path :: "msg_env \<Rightarrow> string \<Rightarrow> chunk_store \<Rightarrow> bytes option" where
  "read_chunk_path env chunk_id s =
     (if CHR ''/'' \<in> set chunk_id then env_read_path env chunk_id else tree_get (st_blobs s) chunk_id)"

definition handle_chunk_request :: "msg_env \<Rightarrow> string \<Rightarrow> chunk_store \<Rightarrow> p2p_message list" where
  "handle_chunk_request env chunk_id s =
     (case read_chunk_path env chunk_id s of
        None \<Rightarrow> []
      | Some data \<Rightarrow> [ChunkResponse chunk_id (env_b64_encode env data)])"

section \<open>Marketplace, models and agents\<close>

text \<open>The result of a marketplace call is dropped; its panics are not.\<close>

definition marketplace_call :: "(scheduler, sched_error) res \<Rightarrow> peer_context \<Rightarrow> handled" where
  "marketplace_call r ctx =
     (case r of Ok s \<Rightarrow> Ok (ctx\<lparr>pc_scheduler := s\<rparr>, []) | Err e \<Rightarrow> Ok (ctx, []) | Panic \<Rightarrow> Panic)"

definition claimed_bid :: "msg_env \<Rightarrow> string \<Rightarrow> string \<Rightarrow> u64 \<Rightarrow> peer_context \<Rightarrow> worker_bid" where
  "claimed_bid env job_id worker bid_aura ctx =
     \<lparr>wb_job_id = job_id, wb_worker = worker, wb_bid_aura = bid_aura, wb_estimated_time_ms = 0,
      wb_reputation_score = get_score worker (pc_reputation ctx), wb_submitted_at = env_now_ms env\<rparr>"

definition announce_stages :: "string \<Rightarrow> u32 list \<Rightarrow> string \<Rightarrow> (string, string) tree \<Rightarrow> (string, string) tree" where
  "announce_stages model_id stages node =
     fold (\<lambda>stage. tree_insert (model_id @ '':'' @ dec (unat stage) @ '':'' @ node) node) stages"

definition peer_heartbeat :: "msg_env \<Rightarrow> string \<Rightarrow> u32 \<Rightarrow> string \<Rightarrow> u32 \<Rightarrow> stage_heartbeat" where
  "peer_heartbeat env model_id stage node active =
     \<lparr>sh_model_id = model_id, sh_stage_index = stage, sh_node_address = node, sh_loaded = True, sh_current_requests = active,
      sh_tokens_served = 0, sh_avg_latency_ms = 0, sh_timestamp = env_now_ms env\<rparr>"

definition heartbeat_json :: "msg_env \<Rightarrow> string \<Rightarrow> string \<Rightarrow> json" where
  "heartbeat_json env payload_b64 sender =
     json_object [(''wallet'', JString sender), (''gibbertalk_payload'', JString payload_b64), (''last_seen'', JString (env_rfc3339 env))]"

definition chat_json :: "string \<Rightarrow> string \<Rightarrow> string \<Rightarrow> string \<Rightarrow> string \<Rightarrow> string \<Rightarrow> json" where
  "chat_json msg_id from_wallet to_wallet message msg_type timestamp =
     json_object [(''id'', JString msg_id), (''from_wallet'', JString from_wallet), (''to_wallet'', JString to_wallet),
       (''message'', JString message), (''msg_type'', JString msg_type), (''timestamp'', JString timestamp)]"

definition chat_id :: "msg_env \<Rightarrow> string \<Rightarrow> string" where
  "chat_id env from_wallet = dec64 (env_now_ms env) @ ''_'' @ from_wallet"

definition handle_relay :: "json \<Rightarrow> agent_store \<Rightarrow> agent_store" where
  "handle_relay relay s =
     (case get_str ''id'' relay of None \<Rightarrow> s | Some message_id \<Rightarrow> put_secure_relay_message message_id relay s)"

section \<open>The handler\<close>

text \<open>A log line that slices the given texts, then the effect.\<close>

definition logged :: "(string \<times> nat) list \<Rightarrow> handled \<Rightarrow> handled" where
  "logged texts r = res_bind (res_fold (\<lambda>(s, n) _. res_bind (log_prefix s n) (\<lambda>_. Ok ())) texts ()) (\<lambda>_. r)"

fun handle_msg :: "primitives \<Rightarrow> msg_env \<Rightarrow> p2p_message \<Rightarrow> peer_context \<Rightarrow> handled" where
  "handle_msg p env (Handshake version peer_height primary advertised) ctx =
     Ok (handle_handshake env version peer_height primary advertised ctx)"
| "handle_msg p env (NewBlock b) ctx =
     res_bind (handle_new_block p b (pc_store ctx)) (\<lambda>(c, out). Ok (ctx\<lparr>pc_store := c\<rparr>, out))"
| "handle_msg p env (NewTransaction tx) ctx =
     res_bind (handle_new_transaction p tx (pc_store ctx) (pc_mempool ctx)) (\<lambda>m. Ok (ctx\<lparr>pc_mempool := m\<rparr>, []))"
| "handle_msg p env (GetBlocks fr to) ctx = Ok (ctx, handle_get_blocks fr to (pc_store ctx))"
| "handle_msg p env (Blocks bs) ctx =
     res_bind (handle_blocks p bs (pc_store ctx)) (\<lambda>c. Ok (ctx\<lparr>pc_store := c\<rparr>, []))"
| "handle_msg p env Ping ctx = Ok (ctx, [Pong])"
| "handle_msg p env Pong ctx = Ok (ctx, [])"
| "handle_msg p env (IntelligenceProofShare block_height proof validator) ctx =
     (case poi_verify_proof p (env_poi_codec env) proof of Panic \<Rightarrow> Panic | _ \<Rightarrow> logged [(validator, 12)] (Ok (ctx, [])))"
| "handle_msg p env (ChunkAnnounce chunk_ids node_address p2p_addr) ctx = Ok (ctx, [])"
| "handle_msg p env (ChunkRequest chunk_id requester) ctx = Ok (ctx, handle_chunk_request env chunk_id (pc_chunks ctx))"
| "handle_msg p env (ChunkResponse chunk_id data_b64) ctx =
     Ok (ctx\<lparr>pc_chunks := handle_chunk_response p (env_b64_decode env) chunk_id data_b64 (pc_chunks ctx)\<rparr>, [])"
| "handle_msg p env (DhtFindChunk chunk_id requester_id) ctx = Ok (ctx, [])"
| "handle_msg p env (DhtChunkHolders chunk_id holders) ctx = Ok (ctx, [])"
| "handle_msg p env (ManifestRequest file_id) ctx = Ok (ctx, handle_manifest_request file_id (pc_chunks ctx))"
| "handle_msg p env (ManifestResponse m) ctx = Ok (ctx\<lparr>pc_chunks := put_manifest m (pc_chunks ctx)\<rparr>, [])"
| "handle_msg p env (StorageChallengeMsg c) ctx = Ok (ctx, [])"
| "handle_msg p env (StorageProofMsg r) ctx = Ok (ctx\<lparr>pc_chunks := put_storage_proof r (pc_chunks ctx)\<rparr>, [])"
| "handle_msg p env (CapabilityAnnounce cap node_address) ctx =
     (case cap of None \<Rightarrow> Ok (ctx, []) | Some c \<Rightarrow> marketplace_call (register_capability c (pc_scheduler ctx)) ctx)"
| "handle_msg p env (AutonomoHeartbeatGossip payload_b64 sender) ctx =
     Ok (ctx\<lparr>pc_agents := put_heartbeat sender (heartbeat_json env payload_b64 sender) (pc_agents ctx)\<rparr>, [])"
| "handle_msg p env (AutonomoChatGossip from_wallet to_wallet message msg_type timestamp) ctx =
     Ok (ctx\<lparr>pc_agents := put_agent_message (chat_id env from_wallet)
               (chat_json (chat_id env from_wallet) from_wallet to_wallet message msg_type timestamp) (pc_agents ctx)\<rparr>, [])"
| "handle_msg p env (AutonomoSecureRelayGossip relay) ctx = Ok (ctx\<lparr>pc_agents := handle_relay relay (pc_agents ctx)\<rparr>, [])"
| "handle_msg p env (JobBroadcast job) ctx =
     (case job of None \<Rightarrow> Ok (ctx, []) | Some j \<Rightarrow> marketplace_call (submit_job j (pc_scheduler ctx)) ctx)"
| "handle_msg p env (JobClaim job_id worker bid_aura) ctx =
     logged [(job_id, 16), (worker, 12)]
       (marketplace_call (submit_bid (claimed_bid env job_id worker bid_aura ctx) (pc_scheduler ctx)) ctx)"
| "handle_msg p env (JobResultMsg job_id result) ctx =
     logged [(job_id, 16)]
       (case result of None \<Rightarrow> Ok (ctx, [])
        | Some r \<Rightarrow> marketplace_call (submit_result (env_order env) job_id r (pc_scheduler ctx)) ctx)"
| "handle_msg p env (ModelAnnounce model_id stages_served node_address) ctx =
     Ok (ctx\<lparr>pc_llm_stages := announce_stages model_id stages_served node_address (pc_llm_stages ctx)\<rparr>, [])"
| "handle_msg p env (InferencePipelineForward request_id model_id stage hidden positions is_prefill) ctx =
     logged [(request_id, 16)]
       (Ok (ctx\<lparr>pc_inference_tx := pc_inference_tx ctx
                  @ [PipelineForward request_id model_id stage hidden positions is_prefill (env_peer_addr env)]\<rparr>, []))"
| "handle_msg p env (InferencePipelineResult request_id next_token is_done logit_hash) ctx =
     logged [(request_id, 16)]
       (Ok (ctx\<lparr>pc_inference_tx := pc_inference_tx ctx @ [PipelineResult request_id next_token is_done logit_hash]\<rparr>, []))"
| "handle_msg p env (StageHeartbeat model_id stage node_address gpu active) ctx =
     Ok (ctx\<lparr>pc_registry := record_heartbeat (peer_heartbeat env model_id stage node_address active) (pc_registry ctx)\<rparr>, [])"
| "handle_msg p env (TrainingRoundStart model_id round_id checkpoint shards rate batch) ctx =
     Ok (ctx\<lparr>pc_training_tx := pc_training_tx ctx @ [RoundStart model_id round_id checkpoint shards rate batch]\<rparr>, [])"
| "handle_msg p env (GradientSubmit model_id round_id worker grad samples hash) ctx =
     logged [(worker, 12)]
       (Ok (ctx\<lparr>pc_training_tx := pc_training_tx ctx @ [GradientReceived model_id round_id worker grad samples hash]\<rparr>, []))"
| "handle_msg p env (TrainingRoundComplete model_id round_id checkpoint loss workers) ctx =
     Ok (ctx\<lparr>pc_training_tx := pc_training_tx ctx @ [RoundComplete model_id round_id checkpoint loss workers]\<rparr>, [])"
| "handle_msg p env (ToolExecutionRequest task_id tool_name parameters requester timeout_ms) ctx =
     logged [(task_id, 16), (requester, 12)] (Ok (ctx, []))"
| "handle_msg p env (ToolExecutionResult task_id success result execution_time_ms) ctx = logged [(task_id, 16)] (Ok (ctx, []))"

text \<open>A connection's read loop over the lines that arrive; a line that is no message is skipped.\<close>

fun handle_msgs :: "primitives \<Rightarrow> (msg_env \<times> p2p_message option) list \<Rightarrow> peer_context \<Rightarrow> handled" where
  "handle_msgs p [] ctx = Ok (ctx, [])"
| "handle_msgs p ((env, None) # ms) ctx = handle_msgs p ms ctx"
| "handle_msgs p ((env, Some m) # ms) ctx =
     res_bind (handle_msg p env m ctx) (\<lambda>(ctx', out).
       res_bind (handle_msgs p ms ctx') (\<lambda>(ctx'', out'). Ok (ctx'', out @ out')))"

section \<open>What peers cannot break\<close>

fun blocks_carried :: "p2p_message \<Rightarrow> nat" where
  "blocks_carried (NewBlock b) = 1"
| "blocks_carried (Blocks bs) = length bs"
| "blocks_carried m = 0"

fun line_weight :: "msg_env \<times> p2p_message option \<Rightarrow> nat" where
  "line_weight (env, None) = 0"
| "line_weight (env, Some m) = blocks_carried m"

definition blocks_received :: "(msg_env \<times> p2p_message option) list \<Rightarrow> nat" where
  "blocks_received ms = sum_list (map line_weight ms)"

text \<open>Every blob is stored under the content id of its bytes.\<close>

definition blobs_ok :: "primitives \<Rightarrow> chunk_store \<Rightarrow> bool" where
  "blobs_ok p s \<longleftrightarrow> (\<forall>(i, b) \<in> set (st_blobs s). i = content_id p b)"

definition chain_within :: "nat \<Rightarrow> chain \<Rightarrow> bool" where
  "chain_within n c \<longleftrightarrow> chain_linked c \<and> unat (chain_height c) \<le> n"

text \<open>The seeds of \<open>book\<close> are seeds of \<open>seeds\<close>.\<close>

definition no_new_seeds :: "peer_book \<Rightarrow> peer_book \<Rightarrow> bool" where
  "no_new_seeds seeds book \<longleftrightarrow>
     (\<forall>a r. tree_get book a = Some r \<and> kp_source r = ''bootstrap'' \<longrightarrow> (\<exists>r0. tree_get seeds a = Some r0 \<and> kp_source r0 = ''bootstrap''))"

definition context_ok :: "primitives \<Rightarrow> peer_book \<Rightarrow> nat \<Rightarrow> peer_context \<Rightarrow> bool" where
  "context_ok p seeds n ctx \<longleftrightarrow> chain_within n (pc_store ctx) \<and> mempool_ok p (pc_mempool ctx) \<and> blobs_ok p (pc_chunks ctx)
     \<and> book_reach (pc_peers ctx) \<and> no_new_seeds seeds (pc_peers ctx)"

lemma chain_within_apply:
  assumes "chain_within n c" "apply_block c b = Ok c'" "Suc n < 2 ^ 64"
  shows "chain_within (Suc n) c'"
proof -
  have room: "Suc (unat (chain_height c)) < 2 ^ 64" using assms(1,3) by (simp add: chain_within_def)
  with assms chain_linked_apply_block [OF _ assms(2) room] apply_block_height [OF assms(2) room] show ?thesis
    by (simp add: chain_within_def)
qed

lemma chain_within_mono: "chain_within m c \<Longrightarrow> m \<le> n \<Longrightarrow> chain_within n c"
  by (simp add: chain_within_def)

lemma handle_blocks_within:
  "chain_within n c \<Longrightarrow> handle_blocks p bs c = Ok c' \<Longrightarrow> n + length bs < 2 ^ 64 \<Longrightarrow> chain_within (n + length bs) c'"
proof (induction bs arbitrary: n c)
  case (Cons b bs)
  show ?case
  proof (cases "verify_hash p b")
    case True
    show ?thesis
    proof (cases "apply_block c b")
      case (Ok c1)
      with True Cons.prems have "chain_within (Suc n) c1" "handle_blocks p bs c1 = Ok c'"
        by (simp_all add: chain_within_apply [OF Cons.prems(1)])
      with Cons.IH [of "Suc n" c1] Cons.prems(3) show ?thesis by simp
    next
      case (Err e)
      with True Cons.prems have "handle_blocks p bs c = Ok c'" by simp
      with Cons.IH [of n c] Cons.prems show ?thesis by (auto intro: chain_within_mono)
    qed (use True Cons.prems in simp)
  next
    case False
    with Cons.prems show ?thesis by (auto intro: chain_within_mono)
  qed
qed simp

lemma handle_new_block_within:
  assumes "chain_within n c" "handle_new_block p b c = Ok (c', out)" "Suc n < 2 ^ 64"
  shows "chain_within (Suc n) c'"
  using assms chain_within_apply [OF assms(1)]
  by (auto simp: handle_new_block_def Let_def intro: chain_within_mono split: if_splits res.splits)

lemma handle_new_transaction_ok:
  "mempool_ok p m \<Longrightarrow> handle_new_transaction p tx c m = Ok m' \<Longrightarrow> mempool_ok p m'"
  by (auto simp: handle_new_transaction_def intro: mempool_ok_add split: res.splits)

lemma handle_chunk_response_ok: "blobs_ok p s \<Longrightarrow> blobs_ok p (handle_chunk_response p b64_decode i d s)"
  using set_tree_insert_subset by (fastforce simp: blobs_ok_def handle_chunk_response_def split: option.splits)

lemma no_new_seeds_remember: "no_new_seeds seeds book \<Longrightarrow> no_new_seeds seeds (remember_peer now a ''handshake'' book)"
  by (auto simp: no_new_seeds_def remember_peer_def upsert_known_peer_def Let_def tree_simps new_peer_record_def touch_peer_def
      split: option.splits if_splits)

lemma remember_discovered_ok:
  "book_reach book \<Longrightarrow> no_new_seeds seeds book \<Longrightarrow>
     book_reach (remember_discovered now own addrs book) \<and> no_new_seeds seeds (remember_discovered now own addrs book)"
  unfolding remember_discovered_def Let_def
proof (induction addrs arbitrary: book)
  case (Cons a addrs)
  then show ?case
    using no_new_seeds_remember [of seeds book now a] book_reach.upsert [of book now a "''handshake''" False False]
    by (simp add: remember_peer_def)
qed simp

lemma marketplace_call_frame:
  "marketplace_call r ctx = Ok (ctx', out) \<Longrightarrow> pc_store ctx' = pc_store ctx \<and> pc_mempool ctx' = pc_mempool ctx
     \<and> pc_chunks ctx' = pc_chunks ctx \<and> pc_peers ctx' = pc_peers ctx"
  by (auto simp: marketplace_call_def split: res.splits)

lemma logged_Ok: "logged texts r = Ok x \<Longrightarrow> r = Ok x"
  by (auto simp: logged_def res_simps)

lemma handshake_frame:
  "context_ok p seeds n ctx \<Longrightarrow> context_ok p seeds n (fst (handle_handshake env v h a as ctx))"
  using remember_discovered_ok by (auto simp: context_ok_def handle_handshake_def Let_def)

lemma handle_msg_ok:
  assumes "context_ok p seeds n ctx" "handle_msg p env m ctx = Ok (ctx', out)" "n + blocks_carried m < 2 ^ 64"
  shows "context_ok p seeds (n + blocks_carried m) ctx'"
proof (cases m)
  case (Handshake v h a as)
  with assms handshake_frame [OF assms(1), of env v h a as] show ?thesis by simp
next
  case (NewBlock b)
  with assms show ?thesis by (auto simp: context_ok_def res_simps dest: handle_new_block_within)
next
  case (NewTransaction tx)
  with assms show ?thesis by (auto simp: context_ok_def res_simps dest: handle_new_transaction_ok)
next
  case (Blocks bs)
  with assms show ?thesis by (auto simp: context_ok_def res_simps dest: handle_blocks_within)
next
  case (ChunkResponse i d)
  with assms show ?thesis by (auto simp: context_ok_def handle_chunk_response_ok)
qed (use assms in \<open>auto simp: context_ok_def blobs_ok_def put_manifest_def put_storage_proof_def
    dest!: marketplace_call_frame logged_Ok split: option.splits res.splits\<close>)

fun line_step :: "primitives \<Rightarrow> msg_env \<times> p2p_message option \<Rightarrow> peer_context \<Rightarrow> (peer_context, unit) res" where
  "line_step p (env, None) ctx = Ok ctx"
| "line_step p (env, Some m) ctx = res_bind (handle_msg p env m ctx) (\<lambda>(ctx', out). Ok ctx')"

lemma handle_msgs_run: "handle_msgs p ms ctx = Ok (ctx', out) \<Longrightarrow> res_fold (line_step p) ms ctx = Ok ctx'"
  by (induction p ms ctx arbitrary: out rule: handle_msgs.induct) (auto simp: res_simps)

interpretation reader: weighted_machine "line_step p" "\<lambda>e. True" line_weight "2 ^ 64" "context_ok p seeds" for p seeds
proof
  fix n ctx e ctx'
  assume "context_ok p seeds n ctx" "line_step p e ctx = Ok ctx'" "n + line_weight e < 2 ^ 64"
  then show "context_ok p seeds (n + line_weight e) ctx'"
    by (induction p e ctx rule: line_step.induct) (auto simp: res_simps intro: handle_msg_ok)
qed

definition fresh_context :: "primitives \<Rightarrow> peer_book \<Rightarrow> string list \<Rightarrow> peer_context" where
  "fresh_context p seeds own =
     \<lparr>pc_store = genesis_chain p, pc_peers = seeds, pc_chunks = empty_store, pc_agents = agent_store_empty, pc_llm_stages = [],
      pc_mempool = mempool_new, pc_scheduler = scheduler_new, pc_reputation = [], pc_registry = registry_new,
      pc_inference_tx = [], pc_training_tx = [], pc_advertised = own\<rparr>"

text \<open>
  C40. Whatever a peer sends, in whatever order, malformed lines included: a fresh node's chain stays linked from genesis to its tip,
  its mempool stays bounded and holds only transactions that pass the stateless checks, every chunk blob written is stored
  under the content id of its bytes, and the addresses the node will dial from its peer book are public or were its own
  seeds before.
\<close>

theorem peer_messages_keep_invariants:
  assumes "handle_msgs p ms (fresh_context p seeds own) = Ok (ctx, out)"
    and "blocks_received ms < 2 ^ 64" and "book_reach seeds"
  shows "chain_linked (pc_store ctx) \<and> mempool_ok p (pc_mempool ctx) \<and> blobs_ok p (pc_chunks ctx)
     \<and> (\<forall>a. a \<in> set (list_bootstrap_peer_addresses now limit aliases (pc_peers ctx)) \<longrightarrow>
          is_public_peer_endpoint a \<or> (\<exists>r0. tree_get seeds a = Some r0 \<and> kp_source r0 = ''bootstrap''))"
proof -
  have "context_ok p seeds 0 (fresh_context p seeds own)"
    using assms(3) by (simp add: context_ok_def chain_within_def no_new_seeds_def fresh_context_def store_open_linked genesis_chain_tip
        mempool_ok_new blobs_ok_def empty_store_def)
  from reader.run_inv [OF this _ handle_msgs_run [OF assms(1)]] assms(2) have ok: "context_ok p seeds (blocks_received ms) ctx"
    by (simp add: blocks_received_def list_all_iff)
  have "is_public_peer_endpoint a \<or> (\<exists>r0. tree_get seeds a = Some r0 \<and> kp_source r0 = ''bootstrap'')"
    if a: "a \<in> set (list_bootstrap_peer_addresses now limit aliases (pc_peers ctx))" for a
  proof -
    have "book_ok (pc_peers ctx)" using ok by (simp add: context_ok_def book_reach_ok)
    from listed_candidate [OF this a] obtain r where
      r: "tree_get (pc_peers ctx) a = Some r" "dialable now aliases r" "kp_addr r = a" by blast
    show ?thesis
    proof (cases "kp_source r = ''bootstrap''")
      case True
      with r(1) ok show ?thesis unfolding context_ok_def no_new_seeds_def by blast
    next
      case False
      with r(2,3) show ?thesis by (simp add: dialable_def)
    qed
  qed
  with ok show ?thesis by (simp add: context_ok_def chain_within_def)
qed

definition sealed_block :: "transaction list \<Rightarrow> block" where
  "sealed_block txs = (sample_block txs)\<lparr>b_hash := block_compute_hash sample_primitives 1
     (b_hash (genesis_block sample_primitives)) TIMESTAMP_MS [] 0 ''ARLPhv'' None\<rparr>"

abbreviation synced_block :: block where
  "synced_block \<equiv> sealed_block []"

lemma sealed_block_fields [simp]:
  "b_height (sealed_block txs) = 1" "b_transactions (sealed_block txs) = txs"
  "b_prev_hash (sealed_block txs) = tip_hash (genesis_chain sample_primitives)"
  "verify_hash sample_primitives (sealed_block txs)"
  by (simp_all add: sealed_block_def verify_hash_def sample_block_def genesis_chain_tip)

lemma sealed_block_applies:
  "res_fold (check_tx (genesis_chain sample_primitives)) txs ([], []) = Ok st \<Longrightarrow>
   apply_block (genesis_chain sample_primitives) (sealed_block txs)
     = Ok (commit_block (sealed_block txs) (genesis_chain sample_primitives))"
  by (simp add: apply_block_def genesis_chain_tip(1))

lemmas synced_block_ok = sealed_block_applies [of "[]", simplified]

definition sample_env :: msg_env where
  "sample_env = \<lparr>env_peer_addr = [], env_now_ms = 0, env_rfc3339 = [], env_b64_encode = (\<lambda>b. b), env_b64_decode = Some,
     env_read_path = (\<lambda>_. None), env_poi_codec = sample_poi_codec, env_order = (\<lambda>xs. xs)\<rparr>"

theorem peer_messages_keep_invariants_witness:
  "\<exists>ctx out. handle_msgs sample_primitives [(sample_env, Some Ping), (sample_env, Some (NewBlock synced_block)), (sample_env, None)]
      (fresh_context sample_primitives [] []) = Ok (ctx, out) \<and> chain_linked (pc_store ctx) \<and> chain_height (pc_store ctx) = 1"
proof -
  let ?ctx = "(fresh_context sample_primitives [] [])\<lparr>pc_store := commit_block synced_block (genesis_chain sample_primitives)\<rparr>"
  have run: "handle_msgs sample_primitives [(sample_env, Some Ping), (sample_env, Some (NewBlock synced_block)), (sample_env, None)]
      (fresh_context sample_primitives [] []) = Ok (?ctx, [Pong])"
    by (simp add: handle_new_block_def synced_block_ok genesis_chain_tip(1) fresh_context_def)
  from peer_messages_keep_invariants [OF run _ book_reach.new] run show ?thesis
    by (simp add: chain_simps blocks_received_def)
qed

end
