(* ===== verification/P2pSync.thy ===== *)
theory P2pSync
  imports P2p
begin

text \<open>
  Two nodes of \<^verbatim>\<open>src/src/p2p.rs\<close> together: catching up with a longer chain by announcements, requests and batches, and what
  a block received from a peer does to local block production.
\<close>

section \<open>Catching up with a peer\<close>

text \<open>
  One exchange: the peer's chain \<open>d\<close> is announced (by its handshake, or by a block at its tip, which leads to the same
  request), the peer serves the request and this node applies the answer.
\<close>

definition sync_round :: "primitives \<Rightarrow> chain \<Rightarrow> chain \<Rightarrow> (chain, unit) res" where
  "sync_round p d c =
     (case handshake_request NETWORK_MAGIC (chain_height d) c of
        GetBlocks fr to # _ \<Rightarrow>
          (case handle_get_blocks fr to d of Blocks bs # _ \<Rightarrow> handle_blocks p bs c | _ \<Rightarrow> Ok c)
      | _ \<Rightarrow> Ok c)"

fun sync_rounds :: "primitives \<Rightarrow> chain \<Rightarrow> nat \<Rightarrow> chain \<Rightarrow> (chain, unit) res" where
  "sync_rounds p d 0 c = Ok c"
| "sync_rounds p d (Suc n) c = res_bind (sync_round p d c) (sync_rounds p d n)"

lemma apply_blocks_append:
  "apply_blocks (xs @ ys) c = res_bind (apply_blocks xs c) (apply_blocks ys)"
  by (simp add: apply_blocks_def res_fold_append)

lemma apply_blocks_stored:
  assumes "apply_blocks bs (genesis_chain p) = Ok d" "length bs < 2 ^ 64" "i < length bs"
  shows "get_block d (of_nat (Suc i)) = Some (bs ! i)"
  using assms
proof (induction bs arbitrary: d i rule: rev_induct)
  case (snoc b bs)
  then obtain d1 where d1: "apply_blocks bs (genesis_chain p) = Ok d1" and d: "apply_block d1 b = Ok d"
    by (auto simp: apply_blocks_append res_simps)
  have h: "unat (chain_height d1) = length bs"
    using chain_linked_apply_blocks [OF store_open_linked d1] snoc.prems(2) by (simp add: genesis_chain_tip)
  from d have hb: "b_height b = chain_height d1 + 1" and dd: "d = commit_block b d1"
    by (auto elim: apply_block_OkE)
  have "b_height b = of_nat (Suc (length bs))"
    using h snoc.prems(2) unfolding hb
    by (intro unsigned_word_eqI [where 'a = nat]) (simp add: unat_add_no_wrap unat_of_nat_u64)
  moreover have "of_nat (Suc i) = (of_nat (Suc (length bs)) :: u64) \<longleftrightarrow> i = length bs"
    using snoc.prems(2,3) by (subst of_nat_u64_eq_iff) (auto simp: unat_of_nat_u64 simp del: of_nat_Suc)
  ultimately show ?case
    using snoc.IH [OF d1, of i] snoc.prems(2,3)
    by (auto simp: dd get_block_commit nth_append simp del: of_nat_Suc)
qed simp

lemma get_blocks_stored:
  assumes "apply_blocks bs (genesis_chain p) = Ok d" "length bs < 2 ^ 64" "k < m" "m \<le> length bs"
  shows "get_blocks d (of_nat (Suc k)) (of_nat m) = take (m - k) (drop k bs)"
proof -
  have ends: "unat (of_nat m :: u64) = m" "unat (of_nat (Suc k) :: u64) = Suc k"
    using assms by (simp_all add: unat_of_nat_u64 del: of_nat_Suc)
  have "concat (map (\<lambda>h. case tree_get (c_blocks d) (of_nat h) of Some b \<Rightarrow> [b] | None \<Rightarrow> []) [Suc k ..< Suc m])
      = concat (map (\<lambda>h. [bs ! (h - 1)]) [Suc k ..< Suc m])"
  proof (intro arg_cong [where f = concat] map_cong refl)
    fix h assume "h \<in> set [Suc k ..< Suc m]"
    then have "Suc k \<le> h" "h \<le> m" by (simp_all del: upt_Suc)
    with assms(4) have "h = Suc (h - 1)" "h - 1 < length bs" by simp_all
    then obtain j where "h = Suc j" "j < length bs" by blast
    then show "(case tree_get (c_blocks d) (of_nat h) of Some b \<Rightarrow> [b] | None \<Rightarrow> []) = [bs ! (h - 1)]"
      using apply_blocks_stored [OF assms(1,2), of j] by (simp add: get_block_def del: of_nat_Suc)
  qed
  also have "\<dots> = map (\<lambda>i. bs ! i) [k ..< m]"
    by (simp add: map_Suc_upt [symmetric] o_def del: upt_Suc)
  also have "\<dots> = take (m - k) (drop k bs)"
    using assms(4) by (simp add: list_eq_iff_nth_eq)
  finally show ?thesis by (simp add: get_blocks_def ends del: of_nat_Suc upt_Suc)
qed

lemma handle_blocks_valid:
  "apply_blocks bs c = Ok c' \<Longrightarrow> list_all (verify_hash p) bs \<Longrightarrow> handle_blocks p bs c = Ok c'"
  by (induction bs arbitrary: c) (auto simp: res_simps)

lemma sync_round_step:
  assumes run: "apply_blocks bs (genesis_chain p) = Ok d" and valid: "list_all (verify_hash p) bs"
    and room: "length bs + 101 < 2 ^ 64" and ours: "apply_blocks (take k bs) (genesis_chain p) = Ok c" and k: "k \<le> length bs"
  shows "\<exists>c'. sync_round p d c = Ok c' \<and> apply_blocks (take (k + 101) bs) (genesis_chain p) = Ok c'"
proof -
  have hd: "unat (chain_height d) = length bs"
    using chain_linked_apply_blocks [OF store_open_linked run] room by (simp add: genesis_chain_tip)
  have hc: "unat (chain_height c) = k"
    using chain_linked_apply_blocks [OF store_open_linked ours] room k by (simp add: genesis_chain_tip)
  show ?thesis
  proof (cases "k = length bs")
    case True
    with hd hc ours show ?thesis
      by (simp add: sync_round_def handshake_request_def Let_def word_less_nat_alt)
  next
    case False
    with k have lt: "k < length bs" by simp
    let ?m = "min (length bs) (k + 101)"
    have fr: "chain_height c + 1 = of_nat (Suc k)"
      using hc room lt by (intro unsigned_word_eqI [where 'a = nat]) (simp add: unat_add_no_wrap unat_of_nat_u64)
    have to: "min (chain_height d) (chain_height c + 1 + MAX_BLOCK_RANGE) = of_nat ?m"
      using hd hc room lt
      by (intro unsigned_word_eqI [where 'a = nat])
        (simp add: unat_min unat_add_no_wrap unat_of_nat_u64 MAX_BLOCK_RANGE_def)
    have bs: "get_blocks d (chain_height c + 1) (min (chain_height d) (chain_height c + 1 + MAX_BLOCK_RANGE))
        = take (?m - k) (drop k bs)"
      unfolding to unfolding fr using room lt by (intro get_blocks_stored [OF run]) simp_all
    have split: "take ?m bs = take k bs @ take (?m - k) (drop k bs)"
      using lt by (simp add: take_add [symmetric])
    have "\<exists>c'. apply_blocks (take ?m bs) (genesis_chain p) = Ok c'"
    proof -
      have "apply_blocks (take ?m bs @ drop ?m bs) (genesis_chain p) = Ok d" using run by simp
      then show ?thesis unfolding apply_blocks_append by (auto simp: res_simps)
    qed
    then obtain c' where c': "apply_blocks (take ?m bs) (genesis_chain p) = Ok c'" by blast
    then have rest: "apply_blocks (take (?m - k) (drop k bs)) c = Ok c'"
      unfolding split apply_blocks_append using ours by simp
    have "list_all (verify_hash p) (take (?m - k) (drop k bs))"
      using valid by (auto simp: list_all_iff dest: in_set_takeD in_set_dropD)
    with rest have "handle_blocks p (take (?m - k) (drop k bs)) c = Ok c'" by (rule handle_blocks_valid)
    moreover have "take (?m - k) (drop k bs) \<noteq> []" using lt by simp
    ultimately have "sync_round p d c = Ok c'"
      using hd hc lt by (simp add: sync_round_def handshake_request_def handle_get_blocks_def Let_def bs word_less_nat_alt)
    moreover have "take (k + 101) bs = take ?m bs" by (simp add: min_def)
    ultimately show ?thesis using c' by auto
  qed
qed

lemma sync_rounds_steps:
  assumes run: "apply_blocks bs (genesis_chain p) = Ok d" and valid: "list_all (verify_hash p) bs"
    and room: "length bs + 101 < 2 ^ 64"
  shows "apply_blocks (take k bs) (genesis_chain p) = Ok c \<Longrightarrow> k \<le> length bs \<Longrightarrow>
    \<exists>c'. sync_rounds p d n c = Ok c' \<and> apply_blocks (take (k + 101 * n) bs) (genesis_chain p) = Ok c'"
proof (induction n arbitrary: k c)
  case (Suc n)
  obtain c1 where c1: "sync_round p d c = Ok c1" "apply_blocks (take (k + 101) bs) (genesis_chain p) = Ok c1"
    using sync_round_step [OF run valid room Suc.prems] by blast
  have "take (min (length bs) (k + 101)) bs = take (k + 101) bs" by (simp add: min_def)
  then have "\<exists>c'. sync_rounds p d n c1 = Ok c' \<and>
      apply_blocks (take (min (length bs) (k + 101) + 101 * n) bs) (genesis_chain p) = Ok c'"
    using Suc.IH [of "min (length bs) (k + 101)" c1] c1(2) by simp
  moreover have "take (min (length bs) (k + 101) + 101 * n) bs = take (k + 101 * Suc n) bs"
    by (cases "length bs \<le> k + 101") (simp_all add: min_def algebra_simps)
  ultimately show ?case using c1(1) by (simp del: take_take)
qed simp

text \<open>
  C39. Catching up ends: a node whose chain is the first \<open>k\<close> blocks of an honest peer's chain reaches the peer's chain
  (every balance, nonce and block of it, the tip included) after as many announcements as there are started
  batches of 101 missing blocks, and each announcement brings it 101 blocks further or to the end.
\<close>

theorem sync_terminates:
  assumes "apply_blocks bs (genesis_chain p) = Ok d" and "list_all (verify_hash p) bs" "length bs + 101 < 2 ^ 64"
    and "apply_blocks (take k bs) (genesis_chain p) = Ok c" "k \<le> length bs"
  shows "sync_rounds p d ((length bs - k + 100) div 101) c = Ok d
     \<and> (\<exists>c'. sync_round p d c = Ok c' \<and> unat (chain_height c') = min (k + 101) (length bs))"
proof -
  let ?n = "(length bs - k + 100) div 101"
  obtain c' where c': "sync_rounds p d ?n c = Ok c'" "apply_blocks (take (k + 101 * ?n) bs) (genesis_chain p) = Ok c'"
    using sync_rounds_steps [OF assms(1-3) assms(4,5)] by blast
  have "length bs \<le> k + 101 * ?n" by linarith
  with c' assms(1) have reached: "sync_rounds p d ?n c = Ok d" by simp
  obtain c1 where c1: "sync_round p d c = Ok c1" "apply_blocks (take (k + 101) bs) (genesis_chain p) = Ok c1"
    using sync_round_step [OF assms] by blast
  have "unat (chain_height c1) = min (k + 101) (length bs)"
    using chain_linked_apply_blocks [OF store_open_linked c1(2)] assms(3) by (simp add: genesis_chain_tip min_def)
  with c1 reached show ?thesis by blast
qed

theorem sync_terminates_witness:
  "sync_rounds sample_primitives (commit_block synced_block (genesis_chain sample_primitives)) 1 (genesis_chain sample_primitives)
     = Ok (commit_block synced_block (genesis_chain sample_primitives))"
  using sync_terminates [of "[synced_block]" sample_primitives "commit_block synced_block (genesis_chain sample_primitives)" 0
      "genesis_chain sample_primitives"]
  by (simp add: synced_block_ok)

section \<open>Confirmed elsewhere, still pending here\<close>

lemma of_nat_offset_neq:
  assumes "j < n" "n + i < 2 ^ 64"
  shows "x + of_nat j \<noteq> (x + of_nat n + of_nat i :: u64)"
proof
  assume "x + of_nat j = (x + of_nat n + of_nat i :: u64)"
  then have "(of_nat j :: u64) = of_nat (n + i)" by (simp add: add.assoc)
  then have "unat (of_nat j :: u64) = unat (of_nat (n + i) :: u64)" by (rule arg_cong)
  with assms show False by (simp add: unat_of_nat_u64 del: of_nat_add)
qed

text \<open>
  A node that learns of a confirmed transaction from a peer cannot produce blocks while the transaction is in its own
  mempool: applying a gossiped block does not touch the mempool, so the next selection still holds the
  transaction, its nonce is spent, the store rejects the node's own block and the tick changes nothing.
\<close>

lemma gossiped_confirmation_stalls:
  assumes "apply_block (pc_store ctx) b = Ok c'" and "verify_hash p b"
    and "tx \<in> set (b_transactions b)" "is_user_tx tx" "length (b_transactions b) + 500 < 2 ^ 64"
    and "tx \<in> set (take_for_block order (MAX_TXS_PER_BLOCK - 1) (pc_mempool ctx))"
  shows "handle_msg p env (NewBlock b) ctx = Ok (ctx\<lparr>pc_store := c'\<rparr>, [])
     \<and> block_producer_tick p fmt w order now gen c' (pc_mempool ctx) \<in> {Ok (c', pc_mempool ctx, None), Panic}"
proof -
  let ?c = "pc_store ctx" and ?a = "tx_from tx"
  let ?n = "user_count (b_transactions b) ?a"
  obtain st where h: "b_height b = chain_height ?c + 1" and run: "res_fold (check_tx ?c) (b_transactions b) ([], []) = Ok st"
    using assms(1) by (auto elim: apply_block_OkE)
  have handled: "handle_msg p env (NewBlock b) ctx = Ok (ctx\<lparr>pc_store := c'\<rparr>, [])"
    using assms(1,2) h by (simp add: handle_new_block_def)
  have "tx \<in> set (filter (sent_by ?a) (b_transactions b))" using assms(3,4) by (simp add: sent_by_def)
  then have "tx_nonce tx \<in> set (map tx_nonce (filter (sent_by ?a) (b_transactions b)))" by simp
  then obtain j where j: "j < ?n" "tx_nonce tx = get_nonce ?c ?a + of_nat j"
    unfolding check_pass_nonce_list [OF run] by auto
  have n: "?n + 500 < 2 ^ 64"
    unfolding user_count_sent_by
    using le_less_trans [OF add_right_mono [OF length_filter_le] assms(5)] .
  have "\<not> is_ok (apply_block c' b')" if prod: "produce_block p fmt w order now gen c' (pc_mempool ctx) = Ok b'" for b'
  proof
    assume "is_ok (apply_block c' b')"
    then obtain st' where run': "res_fold (check_tx c') (b_transactions b') ([], []) = Ok st'"
      by (auto simp: is_ok_iff elim: apply_block_OkE)
    note f = produce_block_Ok [OF prod]
    have "length (b_transactions b') \<le> 500"
      by (simp add: f(4) take_for_block_def MAX_TXS_PER_BLOCK_def)
    then have le: "user_count (b_transactions b') ?a \<le> 500"
      unfolding user_count_sent_by by (rule order_trans [OF length_filter_le])
    have "tx \<in> set (filter (sent_by ?a) (b_transactions b'))" using assms(4,6) by (simp add: f(4) sent_by_def)
    then have "tx_nonce tx \<in> set (map tx_nonce (filter (sent_by ?a) (b_transactions b')))" by simp
    then obtain i where i: "i < user_count (b_transactions b') ?a" "tx_nonce tx = get_nonce c' ?a + of_nat i"
      unfolding check_pass_nonce_list [OF run'] by auto
    with apply_block_nonce [OF assms(1), of ?a] have "tx_nonce tx = get_nonce ?c ?a + of_nat ?n + of_nat i" by simp
    with j of_nat_offset_neq [OF j(1), of i "get_nonce ?c ?a"] n le i(1) show False by simp
  qed
  then have "block_producer_tick p fmt w order now gen c' (pc_mempool ctx) \<in> {Ok (c', pc_mempool ctx, None), Panic}"
    by (auto simp: block_producer_tick_def Let_def split: res.splits)
  with handled show ?thesis by blast
qed

lemma gossiped_confirmation_stalls_sample:
  "\<exists>c'. apply_block (genesis_chain sample_primitives) (sealed_block [sample_tx]) = Ok c'
     \<and> block_producer_tick sample_primitives (\<lambda>_ _. []) sample_wallet (\<lambda>xs. xs) 5 (Ok sample_proof) c'
           [(tx_id sample_tx, sample_tx)]
         \<in> {Ok (c', [(tx_id sample_tx, sample_tx)], None), Panic}"
proof -
  let ?ctx = "(fresh_context sample_primitives [] [])\<lparr>pc_mempool := [(tx_id sample_tx, sample_tx)]\<rparr>"
  obtain st where "check_tx (genesis_chain sample_primitives) sample_tx ([], []) = Ok st"
    using sample_check by blast
  then have run: "apply_block (pc_store ?ctx) (sealed_block [sample_tx])
      = Ok (commit_block (sealed_block [sample_tx]) (genesis_chain sample_primitives))"
    by (simp add: fresh_context_def sealed_block_applies)
  have sel: "sample_tx \<in> set (take_for_block (\<lambda>xs. xs) (MAX_TXS_PER_BLOCK - 1) (pc_mempool ?ctx))"
    by (simp add: take_for_block_def tree_values_def MAX_TXS_PER_BLOCK_def)
  have "is_user_tx sample_tx" by (simp add: is_user_tx_def sample_tx_def)
  with gossiped_confirmation_stalls [OF run _ _ _ _ sel, where ?p = sample_primitives] run show ?thesis
    by (auto simp: fresh_context_def)
qed

end
