(* ===== verification/Connections.thy ===== *)
theory Connections
  imports Prelude
begin

text \<open>
  The connection bookkeeping of \<^verbatim>\<open>src/src/p2p.rs\<close>: which peers are connected, and when an address may be dialled
  again. Each lock-protected section is one step; \<open>now\<close> is the clock reading of the step.
\<close>

definition MAX_PEERS :: nat where "MAX_PEERS = 50"
definition DIAL_BACKOFF_BASE_SECS :: u64 where "DIAL_BACKOFF_BASE_SECS = 5"
definition DIAL_BACKOFF_MAX_SECS :: u64 where "DIAL_BACKOFF_MAX_SECS = 300"

record dial_state =
  ds_failures :: u32
  ds_next_attempt_ms :: u64
  ds_in_flight :: bool

record p2p =
  p_connected_peers :: "string list"
  p_dial_state :: "(string, dial_state) tree"

definition fresh_dial :: dial_state where
  "fresh_dial = \<lparr>ds_failures = 0, ds_next_attempt_ms = 0, ds_in_flight = False\<rparr>"

definition p2p_new :: p2p where
  "p2p_new = \<lparr>p_connected_peers = [], p_dial_state = []\<rparr>"

definition dial_entry :: "string \<Rightarrow> p2p \<Rightarrow> dial_state" where
  "dial_entry addr p = (case tree_get (p_dial_state p) addr of Some e \<Rightarrow> e | None \<Rightarrow> fresh_dial)"

definition set_dial :: "string \<Rightarrow> dial_state \<Rightarrow> p2p \<Rightarrow> p2p" where
  "set_dial addr e p = p\<lparr>p_dial_state := tree_insert addr e (p_dial_state p)\<rparr>"

definition reserve_dial_slot :: "u64 \<Rightarrow> string \<Rightarrow> p2p \<Rightarrow> bool \<times> p2p" where
  "reserve_dial_slot now addr p =
     (if addr \<in> set (p_connected_peers p) then (False, p)
      else let entry = dial_entry addr p in
        if ds_in_flight entry \<or> now < ds_next_attempt_ms entry then (False, set_dial addr entry p)
        else (True, set_dial addr (entry\<lparr>ds_in_flight := True\<rparr>) p))"

definition mark_dial_success :: "string \<Rightarrow> p2p \<Rightarrow> p2p" where
  "mark_dial_success addr p = set_dial addr fresh_dial p"

definition backoff_secs :: "u32 \<Rightarrow> u64" where
  "backoff_secs failures =
     min (saturating_mul DIAL_BACKOFF_BASE_SECS (push_bit (unat (min failures 8)) 1)) DIAL_BACKOFF_MAX_SECS"

definition mark_dial_failure :: "u64 \<Rightarrow> string \<Rightarrow> p2p \<Rightarrow> p2p" where
  "mark_dial_failure now addr p =
     (let entry = dial_entry addr p; n = saturating_add (ds_failures entry) 1
      in set_dial addr \<lparr>ds_failures = n,
           ds_next_attempt_ms = saturating_add now (saturating_mul (backoff_secs n) 1000), ds_in_flight = False\<rparr> p)"

text \<open>The first and the last lines of \<open>handle\<close>.\<close>

definition register_peer :: "string \<Rightarrow> p2p \<Rightarrow> bool \<times> p2p" where
  "register_peer addr p =
     (if MAX_PEERS \<le> length (p_connected_peers p) then (False, p)
      else if addr \<in> set (p_connected_peers p) then (False, p)
      else (True, p\<lparr>p_connected_peers := p_connected_peers p @ [addr]\<rparr>))"

definition unregister_peer :: "string \<Rightarrow> p2p \<Rightarrow> p2p" where
  "unregister_peer addr p = p\<lparr>p_connected_peers := filter (\<lambda>q. q \<noteq> addr) (p_connected_peers p)\<rparr>"

section \<open>Reachable states\<close>

inductive p2p_step :: "p2p \<Rightarrow> p2p \<Rightarrow> bool" where
  reserve: "p2p_step p (snd (reserve_dial_slot now addr p))"
| success: "p2p_step p (mark_dial_success addr p)"
| failure: "p2p_step p (mark_dial_failure now addr p)"
| register: "p2p_step p (snd (register_peer addr p))"
| unregister: "p2p_step p (unregister_peer addr p)"

definition p2p_ok :: "p2p \<Rightarrow> bool" where
  "p2p_ok p \<longleftrightarrow> length (p_connected_peers p) \<le> MAX_PEERS \<and> distinct (p_connected_peers p)"

lemma p2p_step_ok: "p2p_step p q \<Longrightarrow> p2p_ok p \<Longrightarrow> p2p_ok q"
  by (induction rule: p2p_step.induct)
    (auto simp: p2p_ok_def reserve_dial_slot_def mark_dial_success_def mark_dial_failure_def register_peer_def
      unregister_peer_def set_dial_def Let_def intro: order_trans [OF length_filter_le])

lemma p2p_reachable_ok: "p2p_step\<^sup>*\<^sup>* p2p_new p \<Longrightarrow> p2p_ok p"
proof (induction rule: rtranclp_induct)
  case base
  show ?case by (simp add: p2p_ok_def p2p_new_def)
qed (rule p2p_step_ok)

section \<open>Backoff\<close>

fun fail_times :: "nat \<Rightarrow> u64 \<Rightarrow> string \<Rightarrow> p2p \<Rightarrow> p2p" where
  "fail_times 0 now addr p = p"
| "fail_times (Suc n) now addr p = mark_dial_failure now addr (fail_times n now addr p)"

lemma dial_entry_set [simp]: "dial_entry a (set_dial b e p) = (if a = b then e else dial_entry a p)"
  by (simp add: dial_entry_def set_dial_def tree_simps)

lemma set_dial_frame [simp]: "p_connected_peers (set_dial a e p) = p_connected_peers p"
  by (simp add: set_dial_def)

lemma fail_times_frame [simp]: "p_connected_peers (fail_times n now addr p) = p_connected_peers p"
  by (induction n) (simp_all add: mark_dial_failure_def Let_def)

lemma unat_backoff: "unat (backoff_secs f) = min (5 * 2 ^ min (unat f) 8) 300"
proof -
  have m: "unat (min f 8) = min (unat f) 8" by (simp add: min_def word_le_nat_alt)
  have "(2::nat) ^ min (unat f) 8 \<le> 2 ^ 8" by (intro power_increasing) simp_all
  then have "(2::nat) ^ min (unat f) 8 < 2 ^ 64" by (rule le_less_trans) simp
  then have "unat (of_nat (2 ^ min (unat f) 8) :: u64) = 2 ^ min (unat f) 8" by (rule unat_of_nat_u64)
  then have "unat (push_bit (min (unat f) 8) (1::u64)) = 2 ^ min (unat f) 8"
    by (simp add: push_bit_eq_mult)
  moreover have "unat (min a b :: u64) = min (unat a) (unat b)" for a b by (simp add: min_def word_le_nat_alt)
  moreover have "5 * 2 ^ min (unat f) 8 < (2 ^ 64 :: nat)"
    using \<open>(2::nat) ^ min (unat f) 8 \<le> 2 ^ 8\<close> by simp
  ultimately show ?thesis
    by (simp add: backoff_secs_def m DIAL_BACKOFF_BASE_SECS_def DIAL_BACKOFF_MAX_SECS_def unat_saturating_mul)
qed

lemma fail_times_entry:
  assumes "dial_entry addr p = fresh_dial" "0 < k" "k < 2 ^ 32"
  shows "dial_entry addr (fail_times k now addr p) = \<lparr>ds_failures = of_nat k,
    ds_next_attempt_ms = saturating_add now (saturating_mul (backoff_secs (of_nat k)) 1000), ds_in_flight = False\<rparr>"
proof -
  have count: "k < 2 ^ 32 \<Longrightarrow> ds_failures (dial_entry addr (fail_times k now addr p)) = of_nat k" for k
  proof (induction k)
    case (Suc k)
    have "unat (saturating_add (of_nat k :: u32) 1) = Suc k"
      using Suc.prems by (simp add: unat_saturating_add unat_of_nat take_bit_nat_eq_self)
    moreover have "unat (of_nat (Suc k) :: u32) = Suc k"
      using Suc.prems by (simp only: unat_of_nat) (simp add: take_bit_nat_eq_self)
    ultimately have "saturating_add (of_nat k :: u32) 1 = of_nat (Suc k)"
      by (intro unsigned_word_eqI [where 'a = nat]) (simp del: of_nat_Suc)
    with Suc show ?case by (simp add: mark_dial_failure_def Let_def)
  qed (simp add: assms(1) fresh_dial_def)
  from assms(2) obtain j where k: "k = Suc j" by (cases k) auto
  from count [of k] assms(3) show ?thesis
    by (simp add: k mark_dial_failure_def Let_def del: of_nat_Suc)
qed

text \<open>
  Dialling backs off and stays exclusive: after \<open>k\<close> failures in a row at time \<open>now\<close> the address may be dialled again
  exactly from \<open>5 * 2^min k 8\<close> seconds, at most 300, later; the grant is exclusive until the attempt ends; and in every
  state the connection table reaches there are at most fifty connected peers, all different.
\<close>

lemma dial_backoff:
  assumes "p2p_step\<^sup>*\<^sup>* p2p_new p" and "dial_entry addr p = fresh_dial" "addr \<notin> set (p_connected_peers p)"
    and "0 < k" "k < 2 ^ 32" "unat now + 300000 < 2 ^ 64"
  shows "fst (reserve_dial_slot t addr (fail_times k now addr p))
           = (unat now + 1000 * min (5 * 2 ^ min k 8) 300 \<le> unat t)
     \<and> (fst (reserve_dial_slot t addr p) \<and> \<not> fst (reserve_dial_slot t' addr (snd (reserve_dial_slot t addr p))))
     \<and> length (p_connected_peers p) \<le> MAX_PEERS \<and> distinct (p_connected_peers p)"
proof -
  have "unat (of_nat k :: u32) = k"
    using assms(5) by (simp add: unat_of_nat take_bit_nat_eq_self)
  then have secs: "unat (backoff_secs (of_nat k)) = min (5 * 2 ^ min k 8) 300" by (simp add: unat_backoff)
  have "min (5 * 2 ^ min k 8) 300 \<le> (300 :: nat)" by simp
  then have "unat (saturating_add now (saturating_mul (backoff_secs (of_nat k)) 1000))
      = unat now + 1000 * min (5 * 2 ^ min k 8) 300"
    using assms(6) by (simp add: unat_saturating_add unat_saturating_mul secs min_def)
  then have 1: "fst (reserve_dial_slot t addr (fail_times k now addr p))
      = (unat now + 1000 * min (5 * 2 ^ min k 8) 300 \<le> unat t)"
    using assms(3) by (auto simp: reserve_dial_slot_def Let_def fail_times_entry [OF assms(2,4,5)] word_less_nat_alt)
  have 2: "fst (reserve_dial_slot t addr p)" "\<not> fst (reserve_dial_slot t' addr (snd (reserve_dial_slot t addr p)))"
    using assms(2,3) by (simp_all add: reserve_dial_slot_def Let_def fresh_dial_def)
  show ?thesis using 1 2 p2p_reachable_ok [OF assms(1)] by (simp add: p2p_ok_def)
qed

lemma dial_backoff_sample:
  "fst (reserve_dial_slot 20000 ''a:1'' (fail_times 1 10000 ''a:1'' p2p_new))
   \<and> \<not> fst (reserve_dial_slot 19999 ''a:1'' (fail_times 1 10000 ''a:1'' p2p_new))"
  using dial_backoff [OF rtranclp.rtrancl_refl, of "''a:1''" 1 10000 20000 0]
    dial_backoff [OF rtranclp.rtrancl_refl, of "''a:1''" 1 10000 19999 0]
  by (simp add: p2p_new_def dial_entry_def tree_simps)

end
