(* ===== verification/Memory.thy ===== *)
theory Memory
  imports Access "HOL-Library.Countable"
begin

text \<open>
  Encrypted agent memory of \<^verbatim>\<open>src/src/api.rs\<close>: the key derivation, the stream cipher, the envelope, and the handlers
  that store and recall a memory. Compression, base64 and the JSON printer and parser are parameters; the random nonce, the
  memory's id and the clock are arguments.
\<close>

record memory_codec =
  zstd_encode :: "bytes \<Rightarrow> bytes option"
  zstd_decode :: "bytes \<Rightarrow> bytes option"
  base64_encode :: "bytes \<Rightarrow> string"
  base64_decode :: "string \<Rightarrow> bytes option"
  json_to_vec :: "json \<Rightarrow> bytes"
  json_from_slice :: "bytes \<Rightarrow> json option"

section \<open>Cipher\<close>

definition derive_memory_key_material :: "primitives \<Rightarrow> string \<Rightarrow> string \<Rightarrow> string \<Rightarrow> string option \<Rightarrow> bytes" where
  "derive_memory_key_material p wallet key sensitivity access_token =
     sha256 p (wallet @ '':'' @ key @ '':'' @ sensitivity @ '':'' @
       (if sensitivity = ''sensitive''
        then (case access_token of Some token \<Rightarrow> token | None \<Rightarrow> ''sensitive-missing-token'')
        else ''nonsensitive-shared-key''))"

definition xor_byte :: "char \<Rightarrow> char \<Rightarrow> char" where
  "xor_byte a b = char_of (xor (of_char a) (of_char b) :: nat)"

text \<open>One block of 32 key-stream bytes per step; the counter saturates.\<close>

function xor_stream :: "primitives \<Rightarrow> bytes \<Rightarrow> bytes \<Rightarrow> u64 \<Rightarrow> bytes \<Rightarrow> bytes" where
  "xor_stream p key nonce counter [] = []"
| "xor_stream p key nonce counter (c # cs) =
     map2 xor_byte (take 32 (c # cs)) (blake3 p (key @ nonce @ le64 counter))
       @ xor_stream p key nonce (saturating_add counter 1) (drop 32 (c # cs))"
  by pat_completeness auto
termination by (relation "measure (\<lambda>(p, key, nonce, counter, data). length data)") auto

definition xor_stream_cipher :: "primitives \<Rightarrow> bytes \<Rightarrow> bytes \<Rightarrow> bytes \<Rightarrow> bytes" where
  "xor_stream_cipher p data key nonce = xor_stream p key nonce 0 data"

record memory_envelope =
  me_ciphertext_b64 :: string
  me_nonce_b64 :: string
  me_payload_hash :: string
  me_compressed_bytes :: nat
  me_original_bytes :: nat

definition encrypt_memory_payload ::
    "primitives \<Rightarrow> memory_codec \<Rightarrow> bytes \<Rightarrow> bytes \<Rightarrow> bytes \<Rightarrow> (memory_envelope, api_error) res" where
  "encrypt_memory_payload p k nonce payload key_material =
     (case zstd_encode k payload of
        None \<Rightarrow> Err Internal
      | Some compressed \<Rightarrow>
          Ok \<lparr>me_ciphertext_b64 = base64_encode k (xor_stream_cipher p compressed key_material nonce),
              me_nonce_b64 = base64_encode k nonce, me_payload_hash = hex_encode p (sha256 p payload),
              me_compressed_bytes = length compressed, me_original_bytes = length payload\<rparr>)"

definition decrypt_memory_payload :: "primitives \<Rightarrow> memory_codec \<Rightarrow> json \<Rightarrow> bytes \<Rightarrow> (bytes, api_error) res" where
  "decrypt_memory_payload p k envelope key_material =
     (case get_str ''ciphertext_b64'' envelope of
        None \<Rightarrow> Err Internal
      | Some c64 \<Rightarrow>
          (case get_str ''nonce_b64'' envelope of
             None \<Rightarrow> Err Internal
           | Some n64 \<Rightarrow>
               (case base64_decode k c64 of
                  None \<Rightarrow> Err Bad_request
                | Some ciphertext \<Rightarrow>
                    (case base64_decode k n64 of
                       None \<Rightarrow> Err Bad_request
                     | Some nonce \<Rightarrow>
                         (case zstd_decode k (xor_stream_cipher p ciphertext key_material nonce) of
                            None \<Rightarrow> Err Internal
                          | Some payload \<Rightarrow> Ok payload)))))"

section \<open>Handlers\<close>

record memory_ingest_req =
  mi_agent_wallet :: string
  mi_key :: string
  mi_input :: json
  mi_agent_action :: "string option"
  mi_sensitivity :: "string option"
  mi_tags :: "string list option"
  mi_metadata :: "json option"

definition absorbed_json :: "memory_ingest_req \<Rightarrow> string \<Rightarrow> json" where
  "absorbed_json req now =
     json_object [(''input'', mi_input req),
       (''agent_action'', JString (case mi_agent_action req of Some a \<Rightarrow> a | None \<Rightarrow> ''unspecified_action'')),
       (''metadata'', (case mi_metadata req of Some m \<Rightarrow> m | None \<Rightarrow> JNull)), (''absorbed_at'', JString now)]"

definition stored_json :: "string \<Rightarrow> string \<Rightarrow> string \<Rightarrow> string \<Rightarrow> string list \<Rightarrow> memory_envelope \<Rightarrow> string \<Rightarrow> json" where
  "stored_json memory_id wallet key sensitivity tags e now =
     json_object [(''memory_id'', JString memory_id), (''agent_wallet'', JString wallet), (''key'', JString key),
       (''sensitivity'', JString sensitivity), (''tags'', JArray (map JString tags)),
       (''ciphertext_b64'', JString (me_ciphertext_b64 e)), (''nonce_b64'', JString (me_nonce_b64 e)),
       (''payload_hash'', JString (me_payload_hash e)), (''compressed_bytes'', JPosInt (of_nat (me_compressed_bytes e))),
       (''original_bytes'', JPosInt (of_nat (me_original_bytes e))), (''requires_hash_pairing'', JBool (sensitivity = ''sensitive'')),
       (''pipeline'', JArray (map JString [''input'', ''agent_action'', ''memory_absorbed'', ''memory_compressed'',
          ''memory_encrypted'', ''memory_stored''])),
       (''stored_at'', JString now)]"

text \<open>The answer of a successful call is the stored record's id; its other fields repeat the record.\<close>

definition autonomo_memory_ingest ::
    "primitives \<Rightarrow> memory_codec \<Rightarrow> bytes \<Rightarrow> string \<Rightarrow> string \<Rightarrow> headers \<Rightarrow> memory_ingest_req \<Rightarrow> agent_store
       \<Rightarrow> (agent_store, api_error) res" where
  "autonomo_memory_ingest p k nonce memory_id now h req s =
     (let wallet = trim (mi_agent_wallet req); key = trim (mi_key req) in
      if wallet = [] \<or> key = [] then Err Bad_request
      else let sensitivity = normalize_sensitivity (mi_sensitivity req) in
        if sensitivity = ''sensitive'' \<and> \<not> can_read_sensitive_scope s h (Some wallet) then Err Forbidden
        else let ctx = access_context_from_headers h;
                 key_material = derive_memory_key_material p wallet key sensitivity (ctx_access_token ctx);
                 payload = json_to_vec k (absorbed_json req now)
             in res_bind (encrypt_memory_payload p k nonce payload key_material) (\<lambda>e.
                  Ok (put_secure_memory (wallet @ '':'' @ key)
                        (stored_json memory_id wallet key sensitivity (case mi_tags req of Some ts \<Rightarrow> ts | None \<Rightarrow> []) e now) s)))"

record recalled =
  rc_sensitivity :: string
  rc_memory_id :: json
  rc_value :: json
  rc_agent_action :: json
  rc_metadata :: json

definition field_or_null :: "string \<Rightarrow> json \<Rightarrow> json" where
  "field_or_null k v = (case json_get k v of Some x \<Rightarrow> x | None \<Rightarrow> JNull)"

text \<open>A legacy record has only a value.\<close>

definition autonomo_memory_recall ::
    "primitives \<Rightarrow> memory_codec \<Rightarrow> headers \<Rightarrow> string \<Rightarrow> string \<Rightarrow> agent_store \<Rightarrow> (recalled, api_error) res" where
  "autonomo_memory_recall p k h agent_wallet key s =
     (let storage_key = agent_wallet @ '':'' @ key in
      case get_secure_memory storage_key s of
        Some secure \<Rightarrow>
          let sensitivity = (case get_str ''sensitivity'' secure of Some x \<Rightarrow> x | None \<Rightarrow> CLEARANCE_INTERNAL) in
          if sensitivity = ''sensitive'' \<and> \<not> can_read_sensitive_scope s h (Some agent_wallet) then Err Forbidden
          else let ctx = access_context_from_headers h;
                   key_material = derive_memory_key_material p agent_wallet key sensitivity (ctx_access_token ctx)
               in res_bind (decrypt_memory_payload p k secure key_material) (\<lambda>decrypted.
                    (case json_from_slice k decrypted of
                       None \<Rightarrow> Err Internal
                     | Some absorbed \<Rightarrow>
                         Ok \<lparr>rc_sensitivity = sensitivity, rc_memory_id = field_or_null ''memory_id'' secure,
                             rc_value = field_or_null ''input'' absorbed, rc_agent_action = field_or_null ''agent_action'' absorbed,
                             rc_metadata = field_or_null ''metadata'' absorbed\<rparr>))
      | None \<Rightarrow>
          (case get_knowledge storage_key s of
             Some d \<Rightarrow> Ok \<lparr>rc_sensitivity = CLEARANCE_INTERNAL, rc_memory_id = JNull, rc_value = field_or_null ''value'' d,
                           rc_agent_action = JNull, rc_metadata = JNull\<rparr>
           | None \<Rightarrow> Err Not_found))"

section \<open>Correctness\<close>

text \<open>
  What the codecs promise: decompression and base64 undo their inverses, and the JSON parser reads back what the printer wrote for
  values without floating point numbers.
\<close>

fun float_free :: "json \<Rightarrow> bool" where
  "float_free (JFloat x) = False"
| "float_free (JArray vs) = list_all float_free vs"
| "float_free (JObject fs) = list_all (\<lambda>(k, v). float_free v) fs"
| "float_free v = True"

definition codec_laws :: "memory_codec \<Rightarrow> bool" where
  "codec_laws k \<longleftrightarrow> (\<forall>x. \<exists>y. zstd_encode k x = Some y \<and> zstd_decode k y = Some x)
     \<and> (\<forall>x. base64_decode k (base64_encode k x) = Some x)
     \<and> (\<forall>v. float_free v \<longrightarrow> json_from_slice k (json_to_vec k v) = Some v)"

lemma xor_byte_cancel [simp]: "xor_byte (xor_byte a b) b = a"
proof -
  have "(xor (of_char a) (of_char b) :: nat) mod 256 = xor (of_char a) (of_char b)"
    using take_bit_xor [of 8 "of_char a :: nat" "of_char b"] by (simp add: take_bit_eq_mod)
  then have "(of_char (xor_byte a b) :: nat) = xor (of_char a) (of_char b)" by (simp add: xor_byte_def)
  then show ?thesis by (simp add: xor_byte_def [of _ b] xor.assoc)
qed

lemma map2_xor_cancel: "length xs \<le> length ys \<Longrightarrow> map2 xor_byte (map2 xor_byte xs ys) ys = xs"
  by (simp add: list_eq_iff_nth_eq)

lemma xor_stream_unfold:
  "xor_stream p key nonce counter d = map2 xor_byte (take 32 d) (blake3 p (key @ nonce @ le64 counter))
     @ xor_stream p key nonce (saturating_add counter 1) (drop 32 d)"
  by (cases d) simp_all

lemma xor_stream_cancel:
  "blake3_size p \<Longrightarrow> xor_stream p key nonce counter (xor_stream p key nonce counter d) = d"
proof (induction p key nonce counter d rule: xor_stream.induct)
  case (2 p key nonce counter c cs)
  let ?d = "c # cs" and ?ks = "blake3 p (key @ nonce @ le64 counter)" and ?next = "xor_stream p key nonce (saturating_add counter 1)"
  let ?a = "map2 xor_byte (take 32 ?d) ?ks" and ?r = "?next (drop 32 ?d)"
  have ks: "length ?ks = 32" using "2.prems" by (simp add: blake3_size_def)
  have parts: "take 32 (?a @ ?r) = ?a \<and> drop 32 (?a @ ?r) = ?r"
  proof (cases "length ?d \<le> 32")
    case True
    then have "drop 32 ?d = []" by (rule drop_all)
    with True ks show ?thesis by simp
  next
    case False
    then have "length ?a = 32" using ks by simp
    then show ?thesis by simp
  qed
  have "xor_stream p key nonce counter (xor_stream p key nonce counter ?d) = xor_stream p key nonce counter (?a @ ?r)"
    by (simp only: xor_stream.simps)
  also have "\<dots> = map2 xor_byte ?a ?ks @ ?next ?r"
    by (subst xor_stream_unfold) (simp only: parts)
  also have "\<dots> = take 32 ?d @ drop 32 ?d"
    using 2 ks by (simp add: map2_xor_cancel del: take_Suc_Cons drop_Suc_Cons)
  finally show ?case by simp
qed simp

lemma cipher_involutive: "blake3_size p \<Longrightarrow> xor_stream_cipher p (xor_stream_cipher p d key nonce) key nonce = d"
  by (simp add: xor_stream_cipher_def xor_stream_cancel)

lemma list_all_tree_insert: "list_all P t \<Longrightarrow> P (key, v) \<Longrightarrow> list_all P (tree_insert key v t)"
  using set_tree_insert_subset [of key v t] unfolding list_all_iff by blast

lemma list_all_fold_insert:
  "list_all P t \<Longrightarrow> list_all P fs \<Longrightarrow> list_all P (fold (\<lambda>(key, v). tree_insert key v) fs t)"
  by (induction fs arbitrary: t) (auto simp: list_all_tree_insert)

lemma float_free_object: "list_all (\<lambda>(key, v). float_free v) fs \<Longrightarrow> float_free (json_object fs)"
  unfolding json_object_def float_free.simps by (rule list_all_fold_insert) simp_all

lemma decrypt_encrypt:
  assumes "codec_laws k" "blake3_size p" "encrypt_memory_payload p k nonce payload key = Ok e"
    and "get_str ''ciphertext_b64'' env = Some (me_ciphertext_b64 e)" "get_str ''nonce_b64'' env = Some (me_nonce_b64 e)"
  shows "decrypt_memory_payload p k env key = Ok payload"
proof -
  obtain y where y: "zstd_encode k payload = Some y" "zstd_decode k y = Some payload"
    using assms(1) unfolding codec_laws_def by blast
  have b64: "base64_decode k (base64_encode k x) = Some x" for x using assms(1) by (simp add: codec_laws_def)
  show ?thesis
    using assms(3-5) y by (auto simp: encrypt_memory_payload_def decrypt_memory_payload_def b64 cipher_involutive [OF assms(2)])
qed

lemma stored_json_fields:
  "get_str ''ciphertext_b64'' (stored_json i w key sens tags e now) = Some (me_ciphertext_b64 e)"
  "get_str ''nonce_b64'' (stored_json i w key sens tags e now) = Some (me_nonce_b64 e)"
  "get_str ''sensitivity'' (stored_json i w key sens tags e now) = Some sens"
  "field_or_null ''memory_id'' (stored_json i w key sens tags e now) = JString i"
  by (simp_all add: stored_json_def get_str_def field_or_null_def)

lemma absorbed_json_fields:
  "field_or_null ''input'' (absorbed_json req now) = mi_input req"
  "field_or_null ''agent_action'' (absorbed_json req now)
     = JString (case mi_agent_action req of Some a \<Rightarrow> a | None \<Rightarrow> ''unspecified_action'')"
  "field_or_null ''metadata'' (absorbed_json req now) = (case mi_metadata req of Some m \<Rightarrow> m | None \<Rightarrow> JNull)"
  by (simp_all add: absorbed_json_def field_or_null_def)

lemma profile_put_memory: "get_access_profile w (put_secure_memory key d s) = get_access_profile w s"
  by (simp add: put_secure_memory_def get_access_profile_def)

lemma authorized_put_memory [simp]:
  "is_mission_control_authorized (put_secure_memory key d s) h w = is_mission_control_authorized s h w"
  unfolding is_mission_control_authorized_def profile_put_memory ..


section \<open>A concrete instance\<close>

instance json :: countable
  by countable_datatype

definition sample_codec :: memory_codec where
  "sample_codec = \<lparr>zstd_encode = Some, zstd_decode = Some, base64_encode = (\<lambda>b. b), base64_decode = Some,
     json_to_vec = (\<lambda>v. replicate (to_nat v) (CHR 0x00)), json_from_slice = (\<lambda>b. Some (from_nat (length b)))\<rparr>"

lemma sample_codec_laws: "codec_laws sample_codec"
  by (simp add: codec_laws_def sample_codec_def)

definition sample_memory :: memory_ingest_req where
  "sample_memory = \<lparr>mi_agent_wallet = ''w'', mi_key = ''00'', mi_input = JString ''seen'', mi_agent_action = None,
     mi_sensitivity = None, mi_tags = None, mi_metadata = None\<rparr>"

lemma sample_sensitivity: "normalize_sensitivity None = ''internal''"
  by code_simp


end
