(* ===== verification/RateLimit.thy ===== *)
theory RateLimit
  imports Access Machine
begin

text \<open>
  The per-client rate limiter of \<^verbatim>\<open>src/src/rate_limit.rs\<close>: one counter and window start per client address, the
  background clean-up, and the middleware that decides which client a request counts for. Instants are nanoseconds of the monotonic
  clock; the whole seconds between two of them are compared, as the code does.
\<close>

record rate_limiter =
  rl_entries :: "(string, u64 \<times> nat) tree"
  rl_max_requests :: u64
  rl_window_secs :: u64

definition rate_limiter_new :: "u64 \<Rightarrow> u64 \<Rightarrow> rate_limiter" where
  "rate_limiter_new max_requests window_secs =
     \<lparr>rl_entries = [], rl_max_requests = max_requests, rl_window_secs = window_secs\<rparr>"

definition elapsed_secs :: "nat \<Rightarrow> nat \<Rightarrow> nat" where
  "elapsed_secs now start = (now - start) div 1000000000"

definition rl_check :: "string \<Rightarrow> nat \<Rightarrow> rate_limiter \<Rightarrow> bool \<times> rate_limiter" where
  "rl_check ip now l =
     (let (count0, start0) = (case tree_get (rl_entries l) ip of Some e \<Rightarrow> e | None \<Rightarrow> (0, now));
          (cnt, start) = (if unat (rl_window_secs l) \<le> elapsed_secs now start0 then (0, now) else (count0, start0))
      in if rl_max_requests l \<le> cnt then (False, l\<lparr>rl_entries := tree_insert ip (cnt, start) (rl_entries l)\<rparr>)
         else (True, l\<lparr>rl_entries := tree_insert ip (cnt + 1, start) (rl_entries l)\<rparr>))"

definition cleanup_tick :: "nat \<Rightarrow> rate_limiter \<Rightarrow> rate_limiter" where
  "cleanup_tick now l =
     l\<lparr>rl_entries := filter (\<lambda>(ip, cnt, start). elapsed_secs now start < unat (rl_window_secs l * 2)) (rl_entries l)\<rparr>"

section \<open>Which client a request counts for\<close>

definition parse_ip_addr :: "string \<Rightarrow> ip_addr option" where
  "parse_ip_addr s =
     parse_all (case read_ipv4_addr s of
        Some ((a, b, c, d), rest) \<Rightarrow> Some (V4 a b c d, rest)
      | None \<Rightarrow> (case read_ipv6_addr s of Some (segs, rest) \<Rightarrow> Some (V6 segs, rest) | None \<Rightarrow> None))"

primrec show_ip :: "ip_addr \<Rightarrow> string" where
  "show_ip (V4 a b c d) = show_ipv4 a b c d"
| "show_ip (V6 segs) = show_ipv6 segs"

definition client_ip :: "socket_addr \<Rightarrow> headers \<Rightarrow> string" where
  "client_ip addr h =
     (case header_str h ''cf-connecting-ip'' of
        Some v \<Rightarrow> trim v
      | None \<Rightarrow>
          (case header_str h ''x-forwarded-for'' of
             Some v \<Rightarrow> trim (hd (split_on (CHR '','') v))
           | None \<Rightarrow> show_ip (socket_ip addr)))"

primrec is_private_ip :: "ip_addr \<Rightarrow> bool" where
  "is_private_ip (V4 a b c d) \<longleftrightarrow> a = 127 \<or> a = 10 \<or> a = 172 \<and> 16 \<le> b \<and> b \<le> 31 \<or> a = 192 \<and> b = 168"
| "is_private_ip (V6 segs) \<longleftrightarrow> segs = [0, 0, 0, 0, 0, 0, 0, 1] \<or> and (segs ! 0) 0xfe00 = 0xfc00"

definition bypasses :: "string \<Rightarrow> bool" where
  "bypasses ip =
     (case parse_ip_addr ip of Some a \<Rightarrow> is_private_ip a | None \<Rightarrow> ip = ''127.0.0.1'' \<or> ip = ''::1'')"

text \<open>Whether the request is let through.\<close>

definition rate_limit_middleware ::
    "http_method \<Rightarrow> socket_addr \<Rightarrow> headers \<Rightarrow> nat \<Rightarrow> rate_limiter \<Rightarrow> bool \<times> rate_limiter" where
  "rate_limit_middleware m addr h now l =
     (if m = OPTIONS then (True, l)
      else let ip = client_ip addr h in
        if bypasses ip then (True, l) else rl_check ip now l)"

section \<open>How many requests a client gets through\<close>

datatype rl_event = Request string | Cleanup

fun rl_step :: "nat \<times> rl_event \<Rightarrow> rate_limiter \<Rightarrow> bool \<times> rate_limiter" where
  "rl_step (now, Request ip) l = rl_check ip now l"
| "rl_step (now, Cleanup) l = (False, cleanup_tick now l)"

text \<open>How many requests of \<open>ip\<close> are granted along a sequence of events.\<close>

fun granted :: "string \<Rightarrow> (nat \<times> rl_event) list \<Rightarrow> rate_limiter \<Rightarrow> nat" where
  "granted ip [] l = 0"
| "granted ip (e # es) l =
     (let (ok, l') = rl_step e l in (if ok \<and> snd e = Request ip then 1 else 0) + granted ip es l')"

text \<open>
  What a client can still get within the interval that starts at \<open>a\<close>: a window begun inside the interval cannot end in it, so only
  a window begun before may be followed by a second one.
\<close>

definition allowance :: "nat \<Rightarrow> string \<Rightarrow> rate_limiter \<Rightarrow> nat" where
  "allowance a ip l =
     (case tree_get (rl_entries l) ip of
        None \<Rightarrow> unat (rl_max_requests l)
      | Some (c, s) \<Rightarrow> unat (rl_max_requests l) - unat c + (if a \<le> s then 0 else unat (rl_max_requests l)))"

lemma rl_check_frame [simp]:
  "rl_max_requests (snd (rl_check ip now l)) = rl_max_requests l"
  "rl_window_secs (snd (rl_check ip now l)) = rl_window_secs l"
  "ip' \<noteq> ip \<Longrightarrow> tree_get (rl_entries (snd (rl_check ip now l))) ip' = tree_get (rl_entries l) ip'"
  by (simp_all add: rl_check_def Let_def tree_simps split: prod.splits)

lemma not_elapsed:
  assumes "a \<le> now" "now < a + unat w * 1000000000" "a \<le> s"
  shows "\<not> unat w \<le> elapsed_secs now s"
proof -
  have "now - s < unat w * 1000000000" using assms by linarith
  then show ?thesis unfolding elapsed_secs_def by (simp add: div_less_iff_less_mult not_le)
qed

lemma unat_Suc_below: "(c :: u64) < m \<Longrightarrow> unat (c + 1) = Suc (unat c)"
proof -
  assume "c < m"
  moreover have "unat m < 2 ^ LENGTH(64)" by (rule unsigned_less)
  ultimately show ?thesis by (subst unat_add_no_wrap) (simp_all add: word_less_nat_alt)
qed

lemma allowance_other: "ip' \<noteq> ip \<Longrightarrow> allowance a ip (snd (rl_check ip' now l)) = allowance a ip l"
  by (simp add: allowance_def split: option.split)

lemma allowance_check:
  assumes "a \<le> now" "now < a + unat (rl_window_secs l) * 1000000000"
  shows "(if fst (rl_check ip now l) then 1 else 0) + allowance a ip (snd (rl_check ip now l)) \<le> allowance a ip l"
proof (cases "tree_get (rl_entries l) ip")
  case None
  have "0 < unat (rl_window_secs l)" using assms by (cases "unat (rl_window_secs l)") simp_all
  then have "\<not> unat (rl_window_secs l) \<le> elapsed_secs now now" by (simp add: elapsed_secs_def)
  with None assms(1) show ?thesis
    by (auto simp: rl_check_def allowance_def tree_simps unat_Suc_below word_le_nat_alt word_less_nat_alt not_le)
next
  case (Some e)
  obtain c s where e: "e = (c, s)" by (cases e)
  show ?thesis
  proof (cases "unat (rl_window_secs l) \<le> elapsed_secs now s")
    case True
    with not_elapsed [OF assms, of s] have "\<not> a \<le> s" by blast
    with Some e True assms(1) show ?thesis
      by (auto simp: rl_check_def allowance_def tree_simps word_le_nat_alt not_le)
  next
    case False
    then show ?thesis
      using Some e by (auto simp: rl_check_def allowance_def tree_simps unat_Suc_below not_le word_less_nat_alt)
  qed
qed

lemma allowance_cleanup:
  assumes "tree_wf (rl_entries l)" "a \<le> now" "now < a + unat (rl_window_secs l) * 1000000000" "unat (rl_window_secs l) < 2 ^ 63"
  shows "allowance a ip (cleanup_tick now l) \<le> allowance a ip l"
proof (cases "tree_get (rl_entries l) ip")
  case (Some e)
  obtain c s where e: "e = (c, s)" by (cases e)
  have two: "unat (rl_window_secs l * 2) = unat (rl_window_secs l) * 2"
    using assms(4) by (subst unat_mult_lem [THEN iffD1]) simp_all
  have "elapsed_secs now s < unat (rl_window_secs l * 2)" if "a \<le> s"
    using not_elapsed [OF assms(2,3) that] unfolding two by linarith
  with Some e show ?thesis
    by (auto simp: allowance_def cleanup_tick_def tree_get_filter [OF assms(1)])
qed (simp add: allowance_def cleanup_tick_def tree_get_filter [OF assms(1)])

definition grant_step :: "string \<Rightarrow> nat \<times> rl_event \<Rightarrow> rate_limiter \<Rightarrow> nat \<times> rate_limiter" where
  "grant_step ip e l = (if fst (rl_step e l) \<and> snd e = Request ip then 1 else 0, snd (rl_step e l))"

definition in_window :: "nat \<Rightarrow> u64 \<Rightarrow> nat \<times> rl_event \<Rightarrow> bool" where
  "in_window a w e \<longleftrightarrow> a \<le> fst e \<and> fst e < a + unat w * 1000000000"

definition limiter_ok :: "u64 \<Rightarrow> rate_limiter \<Rightarrow> bool" where
  "limiter_ok w l \<longleftrightarrow> tree_wf (rl_entries l) \<and> rl_window_secs l = w \<and> unat w < 2 ^ 63"

interpretation limiter: potential "grant_step ip" "in_window a w" "limiter_ok w" "allowance a ip" for ip a w
proof
  fix l :: rate_limiter and e :: "nat \<times> rl_event"
  assume ok: "limiter_ok w l" and e: "in_window a w e"
  obtain t ev where e': "e = (t, ev)" by (cases e)
  from ok e e' have t: "a \<le> t" "t < a + unat (rl_window_secs l) * 1000000000" by (simp_all add: limiter_ok_def in_window_def)
  show "limiter_ok w (snd (grant_step ip e l))"
    using ok unfolding e' by (cases ev) (auto simp: grant_step_def limiter_ok_def rl_check_def cleanup_tick_def Let_def split: prod.splits)
  show "fst (grant_step ip e l) + allowance a ip (snd (grant_step ip e l)) \<le> allowance a ip l"
  proof (cases ev)
    case (Request ip')
    then show ?thesis
      using allowance_check [OF t, of ip] by (cases "ip' = ip") (simp_all add: e' grant_step_def allowance_other)
  next
    case Cleanup
    with ok allowance_cleanup [OF _ t, of ip] show ?thesis by (simp add: e' grant_step_def limiter_ok_def)
  qed
qed

lemma granted_yield: "granted ip es l = limiter.yield ip es l"
  by (induction es arbitrary: l) (simp_all add: grant_step_def case_prod_beta)

text \<open>
  C24. The limiter caps every client over every stretch of time: however requests of all clients and clean-ups interleave, and
  whatever the limiter has seen before, within any interval as long as its window at most twice \<open>max_requests\<close> requests
  of one client are granted (1200 in any minute for the limiter of the API); a client seen for the first time gets at most
  \<open>max_requests\<close>.
\<close>

theorem rate_limit_bound:
  assumes "tree_wf (rl_entries l)" and "unat (rl_window_secs l) < 2 ^ 63"
    and "\<forall>e \<in> set es. a \<le> fst e \<and> fst e < a + unat (rl_window_secs l) * 1000000000"
  shows "granted ip es l \<le> 2 * unat (rl_max_requests l)
     \<and> (tree_get (rl_entries l) ip = None \<longrightarrow> granted ip es l \<le> unat (rl_max_requests l))"
proof -
  have "granted ip es l \<le> allowance a ip l"
    unfolding granted_yield using assms
    by (intro limiter.yield_bounded [of "rl_window_secs l"]) (simp_all add: limiter_ok_def in_window_def list_all_iff)
  moreover have "allowance a ip l \<le> 2 * unat (rl_max_requests l)" by (auto simp: allowance_def split: option.split)
  ultimately show ?thesis by (auto simp: allowance_def)
qed

theorem rate_limit_bound_witness:
  "granted ''8.8.8.8'' [(0, Request ''8.8.8.8''), (5, Cleanup), (59999999999, Request ''8.8.8.8'')] (rate_limiter_new 1 60) \<le> 1"
  using rate_limit_bound [of "rate_limiter_new 1 60" "[(0, Request ''8.8.8.8''), (5, Cleanup), (59999999999, Request ''8.8.8.8'')]"
      0 "''8.8.8.8''"]
  by (simp add: rate_limiter_new_def tree_simps)

text \<open>
  A client that sends a private address in a proxy header is not limited at all: the header is believed whoever sends it.
\<close>

lemma spoofed_header_bypasses:
  "header_str h ''cf-connecting-ip'' = Some ''10.0.0.1'' \<Longrightarrow> rate_limit_middleware m addr h now l = (True, l)"
proof -
  have "bypasses (trim ''10.0.0.1'')" by code_simp
  then show "header_str h ''cf-connecting-ip'' = Some ''10.0.0.1'' \<Longrightarrow> ?thesis"
    by (simp add: rate_limit_middleware_def client_ip_def)
qed

end
