(* ===== verification/SecureRelay.thy ===== *)
theory SecureRelay
  imports P2p Access
begin

text \<open>
  The signed relay of \<^verbatim>\<open>src/src/api.rs\<close>: accepting an envelope from a wallet, storing and gossiping it, and listing
  a channel; and what the arm of \<open>handle_msg\<close> for gossiped envelopes does with one from a peer. Base64 and the date parser (giving
  milliseconds since 1970) are parameters.
\<close>

definition SECURE_RELAY_MAX_BYTES :: nat where "SECURE_RELAY_MAX_BYTES = 24 * 1024"
type_synonym hex_text = string

type_synonym timestamp = string

type_synonym address = string

definition SECURE_RELAY_ALLOWED_APPS :: "string list" where "SECURE_RELAY_ALLOWED_APPS = [''shadow_chat'', ''aegis_mail'']"

definition is_hex_string :: "string \<Rightarrow> nat \<Rightarrow> bool" where
  "is_hex_string raw expected_len \<longleftrightarrow> length raw = expected_len \<and> list_all (is_digit 16) raw"

definition normalize_secure_relay_app :: "string \<Rightarrow> string option" where
  "normalize_secure_relay_app raw = find (\<lambda>a. a = to_ascii_lowercase (trim raw)) SECURE_RELAY_ALLOWED_APPS"

definition secure_relay_signing_message ::
    "primitives \<Rightarrow> string \<Rightarrow> address \<Rightarrow> hex_text \<Rightarrow> string \<Rightarrow> timestamp \<Rightarrow> hex_text \<Rightarrow> bytes" where
  "secure_relay_signing_message p app sender_wallet channel_tag ciphertext_b64 created_at nonce =
     (let nl = [CHR 0x0A]; ciphertext_hash = hex_encode p (sha256 p ciphertext_b64)
      in sha256 p (app @ nl @ sender_wallet @ nl @ channel_tag @ nl @ ciphertext_hash @ nl @ created_at @ nl @ nonce))"

record secure_relay_send_req =
  sr_app :: string
  sr_sender_wallet :: string
  sr_sender_pubkey :: string
  sr_channel_tag :: string
  sr_ciphertext_b64 :: string
  sr_created_at :: string
  sr_nonce :: string
  sr_signature :: string

definition pad13 :: "string \<Rightarrow> string" where
  "pad13 s = replicate (13 - length s) (CHR ''0'') @ s"

definition relay_id :: "primitives \<Rightarrow> bytes \<Rightarrow> string \<Rightarrow> string \<Rightarrow> int \<Rightarrow> (string, 'e) res" where
  "relay_id p signing_message pubkey signature created_ms =
     (let envelope_hash = hex_encode p (sha256 p (signing_message @ pubkey @ signature));
          created_at_ms = (of_int (max created_ms 0) :: u64)
      in res_bind (str_slice_to envelope_hash 16) (\<lambda>h. Ok (pad13 (dec64 created_at_ms) @ ''_'' @ h)))"

definition relay_json ::
    "string \<Rightarrow> string \<Rightarrow> address \<Rightarrow> hex_text \<Rightarrow> hex_text \<Rightarrow> string \<Rightarrow> timestamp \<Rightarrow> timestamp \<Rightarrow> hex_text \<Rightarrow> hex_text \<Rightarrow> nat \<Rightarrow> json" where
  "relay_json message_id app wallet pubkey channel c64 created stored_at nonce signature sz =
     json_object [(''id'', JString message_id), (''app'', JString app), (''sender_wallet'', JString wallet),
       (''sender_pubkey'', JString pubkey), (''channel_tag'', JString channel), (''ciphertext_b64'', JString c64),
       (''created_at'', JString created), (''stored_at'', JString stored_at), (''nonce'', JString nonce),
       (''signature'', JString signature), (''size_bytes'', JPosInt (of_nat sz))]"

text \<open>The result is the answer, which is also what is gossiped, and the new store.\<close>

definition autonomo_secure_relay_send ::
    "primitives \<Rightarrow> (string \<Rightarrow> bytes option) \<Rightarrow> (string \<Rightarrow> int option) \<Rightarrow> string \<Rightarrow> secure_relay_send_req \<Rightarrow> agent_store
       \<Rightarrow> (json \<times> agent_store, api_error) res" where
  "autonomo_secure_relay_send p b64_decode parse_rfc3339 stored_at req s =
     (case normalize_secure_relay_app (sr_app req) of
        None \<Rightarrow> Err Bad_request
      | Some app \<Rightarrow>
          let wallet = trim (sr_sender_wallet req); pubkey = trim (sr_sender_pubkey req);
              channel = to_ascii_lowercase (trim (sr_channel_tag req)); nonce = to_ascii_lowercase (trim (sr_nonce req));
              signature = trim (sr_signature req); created = trim (sr_created_at req); c64 = trim (sr_ciphertext_b64 req)
          in if wallet = [] then Err Bad_request
             else if \<not> is_hex_string pubkey 64 then Err Bad_request
             else if \<not> is_hex_string channel 64 then Err Bad_request
             else if length nonce < 16 \<or> 128 < length nonce \<or> \<not> list_all (is_digit 16) nonce then Err Bad_request
             else if signature = [] then Err Bad_request
             else (case parse_rfc3339 created of
                     None \<Rightarrow> Err Bad_request
                   | Some created_ms \<Rightarrow>
                 (case b64_decode c64 of
                     None \<Rightarrow> Err Bad_request
                   | Some ciphertext \<Rightarrow>
                       if ciphertext = [] then Err Bad_request
                       else if SECURE_RELAY_MAX_BYTES < length ciphertext then Err Bad_request
                       else (case hex_decode p pubkey of
                               None \<Rightarrow> Err Bad_request
                             | Some pubkey_bytes \<Rightarrow>
                                 if length pubkey_bytes \<noteq> 32 then Err Bad_request
                                 else res_bind (derive_address p pubkey_bytes) (\<lambda>derived.
                                   if derived \<noteq> wallet then Err Forbidden
                                   else let msg = secure_relay_signing_message p app wallet channel c64 created nonce in
                                     if \<not> verify_signature p pubkey signature msg then Err Forbidden
                                     else res_bind (relay_id p msg pubkey signature created_ms) (\<lambda>message_id.
                                       let d = relay_json message_id app wallet pubkey channel c64 created stored_at nonce signature
                                             (length ciphertext)
                                       in Ok (d, put_secure_relay_message message_id d s)))))))"

definition autonomo_secure_relay_messages :: "string \<Rightarrow> string \<Rightarrow> nat option \<Rightarrow> agent_store \<Rightarrow> (json list, api_error) res" where
  "autonomo_secure_relay_messages raw_app raw_channel asked s =
     (case normalize_secure_relay_app raw_app of
        None \<Rightarrow> Err Bad_request
      | Some app \<Rightarrow>
          let channel = to_ascii_lowercase (trim raw_channel) in
          if \<not> is_hex_string channel 64 then Err Bad_request
          else let limit = min (max (case asked of Some n \<Rightarrow> n | None \<Rightarrow> 50) 1) 200
               in Ok (list_secure_relay_messages app channel limit s))"

section \<open>Correctness\<close>

lemma relay_json_fields:
  "get_str ''id'' (relay_json i app w pk ch c cr st n sg sz) = Some i"
  "get_str ''app'' (relay_json i app w pk ch c cr st n sg sz) = Some app"
  "get_str ''channel_tag'' (relay_json i app w pk ch c cr st n sg sz) = Some ch"
  "get_str ''sender_wallet'' (relay_json i app w pk ch c cr st n sg sz) = Some w"
  by (simp_all add: relay_json_def get_str_def)

lemma relay_send_OkE:
  assumes "autonomo_secure_relay_send p b64 parse st req s = Ok (d, s')"
  obtains app pk ciphertext i where
    "normalize_secure_relay_app (sr_app req) = Some app" "is_hex_string (to_ascii_lowercase (trim (sr_channel_tag req))) 64"
    "hex_decode p (trim (sr_sender_pubkey req)) = Some pk" "length pk = 32"
    "derive_address p pk = (Ok (trim (sr_sender_wallet req)) :: (string, api_error) res)"
    "verify_signature p (trim (sr_sender_pubkey req)) (trim (sr_signature req))
       (secure_relay_signing_message p app (trim (sr_sender_wallet req)) (to_ascii_lowercase (trim (sr_channel_tag req)))
         (trim (sr_ciphertext_b64 req)) (trim (sr_created_at req)) (to_ascii_lowercase (trim (sr_nonce req))))"
    "d = relay_json i app (trim (sr_sender_wallet req)) (trim (sr_sender_pubkey req)) (to_ascii_lowercase (trim (sr_channel_tag req)))
       (trim (sr_ciphertext_b64 req)) (trim (sr_created_at req)) st (to_ascii_lowercase (trim (sr_nonce req)))
       (trim (sr_signature req)) (length (ciphertext :: bytes))"
    "s' = put_secure_relay_message i d s"
proof -
  let ?ch = "to_ascii_lowercase (trim (sr_channel_tag req))"
  let ?msg = "\<lambda>app. secure_relay_signing_message p app (trim (sr_sender_wallet req)) ?ch (trim (sr_ciphertext_b64 req))
      (trim (sr_created_at req)) (to_ascii_lowercase (trim (sr_nonce req)))"
  let ?d = "\<lambda>app ct i. relay_json i app (trim (sr_sender_wallet req)) (trim (sr_sender_pubkey req)) ?ch (trim (sr_ciphertext_b64 req))
      (trim (sr_created_at req)) st (to_ascii_lowercase (trim (sr_nonce req))) (trim (sr_signature req)) (length ct)"
  obtain app ms ct pk where found: "normalize_secure_relay_app (sr_app req) = Some app" "parse (trim (sr_created_at req)) = Some ms"
    "b64 (trim (sr_ciphertext_b64 req)) = Some ct" "hex_decode p (trim (sr_sender_pubkey req)) = Some pk"
    using assms by (auto simp: autonomo_secure_relay_send_def Let_def split: option.splits if_splits)
  have checks: "is_hex_string ?ch 64" "length pk = 32"
    "derive_address p pk = (Ok (trim (sr_sender_wallet req)) :: (string, api_error) res)"
    "verify_signature p (trim (sr_sender_pubkey req)) (trim (sr_signature req)) (?msg app)"
    using assms unfolding autonomo_secure_relay_send_def Let_def found option.case by (auto simp: res_simps split: if_splits)
  obtain i where "relay_id p (?msg app) (trim (sr_sender_pubkey req)) (trim (sr_signature req)) ms = (Ok i :: (string, api_error) res)"
    using assms unfolding autonomo_secure_relay_send_def Let_def found option.case by (auto simp: res_simps split: if_splits)
  then have "d = ?d app ct i" "s' = put_secure_relay_message i (?d app ct i) s"
    using assms unfolding autonomo_secure_relay_send_def Let_def found option.case by (auto simp: res_simps split: if_splits)
  with found checks show ?thesis by (intro that [where app = app and pk = pk and ciphertext = ct and i = i]) simp_all
qed

lemma tree_insert_length_mem: "(k, v) \<in> set (tree_insert k v t)"
  by (induction k v t rule: tree_insert.induct) auto

lemma relay_listed:
  assumes "get_str ''app'' d = Some app" "get_str ''channel_tag'' d = Some channel" "length (ag_relay (put_secure_relay_message i d s)) \<le> limit"
  shows "d \<in> set (list_secure_relay_messages app channel limit (put_secure_relay_message i d s))"
proof -
  let ?t = "tree_insert i d (ag_relay s)"
  have "length (filter P (rev (tree_values ?t))) \<le> limit" for P
    using assms(3) length_filter_le [of P "rev (tree_values ?t)"] by (simp add: put_secure_relay_message_def tree_values_def)
  then have all: "list_secure_relay_messages app channel limit (put_secure_relay_message i d s)
      = filter (\<lambda>v. get_str ''app'' v = Some app \<and> get_str ''channel_tag'' v = Some channel) (rev (tree_values ?t))"
    by (simp add: list_secure_relay_messages_eq put_secure_relay_message_def le_max_iff_disj)
  have "d \<in> set (tree_values ?t)" using tree_insert_length_mem [of i d "ag_relay s"] by (force simp: tree_values_def)
  with assms show ?thesis by (simp add: all)
qed


text \<open>
  A gossiped envelope is not checked: whatever JSON object a peer sends, with whatever sender and signature, is stored under the id
  it names, in place of the envelope that was accepted and verified under that id, and readers of its channel are
  given it.
\<close>

lemma gossiped_relay_replaces:
  assumes "get_str ''id'' forged = Some i" and "get_str ''app'' forged = Some app" "get_str ''channel_tag'' forged = Some channel"
    and "tree_get (ag_relay (pc_agents ctx)) i = Some d" and "length (ag_relay (pc_agents ctx)) \<le> limit" and "tree_wf (ag_relay (pc_agents ctx))"
  shows "\<exists>ctx'. handle_msg p env (AutonomoSecureRelayGossip forged) ctx = Ok (ctx', [])
     \<and> tree_get (ag_relay (pc_agents ctx')) i = Some forged \<and> length (ag_relay (pc_agents ctx')) = length (ag_relay (pc_agents ctx))
     \<and> forged \<in> set (list_secure_relay_messages app channel limit (pc_agents ctx'))"
proof -
  have "i \<in> tree_keys (ag_relay (pc_agents ctx))" using assms(4) tree_get_None_iff [of "ag_relay (pc_agents ctx)" i] by auto
  then have len: "length (tree_insert i forged (ag_relay (pc_agents ctx))) = length (ag_relay (pc_agents ctx))"
    using assms(6) by (simp add: tree_simps)
  have "forged \<in> set (list_secure_relay_messages app channel limit (put_secure_relay_message i forged (pc_agents ctx)))"
    using assms(5) len by (intro relay_listed assms) (simp add: put_secure_relay_message_def)
  with assms(1) len show ?thesis by (simp add: handle_relay_def put_secure_relay_message_def tree_simps)
qed

section \<open>Concrete instances\<close>

definition sample_request :: secure_relay_send_req where
  "sample_request = \<lparr>sr_app = ''shadow_chat'', sr_sender_wallet = ''ARLPh'' @ replicate 37 (CHR ''0''),
     sr_sender_pubkey = replicate 64 (CHR ''0''), sr_channel_tag = replicate 64 (CHR ''a''), sr_ciphertext_b64 = ''x'',
     sr_created_at = ''t'', sr_nonce = replicate 16 (CHR ''0''), sr_signature = replicate 128 (CHR ''0'')\<rparr>"

lemma sample_request_accepted:
  "is_ok (autonomo_secure_relay_send sample_primitives Some (\<lambda>_. Some 0) ''t'' sample_request agent_store_empty)"
  by code_simp


abbreviation forged_relay :: json where
  "forged_relay \<equiv> json_object [(''id'', JString ''i''), (''app'', JString ''shadow_chat''), (''channel_tag'', JString ''c'')]"

lemma gossiped_relay_replaces_sample:
  "\<exists>ctx'. handle_msg sample_primitives sample_env (AutonomoSecureRelayGossip forged_relay)
        ((fresh_context sample_primitives [] [])\<lparr>pc_agents := agent_store_empty\<lparr>ag_relay := [(''i'', JNull)]\<rparr>\<rparr>) = Ok (ctx', [])
     \<and> tree_get (ag_relay (pc_agents ctx')) ''i'' = Some forged_relay"
proof -
  let ?ctx = "(fresh_context sample_primitives [] [])\<lparr>pc_agents := agent_store_empty\<lparr>ag_relay := [(''i'', JNull)]\<rparr>\<rparr>"
  have "get_str ''id'' forged_relay = Some ''i''" "get_str ''app'' forged_relay = Some ''shadow_chat''"
    "get_str ''channel_tag'' forged_relay = Some ''c''" by (simp_all add: get_str_def)
  from gossiped_relay_replaces [OF this, of ?ctx JNull 5 sample_primitives sample_env] show ?thesis
    by (auto simp: tree_simps tree_wf_def)
qed

end
