(* ===== verification/AuditLane.thy ===== *)
theory AuditLane
  imports RustStr
begin

text \<open>
  \<^verbatim>\<open>src/src/audit/ledger.rs\<close>, the lane policy: which of the three audit lanes (public, private, sealed
  zero-zero) a decision belongs to, and what of its metadata may leave in a training export.
\<close>

section \<open>Lanes\<close>

definition AUDIT_LANE_MIGRATION_ID :: string where
  "AUDIT_LANE_MIGRATION_ID = ''arobi-ledger-lane-v0.3-20260514''"

record audit_lane =
  lane_id :: string
  export_scope :: string
  training_policy :: string
  retention_class :: string
  migration_id :: string

type_synonym metadata = "(string, string) tree"

definition normalize_audit_lane :: "string \<Rightarrow> string" where
  "normalize_audit_lane value =
     (let normalized = map (\<lambda>c. if c = CHR ''_'' \<or> c = CHR '' '' then CHR ''-'' else c)
                         (to_ascii_lowercase (trim value))
      in if normalized \<in> set [''public'', ''pub'', ''public-network'', ''public-lane'', ''public-redacted'',
                              ''open'', ''redacted''] then ''public''
         else if normalized \<in> set [''00'', ''0-0'', ''zero-zero'', ''zerozero'', ''private-00'', ''mission-control'',
                              ''mission-control-00'', ''sealed'', ''classified'', ''restricted'', ''defense'',
                              ''defense-grade''] then ''zero-zero''
         else if ends_with normalized ''-00'' then ''zero-zero''
         else ''private'')"

definition public_lane :: audit_lane where
  "public_lane = \<lparr>lane_id = ''public'', export_scope = ''public-redacted'', training_policy = ''allowed-redacted'',
     retention_class = ''public-evidence'', migration_id = AUDIT_LANE_MIGRATION_ID\<rparr>"

definition zero_zero_lane :: audit_lane where
  "zero_zero_lane = \<lparr>lane_id = ''zero-zero'', export_scope = ''sealed'', training_policy = ''blocked'',
     retention_class = ''sealed-evidence'', migration_id = AUDIT_LANE_MIGRATION_ID\<rparr>"

definition private_lane :: audit_lane where
  "private_lane = \<lparr>lane_id = ''private'', export_scope = ''operator-audit'', training_policy = ''allowed-internal'',
     retention_class = ''audit-evidence'', migration_id = AUDIT_LANE_MIGRATION_ID\<rparr>"

fun first_some :: "'a option list \<Rightarrow> 'a \<Rightarrow> 'a" where
  "first_some [] d = d"
| "first_some (Some x # xs) d = x"
| "first_some (None # xs) d = first_some xs d"

definition lane_from_context :: "string \<Rightarrow> metadata \<Rightarrow> audit_lane" where
  "lane_from_context network_context md =
     (let requested = first_some (map (tree_get md)
            [''lane'', ''arobi_lane'', ''audit_lane'', ''ability_profile'', ''classification'']) network_context;
          l = normalize_audit_lane requested
      in if l = ''public'' then public_lane
         else if l = ''zero-zero'' then zero_zero_lane
         else private_lane)"

section \<open>Training metadata\<close>

definition is_public_training_metadata_key :: "string \<Rightarrow> bool" where
  "is_public_training_metadata_key key =
     (to_ascii_lowercase key \<in> set
       [''lane'', ''arobi_lane'', ''audit_lane'', ''source_system'', ''route'', ''release'', ''version'',
        ''policy'', ''category'', ''environment'', ''modality'', ''vision_task'', ''object_classes'',
        ''object_count'', ''person_count'', ''safety_signal'', ''safety_signal_confidence'',
        ''body_language_signal'', ''vision_privacy_policy''])"

definition allowed_identity_policies :: "string list" where
  "allowed_identity_policies =
     [''no_persistent_identity'', ''no-persistent-identity'', ''no persistent identity'',
      ''non_persistent_identity'', ''non-persistent-identity'', ''non persistent identity'']"

definition unsafe_secret_markers :: "string list" where
  "unsafe_secret_markers =
     [''secret'', ''token='', ''api_token'', ''api-key'', ''api_key'', ''password'', ''credential'',
      ''classified'', ''clearance'', ''requester'', ''wallet'', ''private key'', ''signature'']"

definition unsafe_public_identity_markers :: "string list" where
  "unsafe_public_identity_markers =
     [''face_embedding'', ''face embedding'', ''facial_recognition'', ''facial recognition'', ''biometric'',
      ''embedding vector'', ''license_plate'', ''license plate'', ''plate_number'', ''plate number'',
      ''persistent_subject'', ''subject_id'', ''subject id'', ''subject_name'', ''subject name'',
      ''person_id'', ''person id'', ''person_name'', ''person name'', ''tracking_id'', ''tracking id'',
      ''identity_embedding'', ''identified as'']"

definition unsafe_accusatory_markers :: "string list" where
  "unsafe_accusatory_markers =
     [''bad_actor'', ''bad actor'', ''criminal'', ''suspect'', ''suspicious'', ''hostile'', ''target'', ''perpetrator'']"

definition scrubbed_value :: "string \<Rightarrow> string" where
  "scrubbed_value value = fold (\<lambda>a v. str_replace a [] v) allowed_identity_policies (to_ascii_lowercase (trim value))"

definition is_training_metadata_value_safe :: "string \<Rightarrow> string \<Rightarrow> bool \<Rightarrow> bool" where
  "is_training_metadata_value_safe key value public_redacted =
     (let normalized_key = to_ascii_lowercase key; normalized_value = scrubbed_value value in
      if list_ex (str_contains normalized_value) unsafe_secret_markers then False
      else if \<not> public_redacted then True
      else if list_ex (str_contains normalized_value) unsafe_public_identity_markers then False
      else if normalized_key \<in> set [''safety_signal'', ''body_language_signal'', ''vision_task'']
              \<and> list_ex (str_contains normalized_value) unsafe_accusatory_markers then False
      else True)"

definition is_sensitive_training_metadata_key :: "string \<Rightarrow> bool" where
  "is_sensitive_training_metadata_key key =
     list_ex (str_contains (to_ascii_lowercase key))
       [''secret'', ''token'', ''key'', ''password'', ''credential'', ''classified'', ''clearance'', ''requester'',
        ''wallet'', ''private'', ''signature'', ''face'', ''facial'', ''biometric'', ''embedding'',
        ''license_plate'', ''plate_number'', ''persistent_subject'', ''subject_id'', ''subject_name'',
        ''person_id'', ''person_name'', ''tracking_id'', ''identity'']"

definition sanitize_training_metadata :: "metadata \<Rightarrow> bool \<Rightarrow> metadata" where
  "sanitize_training_metadata md public_redacted =
     filter (\<lambda>(key, value). \<not> is_sensitive_training_metadata_key key
               \<and> (\<not> public_redacted \<or> is_public_training_metadata_key key)
               \<and> is_training_metadata_value_safe key value public_redacted) md"

section \<open>Facts\<close>

lemma normalize_audit_lane_cases:
  "normalize_audit_lane v \<in> {''public'', ''zero-zero'', ''private''}"
  by (simp add: normalize_audit_lane_def Let_def)

lemma lane_from_context_cases:
  "lane_from_context ctx md \<in> {public_lane, zero_zero_lane, private_lane}"
  by (simp add: lane_from_context_def Let_def)

lemmas lane_defs = public_lane_def zero_zero_lane_def private_lane_def

lemma normalize_audit_lane_fixed:
  "normalize_audit_lane ''public'' = ''public''" "normalize_audit_lane ''zero-zero'' = ''zero-zero''"
  "normalize_audit_lane ''private'' = ''private''"
  by code_simp+

lemma normalize_audit_lane_idem: "normalize_audit_lane (normalize_audit_lane v) = normalize_audit_lane v"
  using normalize_audit_lane_cases [of v] normalize_audit_lane_fixed by auto

lemma lane_from_context_id:
  "lane_from_context ctx [] = (if normalize_audit_lane ctx = ''public'' then public_lane
     else if normalize_audit_lane ctx = ''zero-zero'' then zero_zero_lane else private_lane)"
  by (simp add: lane_from_context_def Let_def tree_simps)

lemma sanitize_subset: "set (sanitize_training_metadata md r) \<subseteq> set md"
  by (auto simp: sanitize_training_metadata_def)

lemma sanitize_length: "length (sanitize_training_metadata md r) \<le> length md"
  by (simp add: sanitize_training_metadata_def)

text \<open>
  An explicit lane in the metadata overrides the network context, and a sealed request cannot be
  weakened: when the first lane label present names the zero-zero lane (in any of its spellings), the
  entry is sealed and blocked from training whatever the network context says.
\<close>

lemma sealed_label_wins:
  assumes "tree_get md ''lane'' = Some v" "normalize_audit_lane v = ''zero-zero''"
  shows "lane_id (lane_from_context ctx md) = ''zero-zero'' \<and>
    training_policy (lane_from_context ctx md) = ''blocked'' \<and> export_scope (lane_from_context ctx md) = ''sealed''"
  using assms by (simp add: lane_from_context_def Let_def lane_defs)

lemma sealed_label_wins_sample:
  "lane_id (lane_from_context ''public'' [(''lane'', '' Mission Control_00 '')]) = ''zero-zero''"
proof -
  have "normalize_audit_lane '' Mission Control_00 '' = ''zero-zero''" by code_simp
  then show ?thesis
    using sealed_label_wins [of "[(''lane'', '' Mission Control_00 '')]" "'' Mission Control_00 ''" "''public''"]
    by (simp add: tree_simps)
qed

end
