(* ===== verification/AuditEntry.thy ===== *)
theory AuditEntry
  imports AuditLane Crypto
begin

text \<open>
  \<^verbatim>\<open>src/src/audit/ledger.rs\<close>, one audit entry: its fields, the length-prefixed encoding that is hashed
  with Keccak-256, and the checks on it. Rendering that other code does is an argument: \<open>formats\<close> holds
  chrono's RFC 3339 printer and calendar format, and the standard library's \<open>Debug\<close> of a string and
  decimal rendering of a float.
\<close>

record formats =
  rfc3339 :: "int \<Rightarrow> string"
  ymd_hms_utc :: "int \<Rightarrow> string"
  debug_str :: "string \<Rightarrow> string"
  display_f64 :: "f64 \<Rightarrow> string"
  percent2 :: "f64 \<Rightarrow> string"
  millis2 :: "f64 \<Rightarrow> string"

datatype decision_source = Instinct | Ability | Cortex | External string

datatype decision_type =
    DefenseEngage | ThreatAssessment | ResourceAllocation | QueryResponse | ModelInference
  | TrainingDecision | EthicsValidation | NetworkRouting | SubsystemCommand | GeneralQuery

datatype confidence_level = Low | Medium | High | Critical

text \<open>The derived \<open>Debug\<close> output of the three enums.\<close>

primrec source_debug :: "formats \<Rightarrow> decision_source \<Rightarrow> string" where
  "source_debug fm Instinct = ''Instinct''"
| "source_debug fm Ability = ''Ability''"
| "source_debug fm Cortex = ''Cortex''"
| "source_debug fm (External s) = ''External('' @ debug_str fm s @ '')''"

primrec type_debug :: "decision_type \<Rightarrow> string" where
  "type_debug DefenseEngage = ''DefenseEngage''"
| "type_debug ThreatAssessment = ''ThreatAssessment''"
| "type_debug ResourceAllocation = ''ResourceAllocation''"
| "type_debug QueryResponse = ''QueryResponse''"
| "type_debug ModelInference = ''ModelInference''"
| "type_debug TrainingDecision = ''TrainingDecision''"
| "type_debug EthicsValidation = ''EthicsValidation''"
| "type_debug NetworkRouting = ''NetworkRouting''"
| "type_debug SubsystemCommand = ''SubsystemCommand''"
| "type_debug GeneralQuery = ''GeneralQuery''"

primrec level_debug :: "confidence_level \<Rightarrow> string" where
  "level_debug Low = ''Low''"
| "level_debug Medium = ''Medium''"
| "level_debug High = ''High''"
| "level_debug Critical = ''Critical''"

record audit_entry =
  entry_id :: string
  ae_timestamp :: int
  block_height :: u64
  previous_hash :: string
  ae_hash :: string
  source :: decision_source
  decision_type :: decision_type
  model_id :: string
  model_version :: string
  input_summary :: string
  input_hash :: string
  decision :: string
  confidence :: f64
  confidence_level :: confidence_level
  reasoning :: string
  factors :: "string list"
  ethics_validated :: bool
  ethics_details :: "string option"
  subsystems :: "string list"
  network_context :: string
  ae_lane :: audit_lane
  requester :: "string option"
  clearance_level :: "string option"
  action_taken :: "string option"
  outcome :: "string option"
  latency_ms :: f64
  ae_metadata :: metadata
  signature :: "string option"

section \<open>Confidence\<close>

text \<open>The bit patterns of 0.9, 0.75 and 0.5.\<close>

definition classify_confidence :: "f64 \<Rightarrow> confidence_level" where
  "classify_confidence c =
     (if f64_ge c 0x3FECCCCCCCCCCCCD then Critical
      else if f64_ge c 0x3FE8000000000000 then High
      else if f64_ge c 0x3FE0000000000000 then Medium
      else Low)"

section \<open>The hashed encoding\<close>

definition hash_field :: "string \<Rightarrow> bytes \<Rightarrow> bytes" where
  "hash_field label value =
     le64 (of_nat (length label)) @ label @ le64 (of_nat (length value)) @ value"

definition hash_bool :: "string \<Rightarrow> bool \<Rightarrow> bytes" where
  "hash_bool label value = hash_field label (if value then ''true'' else ''false'')"

definition hash_optional_string :: "string \<Rightarrow> string option \<Rightarrow> bytes" where
  "hash_optional_string label value =
     (case value of
        Some v \<Rightarrow> hash_field label ''some'' @ hash_field label v
      | None \<Rightarrow> hash_field label ''none'')"

definition hash_string_vec :: "string \<Rightarrow> string list \<Rightarrow> bytes" where
  "hash_string_vec label values =
     hash_field label (le64 (of_nat (length values))) @ concat (map (hash_field label) values)"

definition hash_metadata :: "metadata \<Rightarrow> bytes" where
  "hash_metadata md =
     hash_field ''metadata_len'' (le64 (of_nat (length md))) @
     concat (map (\<lambda>(k, v). hash_field ''metadata_key'' k @ hash_field ''metadata_value'' v) md)"

definition hash_lane :: "audit_lane \<Rightarrow> bytes" where
  "hash_lane l =
     hash_field ''lane_id'' (lane_id l) @ hash_field ''lane_export_scope'' (export_scope l) @
     hash_field ''lane_training_policy'' (training_policy l) @
     hash_field ''lane_retention_class'' (retention_class l) @
     hash_field ''lane_migration_id'' (migration_id l)"

definition hashed_bytes :: "formats \<Rightarrow> audit_entry \<Rightarrow> bytes" where
  "hashed_bytes fm e =
     hash_field ''entry_id'' (entry_id e) @
     hash_field ''timestamp'' (rfc3339 fm (ae_timestamp e)) @
     hash_field ''block_height'' (le64 (block_height e)) @
     hash_field ''previous_hash'' (previous_hash e) @
     hash_field ''source'' (source_debug fm (source e)) @
     hash_field ''decision_type'' (type_debug (decision_type e)) @
     hash_field ''model_id'' (model_id e) @
     hash_field ''model_version'' (model_version e) @
     hash_field ''input_summary'' (input_summary e) @
     hash_field ''input_hash'' (input_hash e) @
     hash_field ''decision'' (decision e) @
     hash_field ''confidence'' (le64 (confidence e)) @
     hash_field ''confidence_level'' (level_debug (confidence_level e)) @
     hash_field ''reasoning'' (reasoning e) @
     hash_string_vec ''factors'' (factors e) @
     hash_bool ''ethics_validated'' (ethics_validated e) @
     hash_optional_string ''ethics_details'' (ethics_details e) @
     hash_string_vec ''subsystems'' (subsystems e) @
     hash_field ''network_context'' (network_context e) @
     hash_lane (ae_lane e) @
     hash_optional_string ''requester'' (requester e) @
     hash_optional_string ''clearance_level'' (clearance_level e) @
     hash_optional_string ''action_taken'' (action_taken e) @
     hash_optional_string ''outcome'' (outcome e) @
     hash_field ''latency_ms'' (le64 (latency_ms e)) @
     hash_metadata (ae_metadata e)"

definition entry_compute_hash :: "primitives \<Rightarrow> formats \<Rightarrow> audit_entry \<Rightarrow> string" where
  "entry_compute_hash p fm e = hex_encode p (keccak256 p (hashed_bytes fm e))"

definition compute_legacy_pre_lane_hash :: "primitives \<Rightarrow> formats \<Rightarrow> audit_entry \<Rightarrow> string" where
  "compute_legacy_pre_lane_hash p fm e =
     hex_encode p (keccak256 p
       (entry_id e @ rfc3339 fm (ae_timestamp e) @ dec64 (block_height e) @ previous_hash e @
        source_debug fm (source e) @ type_debug (decision_type e) @ model_id e @ model_version e @
        input_hash e @ decision e @ display_f64 fm (confidence e) @ reasoning e))"

definition entry_verify :: "primitives \<Rightarrow> formats \<Rightarrow> audit_entry \<Rightarrow> bool" where
  "entry_verify p fm e = (ae_hash e = entry_compute_hash p fm e)"

text \<open>\<open>compute_hash\<close> on raw bytes, used for the input of a decision.\<close>

definition data_hash :: "primitives \<Rightarrow> bytes \<Rightarrow> string" where
  "data_hash p data = hex_encode p (keccak256 p data)"

section \<open>Making an entry\<close>

definition hex_digit :: "nat \<Rightarrow> char" where
  "hex_digit n = char_of (if n < 10 then n + 48 else n + 87)"

fun hex_fixed :: "nat \<Rightarrow> nat \<Rightarrow> string" where
  "hex_fixed 0 n = []"
| "hex_fixed (Suc k) n = hex_fixed k (n div 16) @ [hex_digit (n mod 16)]"

text \<open>\<open>{:032x}\<close> of a 128-bit value has exactly 32 digits; the two arguments are the two readings of the clock.\<close>

definition rand_simple :: "128 word \<Rightarrow> 128 word" where
  "rand_simple nanos = nanos * 1103515245 + 12345"

definition uuid_v4 :: "128 word \<Rightarrow> 128 word \<Rightarrow> string" where
  "uuid_v4 timestamp nanos = hex_fixed 32 (unat timestamp) @ ''-'' @ hex_fixed 32 (unat (rand_simple nanos))"

text \<open>What a caller of \<open>record_decision_with_metadata\<close> passes, and what the call reads from outside.\<close>

record decision_input =
  di_source :: decision_source
  di_type :: decision_type
  di_model_id :: string
  di_model_version :: string
  di_input_summary :: string
  di_input_data :: bytes
  di_decision :: string
  di_confidence :: f64
  di_reasoning :: string
  di_factors :: "string list"
  di_ethics_validated :: bool
  di_subsystems :: "string list"
  di_network_context :: string
  di_latency_ms :: f64
  di_metadata :: metadata

record clock =
  clk_utc :: int
  clk_nanos1 :: "128 word"
  clk_nanos2 :: "128 word"

definition with_hash :: "primitives \<Rightarrow> formats \<Rightarrow> audit_entry \<Rightarrow> audit_entry" where
  "with_hash p fm entry = entry\<lparr>ae_hash := entry_compute_hash p fm entry\<rparr>"

definition entry_new_with_metadata ::
    "primitives \<Rightarrow> formats \<Rightarrow> clock \<Rightarrow> u64 \<Rightarrow> string \<Rightarrow> decision_input \<Rightarrow> audit_entry" where
  "entry_new_with_metadata p fm clk height prev d =
     (let entry = \<lparr>entry_id = uuid_v4 (clk_nanos1 clk) (clk_nanos2 clk), ae_timestamp = clk_utc clk,
            block_height = height, previous_hash = prev, ae_hash = [], source = di_source d,
            decision_type = di_type d, model_id = di_model_id d, model_version = di_model_version d,
            input_summary = di_input_summary d, input_hash = data_hash p (di_input_data d),
            decision = di_decision d, confidence = di_confidence d,
            confidence_level = classify_confidence (di_confidence d), reasoning = di_reasoning d,
            factors = di_factors d, ethics_validated = di_ethics_validated d, ethics_details = None,
            subsystems = di_subsystems d, network_context = di_network_context d,
            ae_lane = lane_from_context (di_network_context d) (di_metadata d),
            requester = None, clearance_level = None, action_taken = None, outcome = None,
            latency_ms = di_latency_ms d, ae_metadata = di_metadata d, signature = None\<rparr>
      in with_hash p fm entry)"

definition entry_new :: "primitives \<Rightarrow> formats \<Rightarrow> clock \<Rightarrow> u64 \<Rightarrow> string \<Rightarrow> decision_input \<Rightarrow> audit_entry" where
  "entry_new p fm clk height prev d = entry_new_with_metadata p fm clk height prev (d\<lparr>di_metadata := []\<rparr>)"

end
