(* ===== verification/Encoding.thy ===== *)
theory Encoding
  imports AuditEntry
begin

text \<open>
  The hashed encoding of an audit entry loses nothing. An encoder is self-delimiting: from an encoding
  followed by anything, both can be read back. Sequences of encodings inherit this, and the encoders of
  the ledger are instances.
\<close>

locale encoder =
  fixes enc :: "'a \<Rightarrow> bytes" and fits :: "'a \<Rightarrow> bool"
  assumes enc_append_inj: "fits x \<Longrightarrow> fits y \<Longrightarrow> enc x @ r = enc y @ s \<Longrightarrow> x = y \<and> r = s"
begin

lemma enc_append_iff: "fits x \<Longrightarrow> fits y \<Longrightarrow> enc x @ r = enc y @ s \<longleftrightarrow> x = y \<and> r = s"
  using enc_append_inj by blast

lemma enc_list_append_inj:
  assumes "length xs = length ys" "\<forall>x \<in> set xs. fits x" "\<forall>y \<in> set ys. fits y"
    "concat (map enc xs) @ r = concat (map enc ys) @ s"
  shows "xs = ys \<and> r = s"
  using assms
proof (induction xs ys rule: list_induct2)
  case (Cons x xs y ys)
  then show ?case using enc_append_iff by simp
qed simp

end

section \<open>Fixed-width integers\<close>

lemma length_le_bytes [simp]: "length (le_bytes k n) = k"
  by (induction k arbitrary: n) auto

lemma le_bytes_inj: "m < 256 ^ k \<Longrightarrow> n < 256 ^ k \<Longrightarrow> le_bytes k m = le_bytes k n \<Longrightarrow> m = n"
proof (induction k arbitrary: m n)
  case (Suc k)
  have "m mod 256 = n mod 256"
    using Suc.prems(3) by simp
  moreover have "m div 256 = n div 256"
    using Suc by (simp add: less_mult_imp_div_less)
  ultimately show ?case by (metis div_mult_mod_eq)
qed simp

lemma length_le64 [simp]: "length (le64 w) = 8"
  by (simp add: le64_def)

lemma le64_inj [simp]: "le64 v = le64 w \<longleftrightarrow> v = w"
proof
  assume "le64 v = le64 w"
  then have "unat v = unat w"
    using le_bytes_inj [of "unat v" 8 "unat w"] unat_u64_bound [of v] unat_u64_bound [of w]
    by (simp add: le64_def)
  then show "v = w" by (rule unsigned_word_eqI)
qed simp

section \<open>Fields\<close>

definition fits_u64 :: "'a list \<Rightarrow> bool" where
  "fits_u64 xs \<longleftrightarrow> length xs < 2 ^ 64"

lemma of_nat_length_inj:
  "fits_u64 xs \<Longrightarrow> fits_u64 ys \<Longrightarrow> (of_nat (length xs) :: u64) = of_nat (length ys) \<longleftrightarrow> length xs = length ys"
  by (simp add: fits_u64_def of_nat_u64_eq_iff unat_of_nat_u64)

interpretation field: encoder "hash_field label" fits_u64
proof
  show "x = y \<and> r = s" if "fits_u64 x" "fits_u64 y" "hash_field label x @ r = hash_field label y @ s" for x y r s
    using that by (auto simp: hash_field_def of_nat_length_inj)
qed

interpretation vec: encoder "hash_string_vec label" "\<lambda>xs. fits_u64 xs \<and> (\<forall>x \<in> set xs. fits_u64 x)"
proof
  fix x y r s
  assume fx: "fits_u64 x \<and> (\<forall>v \<in> set x. fits_u64 v)" and fy: "fits_u64 y \<and> (\<forall>v \<in> set y. fits_u64 v)"
    and eq: "hash_string_vec label x @ r = hash_string_vec label y @ s"
  have "fits_u64 (le64 w)" for w by (simp add: fits_u64_def)
  then have "(of_nat (length x) :: u64) = of_nat (length y)"
    and rest: "concat (map (hash_field label) x) @ r = concat (map (hash_field label) y) @ s"
    using eq by (auto simp: hash_string_vec_def field.enc_append_iff)
  then have "length x = length y" using fx fy by (simp add: of_nat_length_inj)
  with rest fx fy show "x = y \<and> r = s" by (intro field.enc_list_append_inj) auto
qed

definition fits_option :: "string option \<Rightarrow> bool" where
  "fits_option v \<longleftrightarrow> (\<forall>x. v = Some x \<longrightarrow> fits_u64 x)"

lemma fits_small [simp]: "length s \<le> 100 \<Longrightarrow> fits_u64 s"
  by (simp add: fits_u64_def)

interpretation opt: encoder "hash_optional_string label" fits_option
  by unfold_locales
     (auto simp: hash_optional_string_def fits_option_def field.enc_append_iff split: option.splits)

definition fits_pair :: "string \<times> string \<Rightarrow> bool" where
  "fits_pair e \<longleftrightarrow> fits_u64 (fst e) \<and> fits_u64 (snd e)"

interpretation kv: encoder "\<lambda>(k, v). hash_field ''metadata_key'' k @ hash_field ''metadata_value'' v" fits_pair
  by unfold_locales (auto simp: fits_pair_def field.enc_append_iff)

interpretation meta: encoder hash_metadata "\<lambda>md. fits_u64 md \<and> (\<forall>e \<in> set md. fits_pair e)"
proof
  fix x y r s
  assume fx: "fits_u64 x \<and> (\<forall>e \<in> set x. fits_pair e)" and fy: "fits_u64 y \<and> (\<forall>e \<in> set y. fits_pair e)"
    and eq: "hash_metadata x @ r = hash_metadata y @ s"
  have "(of_nat (length x) :: u64) = of_nat (length y)"
    and rest: "concat (map (\<lambda>(k, v). hash_field ''metadata_key'' k @ hash_field ''metadata_value'' v) x) @ r
       = concat (map (\<lambda>(k, v). hash_field ''metadata_key'' k @ hash_field ''metadata_value'' v) y) @ s"
    using eq by (auto simp: hash_metadata_def field.enc_append_iff)
  then have "length x = length y" using fx fy by (simp add: of_nat_length_inj)
  with rest fx fy show "x = y \<and> r = s" by (intro kv.enc_list_append_inj) auto
qed

definition fits_lane :: "audit_lane \<Rightarrow> bool" where
  "fits_lane l \<longleftrightarrow> fits_u64 (lane_id l) \<and> fits_u64 (export_scope l) \<and> fits_u64 (training_policy l) \<and>
     fits_u64 (retention_class l) \<and> fits_u64 (migration_id l)"

interpretation lane: encoder hash_lane fits_lane
  by unfold_locales
     (auto simp: hash_lane_def fits_lane_def field.enc_append_iff intro!: audit_lane.equality)

lemma hash_bool_append_iff: "hash_bool l a @ r = hash_bool l b @ s \<longleftrightarrow> a = b \<and> r = s"
  by (auto simp: hash_bool_def field.enc_append_iff)

section \<open>A whole entry\<close>

text \<open>Every string of an entry, and every rendering of one that is hashed, is shorter than \<open>2 ^ 64\<close> bytes.\<close>

definition fits_entry :: "formats \<Rightarrow> audit_entry \<Rightarrow> bool" where
  "fits_entry fm e \<longleftrightarrow>
     (\<forall>s \<in> set [entry_id e, rfc3339 fm (ae_timestamp e), previous_hash e, source_debug fm (source e),
        model_id e, model_version e, input_summary e, input_hash e, decision e, reasoning e,
        network_context e]. fits_u64 s) \<and>
     (\<forall>o' \<in> set [ethics_details e, requester e, clearance_level e, action_taken e, outcome e]. fits_option o') \<and>
     (\<forall>xs \<in> set [factors e, subsystems e]. fits_u64 xs \<and> (\<forall>x \<in> set xs. fits_u64 x)) \<and>
     fits_lane (ae_lane e) \<and> fits_u64 (ae_metadata e) \<and> (\<forall>kv \<in> set (ae_metadata e). fits_pair kv)"

text \<open>What is relied on of the renderings: two instants, and two strings, never print alike.\<close>

definition faithful_formats :: "formats \<Rightarrow> bool" where
  "faithful_formats fm \<longleftrightarrow> inj (rfc3339 fm) \<and> inj (debug_str fm)"

lemma source_debug_inj: "faithful_formats fm \<Longrightarrow> source_debug fm a = source_debug fm b \<longleftrightarrow> a = b"
  by (cases a; cases b) (auto simp: faithful_formats_def inj_eq)

lemma type_debug_inj: "type_debug a = type_debug b \<longleftrightarrow> a = b"
  by (cases a; cases b) auto

lemma level_debug_inj: "level_debug a = level_debug b \<longleftrightarrow> a = b"
  by (cases a; cases b) auto

lemma type_debug_fits [simp]: "fits_u64 (type_debug t)"
  by (cases t) auto

lemma level_debug_fits [simp]: "fits_u64 (level_debug l)"
  by (cases l) auto

text \<open>All of an entry but its own hash and its signature.\<close>

definition content :: "audit_entry \<Rightarrow> audit_entry" where
  "content e = e\<lparr>ae_hash := [], signature := None\<rparr>"

lemma hashed_bytes_inj:
  assumes "faithful_formats fm" "fits_entry fm a" "fits_entry fm b" "hashed_bytes fm a = hashed_bytes fm b"
  shows "content a = content b"
proof -
  have inj: "rfc3339 fm s = rfc3339 fm t \<longleftrightarrow> s = t" for s t
    using assms(1) by (simp add: faithful_formats_def inj_eq)
  note facts = field.enc_append_iff vec.enc_append_iff opt.enc_append_iff lane.enc_append_iff
    hash_bool_append_iff meta.enc_append_iff [of _ _ "[]" "[]", simplified]
  have fits: "fits_entry fm a" "fits_entry fm b" by fact+
  then show ?thesis
    using assms(4) unfolding hashed_bytes_def fits_entry_def content_def
    by (simp add: facts inj source_debug_inj [OF assms(1)] type_debug_inj level_debug_inj)
qed

end
