(* ===== verification/AuditLedger.thy ===== *)
theory AuditLedger
  imports Encoding Block
begin

text \<open>
  \<^verbatim>\<open>src/src/audit/ledger.rs\<close>, the hash-chained ledger: recording and rolling back decisions, loading from
  the durable tree (\<open>append_audit_entry\<close>, \<open>load_audit_entries\<close> of \<^verbatim>\<open>src/src/store.rs\<close>), migrating entries
  written before lanes were hashed, and verifying the chain. The locks of the Rust structure make each
  operation one atomic step (\<open>append_lock\<close> spans a whole append or rollback).
\<close>

record audit_ledger =
  entries :: "audit_entry list"
  latest_hash :: string
  latest_block :: u64

definition ledger_new :: audit_ledger where
  "ledger_new = \<lparr>entries = [], latest_hash = zeros64, latest_block = 0\<rparr>"

definition last_hash :: "audit_entry list \<Rightarrow> string" where
  "last_hash es = (if es = [] then zeros64 else ae_hash (last es))"

definition last_block :: "audit_entry list \<Rightarrow> u64" where
  "last_block es = (if es = [] then 0 else block_height (last es))"

definition from_entries :: "audit_entry list \<Rightarrow> audit_ledger" where
  "from_entries es =
     (let es' = sort_key block_height es
      in \<lparr>entries = es', latest_hash = last_hash es', latest_block = last_block es'\<rparr>)"

fun verify_from :: "primitives \<Rightarrow> formats \<Rightarrow> string \<Rightarrow> audit_entry list \<Rightarrow> bool" where
  "verify_from p fm expected_prev [] = True"
| "verify_from p fm expected_prev (e # es) =
     (if previous_hash e \<noteq> expected_prev then False
      else if \<not> entry_verify p fm e then False
      else verify_from p fm (ae_hash e) es)"

definition verify_chain :: "primitives \<Rightarrow> formats \<Rightarrow> audit_ledger \<Rightarrow> bool" where
  "verify_chain p fm l = verify_from p fm zeros64 (entries l)"

datatype ledger_error = Chain_verification_failed

definition try_from_entries :: "primitives \<Rightarrow> formats \<Rightarrow> audit_entry list \<Rightarrow> (audit_ledger, ledger_error) res" where
  "try_from_entries p fm es =
     (let l = from_entries es in if verify_chain p fm l then Ok l else Err Chain_verification_failed)"

definition record_decision_with_metadata ::
    "primitives \<Rightarrow> formats \<Rightarrow> clock \<Rightarrow> decision_input \<Rightarrow> audit_ledger \<Rightarrow> audit_entry \<times> audit_ledger" where
  "record_decision_with_metadata p fm clk d l =
     (let height = latest_block l + 1;
          entry = entry_new_with_metadata p fm clk height (latest_hash l) d
      in (entry, l\<lparr>entries := entries l @ [entry], latest_hash := ae_hash entry, latest_block := height\<rparr>))"

definition record_decision ::
    "primitives \<Rightarrow> formats \<Rightarrow> clock \<Rightarrow> decision_input \<Rightarrow> audit_ledger \<Rightarrow> audit_entry \<times> audit_ledger" where
  "record_decision p fm clk d l = record_decision_with_metadata p fm clk (d\<lparr>di_metadata := []\<rparr>) l"

definition rollback_latest :: "string \<Rightarrow> audit_ledger \<Rightarrow> bool \<times> audit_ledger" where
  "rollback_latest i l =
     (if entries l = [] then (False, l)
      else if entry_id (last (entries l)) \<noteq> i then (False, l)
      else let es = butlast (entries l)
           in (True, l\<lparr>entries := es, latest_hash := last_hash es, latest_block := last_block es\<rparr>))"

section \<open>Queries\<close>

definition get_entry :: "string \<Rightarrow> audit_ledger \<Rightarrow> audit_entry option" where
  "get_entry i l = find (\<lambda>e. entry_id e = i) (entries l)"

definition get_entries_by_source :: "decision_source \<Rightarrow> audit_ledger \<Rightarrow> audit_entry list" where
  "get_entries_by_source s l = filter (\<lambda>e. source e = s) (entries l)"

definition get_entries_by_type :: "decision_type \<Rightarrow> audit_ledger \<Rightarrow> audit_entry list" where
  "get_entries_by_type t l = filter (\<lambda>e. decision_type e = t) (entries l)"

definition get_entries_by_lane :: "string \<Rightarrow> audit_ledger \<Rightarrow> audit_entry list" where
  "get_entries_by_lane i l =
     (let normalized = normalize_audit_lane i in filter (\<lambda>e. lane_id (ae_lane e) = normalized) (entries l))"

definition get_entries_in_range :: "int \<Rightarrow> int \<Rightarrow> audit_ledger \<Rightarrow> audit_entry list" where
  "get_entries_in_range start end' l = filter (\<lambda>e. start \<le> ae_timestamp e \<and> ae_timestamp e \<le> end') (entries l)"

definition ledger_len :: "audit_ledger \<Rightarrow> nat" where
  "ledger_len l = length (entries l)"

section \<open>Durable entries\<close>

type_synonym audit_tree = "(u64, audit_entry) tree"

definition append_audit_entry :: "audit_entry \<Rightarrow> audit_tree \<Rightarrow> audit_tree" where
  "append_audit_entry e t = tree_insert (block_height e) e t"

definition replace_audit_entries :: "audit_entry list \<Rightarrow> audit_tree \<Rightarrow> audit_tree" where
  "replace_audit_entries es t = fold append_audit_entry es []"

text \<open>Migration of entries without a lane in their stored form; the flag marks those.\<close>

datatype migrate_error = Previous_hash_mismatch u64 | Legacy_hash_mismatch u64 | Current_hash_mismatch u64

text \<open>The loop's three variables: the expected original hash, the new previous hash, the entries so far.\<close>

type_synonym migration = "string \<times> string \<times> audit_entry list"

definition migrate_entry ::
    "primitives \<Rightarrow> formats \<Rightarrow> audit_entry \<times> bool \<Rightarrow> migration \<Rightarrow> (migration, migrate_error) res" where
  "migrate_entry p fm em st =
     (let (entry, missing_lane) = em; (original_expected, migrated_prev, out) = st in
      if previous_hash entry \<noteq> original_expected then Err (Previous_hash_mismatch (block_height entry))
      else if missing_lane \<and> ae_hash entry \<noteq> compute_legacy_pre_lane_hash p fm entry then
        Err (Legacy_hash_mismatch (block_height entry))
      else if \<not> missing_lane \<and> \<not> entry_verify p fm entry then Err (Current_hash_mismatch (block_height entry))
      else let entry1 = entry\<lparr>previous_hash := migrated_prev\<rparr>;
               entry2 = with_hash p fm entry1
           in Ok (ae_hash entry, ae_hash entry2, out @ [entry2]))"

definition migrate_legacy_lane_entries ::
    "primitives \<Rightarrow> formats \<Rightarrow> (audit_entry \<times> bool) list \<Rightarrow> (audit_entry list \<times> bool, migrate_error) res" where
  "migrate_legacy_lane_entries p fm es =
     (let es' = sort_key (\<lambda>em. block_height (fst em)) es in
      if \<not> list_ex snd es' then Ok (map fst es', False)
      else res_bind (res_fold (migrate_entry p fm) es' (zeros64, zeros64, []))
             (\<lambda>(_, _, out). Ok (out, True)))"

text \<open>
  A stored value is the entry, with its lane already derived from its context when the stored form has
  none, and whether it had none.
\<close>

definition load_audit_entries ::
    "primitives \<Rightarrow> formats \<Rightarrow> (u64, audit_entry \<times> bool) tree \<Rightarrow> (audit_entry list, migrate_error) res" where
  "load_audit_entries p fm t =
     (let es = map (\<lambda>(e, missing_lane). if missing_lane
                      then (e\<lparr>ae_lane := lane_from_context (network_context e) (ae_metadata e)\<rparr>, True)
                      else (e, False)) (tree_values t)
      in res_bind (migrate_legacy_lane_entries p fm es) (\<lambda>(out, _). Ok out))"

section \<open>The ledger invariant\<close>

definition ledger_ok :: "primitives \<Rightarrow> formats \<Rightarrow> audit_ledger \<Rightarrow> bool" where
  "ledger_ok p fm l \<longleftrightarrow> verify_chain p fm l \<and> latest_hash l = last_hash (entries l) \<and>
     latest_block l = last_block (entries l) \<and>
     map block_height (entries l) = map of_nat [1 ..< Suc (length (entries l))]"

lemma verify_from_append:
  "verify_from p fm h (xs @ ys) \<longleftrightarrow>
     verify_from p fm h xs \<and> verify_from p fm (if xs = [] then h else ae_hash (last xs)) ys"
  by (induction xs arbitrary: h) auto

lemma verify_zeros_append:
  "verify_from p fm zeros64 (xs @ ys) \<longleftrightarrow> verify_from p fm zeros64 xs \<and> verify_from p fm (last_hash xs) ys"
  by (simp add: verify_from_append last_hash_def)

lemma entry_verify_with_hash [simp]: "entry_verify p fm (with_hash p fm e)"
  by (simp add: entry_verify_def with_hash_def entry_compute_hash_def hashed_bytes_def)

lemma with_hash_fields [simp]:
  "previous_hash (with_hash p fm e) = previous_hash e" "block_height (with_hash p fm e) = block_height e"
  "entry_id (with_hash p fm e) = entry_id e" "ae_hash (with_hash p fm e) = entry_compute_hash p fm e"
  "content (with_hash p fm e) = content e"
  by (simp_all add: with_hash_def content_def)

lemma new_entry_fields:
  "entry_verify p fm (entry_new_with_metadata p fm clk h prev d)"
  "previous_hash (entry_new_with_metadata p fm clk h prev d) = prev"
  "block_height (entry_new_with_metadata p fm clk h prev d) = h"
  "entry_id (entry_new_with_metadata p fm clk h prev d) = uuid_v4 (clk_nanos1 clk) (clk_nanos2 clk)"
  by (simp_all add: entry_new_with_metadata_def Let_def)

lemma last_block_ok:
  "map block_height es = map of_nat [1 ..< Suc (length es)] \<Longrightarrow> last_block es = of_nat (length es)"
proof (cases es rule: rev_cases)
  case (snoc xs x)
  then show "map block_height es = map of_nat [1 ..< Suc (length es)] \<Longrightarrow> last_block es = of_nat (length es)"
    by (simp add: last_block_def)
qed (simp add: last_block_def)

lemma ledger_ok_new: "ledger_ok p fm ledger_new"
  by (simp add: ledger_ok_def ledger_new_def verify_chain_def last_hash_def last_block_def)

lemma ledger_ok_record:
  assumes "ledger_ok p fm l" "record_decision_with_metadata p fm clk d l = (e, l')"
  shows "ledger_ok p fm l'"
proof -
  have l': "l' = l\<lparr>entries := entries l @ [e], latest_hash := ae_hash e, latest_block := latest_block l + 1\<rparr>"
    and e: "e = entry_new_with_metadata p fm clk (latest_block l + 1) (latest_hash l) d"
    using assms(2) by (auto simp: record_decision_with_metadata_def Let_def)
  have "latest_block l = of_nat (length (entries l))"
    using assms(1) last_block_ok by (simp add: ledger_ok_def)
  then show ?thesis
    using assms(1) unfolding ledger_ok_def verify_chain_def l'
    by (simp add: verify_zeros_append e new_entry_fields) (simp add: last_hash_def last_block_def new_entry_fields)
qed

lemma ledger_ok_rollback:
  assumes "ledger_ok p fm l" "rollback_latest i l = (ok, l')"
  shows "ledger_ok p fm l'"
proof (cases "entries l" rule: rev_cases)
  case (snoc xs x)
  then show ?thesis
    using assms by (auto simp: ledger_ok_def rollback_latest_def verify_chain_def verify_zeros_append Let_def
        split: if_splits)
qed (use assms in \<open>simp add: rollback_latest_def\<close>)

end
