(* ===== verification/AuditRun.thy ===== *)
theory AuditRun
  imports AuditLedger
begin

text \<open>
  Runs of the audit path (\<open>audit_record\<close> in \<^verbatim>\<open>src/src/api.rs\<close>): a handler records a decision in memory,
  then appends it to the durable tree, and rolls the ledger back when the append fails. Handlers of
  different requests interleave between these two steps; \<open>a_pending\<close> holds the entries recorded but not
  yet appended. The flag of \<open>audit_reach\<close> says whether an append may fail after a later decision was
  recorded; the code allows it.
\<close>

record audit_system =
  a_ledger :: audit_ledger
  a_tree :: audit_tree
  a_pending :: "audit_entry list"

definition audit_start :: audit_system where
  "audit_start = \<lparr>a_ledger = ledger_new, a_tree = [], a_pending = []\<rparr>"

definition begin_record :: "primitives \<Rightarrow> formats \<Rightarrow> clock \<Rightarrow> decision_input \<Rightarrow> audit_system \<Rightarrow> audit_system" where
  "begin_record p fm clk d s =
     (let (e, l) = record_decision_with_metadata p fm clk d (a_ledger s)
      in s\<lparr>a_ledger := l, a_pending := e # a_pending s\<rparr>)"

definition append_ok :: "audit_entry \<Rightarrow> audit_system \<Rightarrow> audit_system" where
  "append_ok e s = s\<lparr>a_tree := append_audit_entry e (a_tree s), a_pending := remove1 e (a_pending s)\<rparr>"

definition append_failed :: "audit_entry \<Rightarrow> audit_system \<Rightarrow> audit_system" where
  "append_failed e s = s\<lparr>a_ledger := snd (rollback_latest (entry_id e) (a_ledger s)),
                         a_pending := remove1 e (a_pending s)\<rparr>"

inductive audit_reach :: "primitives \<Rightarrow> formats \<Rightarrow> bool \<Rightarrow> audit_system \<Rightarrow> bool" for p fm late where
  r_start: "audit_reach p fm late audit_start"
| r_record: "audit_reach p fm late s \<Longrightarrow> length (entries (a_ledger s)) < 2 ^ 64 - 1 \<Longrightarrow>
     audit_reach p fm late (begin_record p fm clk d s)"
| r_persist: "audit_reach p fm late s \<Longrightarrow> e \<in> set (a_pending s) \<Longrightarrow> audit_reach p fm late (append_ok e s)"
| r_fail: "audit_reach p fm late s \<Longrightarrow> e \<in> set (a_pending s) \<Longrightarrow>
     late \<or> e = last (entries (a_ledger s)) \<Longrightarrow> audit_reach p fm late (append_failed e s)"

section \<open>The invariant of a run\<close>

definition audit_inv :: "primitives \<Rightarrow> formats \<Rightarrow> audit_system \<Rightarrow> bool" where
  "audit_inv p fm s \<longleftrightarrow> ledger_ok p fm (a_ledger s) \<and> length (entries (a_ledger s)) < 2 ^ 64 \<and>
     tree_wf (a_tree s) \<and> distinct (a_pending s) \<and> set (a_pending s) \<subseteq> set (entries (a_ledger s)) \<and>
     (\<forall>h e. tree_get (a_tree s) h = Some e \<longleftrightarrow>
        block_height e = h \<and> e \<in> set (entries (a_ledger s)) - set (a_pending s))"

lemma heights_distinct:
  assumes "ledger_ok p fm l" "length (entries l) < 2 ^ 64"
  shows "inj_on block_height (set (entries l)) \<and> distinct (entries l)"
proof -
  have "distinct (map (of_nat :: nat \<Rightarrow> u64) [1 ..< Suc (length (entries l))])"
    using assms(2) by (auto simp: distinct_map inj_on_def of_nat_u64_eq_iff unat_of_nat_u64)
  then have "distinct (map block_height (entries l))" using assms(1) by (simp add: ledger_ok_def)
  then show ?thesis by (simp add: distinct_map)
qed

lemma audit_inv_start: "audit_inv p fm audit_start"
  by (simp add: audit_inv_def audit_start_def ledger_ok_new tree_simps) (simp add: ledger_new_def)

lemma audit_inv_record:
  assumes inv: "audit_inv p fm s" and room: "length (entries (a_ledger s)) < 2 ^ 64 - 1"
  shows "audit_inv p fm (begin_record p fm clk d s)"
proof -
  obtain e l where r: "record_decision_with_metadata p fm clk d (a_ledger s) = (e, l)" by fastforce
  have ok: "ledger_ok p fm l" using ledger_ok_record [OF _ r] inv by (simp add: audit_inv_def)
  have es: "entries l = entries (a_ledger s) @ [e]"
    using r by (auto simp: record_decision_with_metadata_def Let_def)
  have len: "length (entries l) < 2 ^ 64" using room es by simp
  have "e \<notin> set (entries (a_ledger s))" using heights_distinct [OF ok len] es by simp
  then show ?thesis
    using inv ok len es by (auto simp: audit_inv_def begin_record_def r)
qed

lemma audit_inv_persist:
  assumes inv: "audit_inv p fm s" and e: "e \<in> set (a_pending s)"
  shows "audit_inv p fm (append_ok e s)"
proof -
  have inj: "inj_on block_height (set (entries (a_ledger s)))"
    using heights_distinct inv by (auto simp: audit_inv_def)
  have mem: "e \<in> set (entries (a_ledger s))" using inv e by (auto simp: audit_inv_def)
  have get: "tree_get (a_tree (append_ok e s)) h = Some x \<longleftrightarrow>
      block_height x = h \<and> x \<in> set (entries (a_ledger s)) - set (remove1 e (a_pending s))" for h x
  proof (cases "h = block_height e")
    case True
    have "x = e" if "block_height x = block_height e" "x \<in> set (entries (a_ledger s))"
      using inj that mem by (auto dest: inj_onD)
    then show ?thesis
      using True inv mem by (auto simp: append_ok_def append_audit_entry_def tree_simps audit_inv_def)
  next
    case False
    then have "x \<noteq> e" if "block_height x = h" using that by auto
    then show ?thesis
      using False inv e by (auto simp: append_ok_def append_audit_entry_def tree_simps audit_inv_def)
  qed
  show ?thesis
    using inv get unfolding audit_inv_def
    by (auto simp: append_ok_def append_audit_entry_def dest: notin_set_remove1)
qed

lemma audit_inv_fail:
  assumes inv: "audit_inv p fm s" and e: "e \<in> set (a_pending s)" and last: "e = last (entries (a_ledger s))"
  shows "audit_inv p fm (append_failed e s)"
proof -
  have "entries (a_ledger s) \<noteq> []" using inv e by (auto simp: audit_inv_def)
  then have es: "entries (a_ledger s) = butlast (entries (a_ledger s)) @ [e]" using last by simp
  have r: "entries (snd (rollback_latest (entry_id e) (a_ledger s))) = butlast (entries (a_ledger s))"
    using last \<open>entries (a_ledger s) \<noteq> []\<close> by (simp add: rollback_latest_def Let_def)
  have ok: "ledger_ok p fm (snd (rollback_latest (entry_id e) (a_ledger s)))"
    using ledger_ok_rollback [of p fm "a_ledger s" "entry_id e"] inv
    by (cases "rollback_latest (entry_id e) (a_ledger s)") (auto simp: audit_inv_def)
  have "e \<notin> set (butlast (entries (a_ledger s)))"
    using heights_distinct [of p fm "a_ledger s"] inv es
    by (metis audit_inv_def distinct_append disjoint_insert(1) list.set(2))
  moreover have "set (entries (a_ledger s)) = insert e (set (butlast (entries (a_ledger s))))"
    by (subst es) simp
  ultimately show ?thesis
    using inv ok e unfolding audit_inv_def append_failed_def
    by (auto simp: r)
qed

lemma audit_reach_inv: "audit_reach p fm False s \<Longrightarrow> audit_inv p fm s"
  by (induction rule: audit_reach.induct)
     (simp_all add: audit_inv_start audit_inv_record audit_inv_persist audit_inv_fail)

section \<open>Restarting\<close>

lemma entries_tree:
  assumes "ledger_ok p fm l" "length (entries l) < 2 ^ 64"
  shows "tree_wf (map (\<lambda>e. (block_height e, e)) (entries l))" "sorted (map block_height (entries l))"
proof -
  have "sorted_wrt (<) (map (of_nat :: nat \<Rightarrow> u64) [1 ..< Suc (length (entries l))])"
    unfolding sorted_wrt_map
  proof (rule sorted_wrt_mono_rel [OF _ sorted_wrt_upt])
    show "(of_nat i :: u64) < of_nat j"
      if "i \<in> set [1 ..< Suc (length (entries l))]" "j \<in> set [1 ..< Suc (length (entries l))]" "i < j" for i j
      using that assms(2) by (auto simp: word_less_nat_alt unat_of_nat_u64)
  qed
  then have s: "sorted_wrt (<) (map block_height (entries l))" using assms(1) by (simp add: ledger_ok_def)
  then show "tree_wf (map (\<lambda>e. (block_height e, e)) (entries l))" by (simp add: tree_wf_def comp_def)
  show "sorted (map block_height (entries l))" using s by (simp add: strict_sorted_iff)
qed

lemma durable_entries:
  assumes "audit_inv p fm s" "a_pending s = []"
  shows "tree_values (a_tree s) = entries (a_ledger s)"
proof -
  let ?m = "map (\<lambda>e. (block_height e, e)) (entries (a_ledger s))"
  have ok: "ledger_ok p fm (a_ledger s)" "length (entries (a_ledger s)) < 2 ^ 64" "tree_wf (a_tree s)"
    using assms(1) by (auto simp: audit_inv_def)
  have "tree_get (a_tree s) h = Some e \<longleftrightarrow> block_height e = h \<and> e \<in> set (entries (a_ledger s))" for h e
    using assms unfolding audit_inv_def by simp
  then have "tree_get (a_tree s) h = tree_get ?m h" for h
    by (intro option_eqI) (auto simp: tree_get_Some_iff entries_tree(1) [OF ok(1,2)])
  then have "a_tree s = ?m" by (intro tree_eqI ok(3) entries_tree(1) [OF ok(1,2)])
  then show ?thesis by (simp add: tree_values_def comp_def)
qed

lemma from_entries_ok:
  assumes "ledger_ok p fm l" "length (entries l) < 2 ^ 64"
  shows "from_entries (entries l) = l"
  using assms entries_tree(2) [OF assms]
  by (simp add: from_entries_def Let_def sort_key_id_if_sorted ledger_ok_def)

text \<open>
  Recording and rolling back: rolling back the entry just recorded restores the ledger exactly, and
  every ledger reached by recording and rolling back verifies, numbers its entries from 1 without gaps
  and points at its last entry.
\<close>

lemma record_rollback_roundtrip:
  assumes "ledger_ok p fm l" "record_decision_with_metadata p fm clk d l = (e, l')"
  shows "ledger_ok p fm l' \<and> entry_verify p fm e \<and> rollback_latest (entry_id e) l' = (True, l)"
proof -
  have e: "e = entry_new_with_metadata p fm clk (latest_block l + 1) (latest_hash l) d"
    and l': "l' = l\<lparr>entries := entries l @ [e], latest_hash := ae_hash e, latest_block := latest_block l + 1\<rparr>"
    using assms(2) by (auto simp: record_decision_with_metadata_def Let_def)
  have "rollback_latest (entry_id e) l' = (True, l)"
    using assms(1) by (simp add: rollback_latest_def l' Let_def ledger_ok_def)
  then show ?thesis using ledger_ok_record [OF assms] e by (simp add: new_entry_fields)
qed

definition sample_formats :: formats where
  "sample_formats = \<lparr>rfc3339 = (\<lambda>t. (if t < 0 then ''-'' else ''+'') @ dec (nat \<bar>t\<bar>)), ymd_hms_utc = (\<lambda>_. []),
     debug_str = (\<lambda>s. s), display_f64 = (\<lambda>_. []), percent2 = (\<lambda>_. []), millis2 = (\<lambda>_. [])\<rparr>"

definition sample_input :: decision_input where
  "sample_input = \<lparr>di_source = Cortex, di_type = GeneralQuery, di_model_id = ''m'', di_model_version = ''1'',
     di_input_summary = [], di_input_data = [], di_decision = ''d'', di_confidence = 0, di_reasoning = ''r'',
     di_factors = [], di_ethics_validated = True, di_subsystems = [], di_network_context = ''public'',
     di_latency_ms = 0, di_metadata = []\<rparr>"

definition sample_clock :: clock where
  "sample_clock = \<lparr>clk_utc = 7, clk_nanos1 = 8, clk_nanos2 = 9\<rparr>"

lemma record_rollback_sample:
  "\<exists>e l'. record_decision_with_metadata sample_primitives sample_formats sample_clock sample_input ledger_new = (e, l') \<and>
     rollback_latest (entry_id e) l' = (True, ledger_new)"
  using record_rollback_roundtrip [OF ledger_ok_new] by (metis surj_pair)


definition sample_system :: audit_system where
  "sample_system = begin_record sample_primitives sample_formats sample_clock sample_input audit_start"

lemma sample_audit_run:
  "audit_reach sample_primitives sample_formats False (append_ok (hd (a_pending sample_system)) sample_system)"
  "a_pending (append_ok (hd (a_pending sample_system)) sample_system) = []"
proof -
  have reach: "audit_reach sample_primitives sample_formats False sample_system"
    unfolding sample_system_def by (rule r_record [OF r_start]) (simp add: audit_start_def ledger_new_def)
  have one: "a_pending sample_system \<noteq> []" "length (a_pending sample_system) = 1"
    by (simp_all add: sample_system_def begin_record_def audit_start_def ledger_new_def
        record_decision_with_metadata_def Let_def)
  show "audit_reach sample_primitives sample_formats False (append_ok (hd (a_pending sample_system)) sample_system)"
    using one by (intro r_persist [OF reach]) simp
  show "a_pending (append_ok (hd (a_pending sample_system)) sample_system) = []"
    using one by (cases "a_pending sample_system") (auto simp: append_ok_def)
qed


text \<open>
  Without that condition it can fail: when the append of one decision fails after a second decision
  was recorded, the rollback is refused, the second decision's durable entry names a predecessor that was
  never stored, and the next startup rejects the whole durable ledger.
\<close>

lemma late_append_failure_breaks_restart:
  assumes "record_decision_with_metadata p fm clk1 d1 ledger_new = (a, l1)"
    "record_decision_with_metadata p fm clk2 d2 l1 = (b, l2)"
    "ae_hash a \<noteq> zeros64" "entry_id a \<noteq> entry_id b"
  shows "\<exists>s. audit_reach p fm True s \<and> a_pending s = [] \<and> tree_values (a_tree s) = [b] \<and>
    try_from_entries p fm (tree_values (a_tree s)) = Err Chain_verification_failed"
proof -
  let ?s2 = "begin_record p fm clk2 d2 (begin_record p fm clk1 d1 audit_start)"
  let ?s = "append_ok b (append_failed a ?s2)"
  have shape: "entries (a_ledger ?s2) = [a, b]" "a_pending ?s2 = [b, a]" "a_tree ?s2 = []"
    "previous_hash b = ae_hash a"
    using assms(1,2)
    by (auto simp: begin_record_def audit_start_def ledger_new_def record_decision_with_metadata_def Let_def
        new_entry_fields)
  have reach: "audit_reach p fm True ?s2"
    by (intro r_record r_start)
       (simp_all add: begin_record_def audit_start_def ledger_new_def record_decision_with_metadata_def Let_def)
  have fail: "append_failed a ?s2 = ?s2\<lparr>a_pending := [b]\<rparr>"
    using shape assms(4) by (auto simp: append_failed_def rollback_latest_def)
  have "audit_reach p fm True ?s"
    using shape by (intro r_persist r_fail reach) (simp_all add: fail)
  moreover have "a_pending ?s = []" "tree_values (a_tree ?s) = [b]"
    using shape by (simp_all add: fail append_ok_def append_audit_entry_def tree_values_def)
  moreover have "\<not> verify_chain p fm (from_entries [b])"
    using shape(4) assms(3) by (simp add: verify_chain_def from_entries_def Let_def)
  ultimately show ?thesis by (auto simp: try_from_entries_def)
qed

lemma record_entry:
  "record_decision_with_metadata p fm clk d l = (e, l') \<Longrightarrow>
     entry_verify p fm e \<and> entry_id e = uuid_v4 (clk_nanos1 clk) (clk_nanos2 clk)"
  by (auto simp: record_decision_with_metadata_def Let_def new_entry_fields)

lemma length_hex_fixed [simp]: "length (hex_fixed k n) = k"
  by (induction k arbitrary: n) auto

lemma hex_fixed_last: "hex_digit (m mod 16) \<noteq> hex_digit (n mod 16) \<Longrightarrow> hex_fixed (Suc k) m \<noteq> hex_fixed (Suc k) n"
  by simp

lemma sample_hash_not_zeros: "entry_compute_hash sample_primitives fm e \<noteq> zeros64"
proof -
  have le: "le64 (of_nat (length ''entry_id'')) = CHR 0x08 # replicate 7 (CHR 0x00)" by code_simp
  have "\<exists>rest. hash_field ''entry_id'' (entry_id e) @ more = CHR 0x08 # rest" for more
    unfolding hash_field_def le append_Cons by (rule exI) (rule refl)
  then obtain rest where h: "hashed_bytes fm e = CHR 0x08 # rest" unfolding hashed_bytes_def by blast
  have "nibble 8 = CHR ''8''" by code_simp
  then have "entry_compute_hash sample_primitives fm e ! 1 = CHR ''8''"
    by (simp add: entry_compute_hash_def h sample_primitives_def sample_digest_def)
  then show ?thesis by (auto simp: zeros64_def)
qed

lemma late_append_failure_breaks_restart_sample:
  "\<exists>s. audit_reach sample_primitives sample_formats True s \<and> a_pending s = [] \<and>
     try_from_entries sample_primitives sample_formats (tree_values (a_tree s)) = Err Chain_verification_failed"
proof -
  let ?clk = "sample_clock\<lparr>clk_nanos1 := 11\<rparr>"
  obtain a l1 where r1: "record_decision_with_metadata sample_primitives sample_formats sample_clock sample_input ledger_new = (a, l1)"
    by fastforce
  obtain b l2 where r2: "record_decision_with_metadata sample_primitives sample_formats ?clk sample_input l1 = (b, l2)"
    by fastforce
  have "hex_fixed 32 8 \<noteq> hex_fixed 32 11"
    using hex_fixed_last [of 8 11 31] by (simp add: hex_digit_def)
  then have "uuid_v4 8 9 \<noteq> uuid_v4 11 9" by (simp add: uuid_v4_def)
  then have "entry_id a \<noteq> entry_id b"
    using record_entry [OF r1] record_entry [OF r2] by (simp add: sample_clock_def)
  moreover have "ae_hash a \<noteq> zeros64"
    using record_entry [OF r1] sample_hash_not_zeros by (simp add: entry_verify_def)
  ultimately show ?thesis using late_append_failure_breaks_restart [OF r1 r2] by blast
qed

section \<open>Tamper evidence\<close>

definition keccak_collision :: "primitives \<Rightarrow> bool" where
  "keccak_collision p \<longleftrightarrow> (\<exists>u v. u \<noteq> v \<and> keccak256 p u = keccak256 p v)"

lemma same_hash_content:
  assumes "hex_codec p" "faithful_formats fm" "fits_entry fm a" "fits_entry fm b"
    "entry_verify p fm a" "entry_verify p fm b" "ae_hash a = ae_hash b" "\<not> keccak_collision p"
  shows "content a = content b"
proof -
  have "hex_encode p x = hex_encode p y \<Longrightarrow> x = y" for x y
    using assms(1) unfolding hex_codec_def by (metis option.inject)
  then have "keccak256 p (hashed_bytes fm a) = keccak256 p (hashed_bytes fm b)"
    using assms(5-7) by (simp add: entry_verify_def entry_compute_hash_def)
  then have "hashed_bytes fm a = hashed_bytes fm b" using assms(8) by (auto simp: keccak_collision_def)
  then show ?thesis by (rule hashed_bytes_inj [OF assms(2-4)])
qed

lemma content_sel [simp]:
  "previous_hash (content e) = previous_hash e" "block_height (content e) = block_height e"
  by (simp_all add: content_def)

lemma content_fields:
  assumes "content a = content b"
  shows "previous_hash a = previous_hash b \<and> block_height a = block_height b"
  using arg_cong [OF assms, of previous_hash] arg_cong [OF assms, of block_height] by simp

lemma same_length_same_content:
  assumes "hex_codec p" "faithful_formats fm" "\<not> keccak_collision p"
    "length xs = length ys" "\<forall>e \<in> set xs \<union> set ys. fits_entry fm e"
    "verify_from p fm zeros64 xs" "verify_from p fm zeros64 ys" "last_hash xs = last_hash ys"
  shows "map content xs = map content ys"
  using assms(4-8)
proof (induction xs arbitrary: ys rule: rev_induct)
  case (snoc x xs)
  then obtain y zs where ys: "ys = zs @ [y]" by (cases ys rule: rev_cases) auto
  have v: "verify_from p fm zeros64 xs" "previous_hash x = last_hash xs" "entry_verify p fm x"
    "verify_from p fm zeros64 zs" "previous_hash y = last_hash zs" "entry_verify p fm y"
    using snoc.prems(3,4) by (auto simp: ys verify_zeros_append split: if_splits)
  have "ae_hash x = ae_hash y" using snoc.prems(5) by (simp add: ys last_hash_def)
  then have c: "content x = content y"
    using same_hash_content [OF assms(1,2) _ _ v(3,6) _ assms(3)] snoc.prems(2) by (simp add: ys)
  then have "last_hash xs = last_hash zs" using v(2,5) content_fields by metis
  then have "map content xs = map content zs"
    using snoc.IH [of zs] snoc.prems(1,2) v by (simp add: ys)
  with c show ?case by (simp add: ys)
qed simp


lemma sample_formats_ok: "faithful_formats sample_formats"
  by (auto simp: faithful_formats_def sample_formats_def inj_def dest!: dec_inj split: if_splits)

definition sample_ledger :: audit_ledger where
  "sample_ledger = snd (record_decision_with_metadata sample_primitives sample_formats sample_clock sample_input ledger_new)"

lemma sample_ledger_ok: "ledger_ok sample_primitives sample_formats sample_ledger"
  unfolding sample_ledger_def using ledger_ok_record [OF ledger_ok_new] by (metis surj_pair snd_conv)

lemma sample_ledger_entries:
  "entries sample_ledger = [entry_new_with_metadata sample_primitives sample_formats sample_clock 1 zeros64 sample_input]"
  by (simp add: sample_ledger_def record_decision_with_metadata_def ledger_new_def Let_def)

lemma length_dec_digit: "n < 10 \<Longrightarrow> length (dec n) = 1"
  by (subst dec.simps) simp

lemma sample_entry_fits:
  "fits_entry sample_formats (entry_new_with_metadata sample_primitives sample_formats sample_clock 1 zeros64 sample_input)"
proof -
  have "length (data_hash sample_primitives []) = 64"
    by (simp add: data_hash_def sample_primitives_def sample_digest_def sample_hex_shape)
  moreover have "fits_lane (lane_from_context c [])" for c
    by (auto simp: lane_from_context_id fits_lane_def lane_defs AUDIT_LANE_MIGRATION_ID_def)
  ultimately show ?thesis
    by (simp add: fits_entry_def entry_new_with_metadata_def with_hash_def Let_def sample_input_def
        sample_clock_def sample_formats_def uuid_v4_def zeros64_def fits_option_def length_dec_digit)
qed


section \<open>Migration\<close>

definition body :: "audit_entry \<Rightarrow> audit_entry" where
  "body e = e\<lparr>previous_hash := [], ae_hash := []\<rparr>"

lemma migrate_entry_Ok:
  assumes "migrate_entry p fm (e, miss) (oe, mp, out) = Ok (oe', mp', out')"
  shows "previous_hash e = oe" "oe' = ae_hash e" "if miss then ae_hash e = compute_legacy_pre_lane_hash p fm e else entry_verify p fm e"
    "out' = out @ [with_hash p fm (e\<lparr>previous_hash := mp\<rparr>)]" "mp' = ae_hash (with_hash p fm (e\<lparr>previous_hash := mp\<rparr>))"
  using assms by (auto simp: migrate_entry_def Let_def split: if_splits)

lemma body_with_hash [simp]: "body (with_hash p fm (e\<lparr>previous_hash := h\<rparr>)) = body e"
  by (simp add: body_def with_hash_def)

lemma migrate_run:
  assumes "res_fold (migrate_entry p fm) es (oe, mp, out) = Ok (oe', mp', out')"
    "verify_from p fm zeros64 out" "mp = last_hash out"
  shows "verify_from p fm zeros64 out' \<and> map body out' = map body out @ map (body \<circ> fst) es"
  using assms
proof (induction es arbitrary: oe mp out)
  case (Cons em es)
  obtain e miss where em: "em = (e, miss)" by fastforce
  from Cons.prems(1) obtain oe1 mp1 out1 where step: "migrate_entry p fm (e, miss) (oe, mp, out) = Ok (oe1, mp1, out1)"
    and rest: "res_fold (migrate_entry p fm) es (oe1, mp1, out1) = Ok (oe', mp', out')"
    by (auto simp: em res_simps)
  note m = migrate_entry_Ok [OF step]
  have "verify_from p fm zeros64 out1"
    using m(4) Cons.prems(2,3) by (simp add: verify_zeros_append)
  moreover have "mp1 = last_hash out1" using m(4,5) by (simp add: last_hash_def)
  ultimately show ?case using Cons.IH [OF rest] m(4) by (simp add: em)
qed simp

text \<open>The entries were authentic before the migration: each named its predecessor and carried its own hash.\<close>

fun authentic :: "primitives \<Rightarrow> formats \<Rightarrow> string \<Rightarrow> (audit_entry \<times> bool) list \<Rightarrow> bool" where
  "authentic p fm h [] = True"
| "authentic p fm h ((e, miss) # es) =
     (previous_hash e = h \<and> ae_hash e = (if miss then compute_legacy_pre_lane_hash p fm e else entry_compute_hash p fm e)
      \<and> authentic p fm (ae_hash e) es)"

lemma migrate_authentic:
  "res_fold (migrate_entry p fm) es (oe, mp, out) = Ok st \<Longrightarrow> authentic p fm oe es"
proof (induction es arbitrary: oe mp out)
  case (Cons em es)
  obtain e miss where em: "em = (e, miss)" by fastforce
  from Cons.prems obtain oe1 mp1 out1 where step: "migrate_entry p fm (e, miss) (oe, mp, out) = Ok (oe1, mp1, out1)"
    and rest: "res_fold (migrate_entry p fm) es (oe1, mp1, out1) = Ok st"
    by (auto simp: em res_simps)
  from migrate_entry_Ok [OF step] Cons.IH [OF rest] show ?case
    by (auto simp: em entry_verify_def split: if_splits)
qed simp

lemma migrate_complete:
  "authentic p fm oe es \<Longrightarrow> \<exists>st. res_fold (migrate_entry p fm) es (oe, mp, out) = Ok st"
proof (induction es arbitrary: oe mp out)
  case (Cons em es)
  obtain e miss where em: "em = (e, miss)" by fastforce
  have "migrate_entry p fm (e, miss) (oe, mp, out) = Ok (ae_hash e, ae_hash (with_hash p fm (e\<lparr>previous_hash := mp\<rparr>)),
      out @ [with_hash p fm (e\<lparr>previous_hash := mp\<rparr>)])"
    using Cons.prems by (auto simp: em migrate_entry_def Let_def entry_verify_def split: if_splits)
  moreover have "authentic p fm (ae_hash e) es" using Cons.prems unfolding em authentic.simps by blast
  then obtain st where "res_fold (migrate_entry p fm) es (ae_hash e,
      ae_hash (with_hash p fm (e\<lparr>previous_hash := mp\<rparr>)), out @ [with_hash p fm (e\<lparr>previous_hash := mp\<rparr>)]) = Ok st"
    using Cons.IH by blast
  ultimately show ?case unfolding em res_fold.simps by (cases st rule: prod_cases3) simp
qed simp

text \<open>
  C11. Migration of a store with entries from before lanes were hashed: it succeeds exactly when, in
  height order, every entry names its predecessor's stored hash and carries the hash of its own format;
  then the migrated entries verify under the current hash, and nothing but the chaining hashes changed.
\<close>

theorem migration_sound_complete:
  assumes "list_ex snd es"
  shows "((\<exists>out. migrate_legacy_lane_entries p fm es = Ok (out, True)) \<longleftrightarrow>
       authentic p fm zeros64 (sort_key (\<lambda>em. block_height (fst em)) es)) \<and>
    (\<forall>out b. migrate_legacy_lane_entries p fm es = Ok (out, b) \<longrightarrow>
       b \<and> verify_from p fm zeros64 out \<and>
       map body out = map (body \<circ> fst) (sort_key (\<lambda>em. block_height (fst em)) es))"
proof -
  let ?es = "sort_key (\<lambda>em. block_height (fst em)) es"
  have ex: "list_ex snd ?es" using assms by (simp add: list_ex_iff)
  have sound: "b \<and> verify_from p fm zeros64 out \<and> map body out = map (body \<circ> fst) ?es"
    if "migrate_legacy_lane_entries p fm es = Ok (out, b)" for out b
  proof -
    from that ex obtain oe mp where "res_fold (migrate_entry p fm) ?es (zeros64, zeros64, []) = Ok (oe, mp, out)" "b"
      by (auto simp: migrate_legacy_lane_entries_def Let_def res_simps)
    then show ?thesis using migrate_run [of p fm ?es zeros64 zeros64 "[]" oe mp out] by (simp add: last_hash_def)
  qed
  have "(\<exists>out. migrate_legacy_lane_entries p fm es = Ok (out, True)) \<longleftrightarrow>
      (\<exists>st. res_fold (migrate_entry p fm) ?es (zeros64, zeros64, []) = Ok st)"
    using ex by (fastforce simp: migrate_legacy_lane_entries_def Let_def res_simps)
  also have "\<dots> \<longleftrightarrow> authentic p fm zeros64 ?es"
    using migrate_authentic migrate_complete by blast
  finally show ?thesis using sound by blast
qed

definition legacy_entry :: audit_entry where
  "legacy_entry = (let e = hd (entries sample_ledger)
     in e\<lparr>ae_hash := compute_legacy_pre_lane_hash sample_primitives sample_formats e\<rparr>)"

theorem migration_sound_complete_witness:
  "\<exists>out. migrate_legacy_lane_entries sample_primitives sample_formats [(legacy_entry, True)] = Ok (out, True) \<and>
     verify_from sample_primitives sample_formats zeros64 out"
proof -
  have "authentic sample_primitives sample_formats zeros64 [(legacy_entry, True)]"
    by (simp add: legacy_entry_def Let_def sample_ledger_entries new_entry_fields compute_legacy_pre_lane_hash_def)
  then show ?thesis
    using migration_sound_complete [of "[(legacy_entry, True)]" sample_primitives sample_formats] by auto
qed

end
