(* ===== verification/AuditExport.thy ===== *)
theory AuditExport
  imports AuditRun
begin

text \<open>
  \<^verbatim>\<open>src/src/audit/ledger.rs\<close>, what leaves the ledger: the tribunal format and the training export with its
  manifest of per-lane counts. Counters are natural numbers (\<open>usize\<close> sums bounded by the entries in memory).
\<close>

section \<open>Tribunal format\<close>

record tribunal_format =
  tf_case_number :: string
  tf_hearing_date :: string
  tf_ai_system :: string
  tf_decision_source :: string
  tf_decision_type :: string
  tf_input_summary :: string
  tf_decision :: string
  tf_confidence :: string
  tf_confidence_level :: string
  tf_reasoning :: string
  tf_factors_considered :: "string list"
  tf_ethics_approval :: bool
  tf_ethics_details :: "string option"
  tf_subsystems_involved :: "string list"
  tf_network :: string
  tf_lane :: audit_lane
  tf_requester :: string
  tf_clearance :: string
  tf_action :: string
  tf_outcome :: string
  tf_latency_ms :: string
  tf_integrity_verified :: bool
  tf_block_height :: u64
  tf_entry_hash :: string
  tf_previous_hash :: string
  tf_metadata :: metadata

definition unwrap_or :: "'a \<Rightarrow> 'a option \<Rightarrow> 'a" where
  "unwrap_or d x = (case x of Some v \<Rightarrow> v | None \<Rightarrow> d)"

definition to_tribunal_format :: "primitives \<Rightarrow> formats \<Rightarrow> audit_entry \<Rightarrow> tribunal_format" where
  "to_tribunal_format p fm e =
     \<lparr>tf_case_number = entry_id e, tf_hearing_date = ymd_hms_utc fm (ae_timestamp e),
      tf_ai_system = model_id e @ '' v'' @ model_version e,
      tf_decision_source = source_debug fm (source e), tf_decision_type = type_debug (decision_type e),
      tf_input_summary = input_summary e, tf_decision = decision e,
      tf_confidence = percent2 fm (confidence e), tf_confidence_level = level_debug (confidence_level e),
      tf_reasoning = reasoning e, tf_factors_considered = factors e,
      tf_ethics_approval = ethics_validated e, tf_ethics_details = ethics_details e,
      tf_subsystems_involved = subsystems e, tf_network = network_context e, tf_lane = ae_lane e,
      tf_requester = unwrap_or ''Anonymous'' (requester e), tf_clearance = unwrap_or ''None'' (clearance_level e),
      tf_action = unwrap_or ''None'' (action_taken e), tf_outcome = unwrap_or ''Pending'' (outcome e),
      tf_latency_ms = millis2 fm (latency_ms e), tf_integrity_verified = entry_verify p fm e,
      tf_block_height = block_height e, tf_entry_hash = ae_hash e, tf_previous_hash = previous_hash e,
      tf_metadata = ae_metadata e\<rparr>"

definition get_all_for_tribunal :: "primitives \<Rightarrow> formats \<Rightarrow> audit_ledger \<Rightarrow> tribunal_format list" where
  "get_all_for_tribunal p fm l = map (to_tribunal_format p fm) (entries l)"

section \<open>Training records\<close>

record training_record =
  tr_entry_id :: string
  tr_timestamp :: int
  tr_block_height :: u64
  tr_lane :: audit_lane
  tr_decision_source :: string
  tr_decision_type :: string
  tr_model_id :: string
  tr_model_version :: string
  tr_input_summary :: string
  tr_decision :: string
  tr_confidence :: f64
  tr_confidence_level :: confidence_level
  tr_reasoning :: "string option"
  tr_factors :: "string list"
  tr_ethics_validated :: bool
  tr_subsystems :: "string list"
  tr_network_context :: string
  tr_latency_ms :: f64
  tr_integrity_verified :: bool
  tr_entry_hash :: string
  tr_metadata :: metadata

definition metadata_value_eq :: "metadata \<Rightarrow> string \<Rightarrow> string \<Rightarrow> bool" where
  "metadata_value_eq md key expected =
     (case tree_get md key of Some v \<Rightarrow> eq_ignore_ascii_case (trim v) expected | None \<Rightarrow> False)"

definition is_legacy_pending_training_completion :: "metadata \<Rightarrow> bool" where
  "is_legacy_pending_training_completion md =
     (metadata_value_eq md ''source_system'' ''training_coordinator''
      \<and> metadata_value_eq md ''event'' ''round_completed''
      \<and> metadata_value_eq md ''aggregation_metric_status'' ''pending_real_aggregation_metric'')"

definition or_insert :: "string \<Rightarrow> string \<Rightarrow> metadata \<Rightarrow> metadata" where
  "or_insert k v md = (case tree_get md k of Some _ \<Rightarrow> md | None \<Rightarrow> tree_insert k v md)"

definition migration_note :: string where
  "migration_note = ''Legacy round_completed evidence with pending_real_aggregation_metric is not proof of aggregation completion.''"

definition reclassify_legacy_pending_training_record :: "training_record \<Rightarrow> training_record" where
  "reclassify_legacy_pending_training_record r =
     (let md0 = tr_metadata r;
          legacy_event = unwrap_or ''round_completed'' (tree_get md0 ''event'');
          md1 = tree_insert ''event'' ''gradient_quorum_reached'' md0;
          legacy_status = unwrap_or ''pending_real_aggregation_metric'' (tree_get md1 ''aggregation_metric_status'');
          md2 = tree_insert ''aggregation_metric_status'' ''pending_aggregation'' md1;
          md3 = or_insert ''legacy_event'' legacy_event md2;
          md4 = or_insert ''legacy_aggregation_metric_status'' legacy_status md3;
          md5 = tree_insert ''q_training_migration'' ''legacy-round-completed-pending-aggregation-v3.2.11'' md4
      in r\<lparr>tr_metadata := md5,
           tr_decision := ''gradient_quorum_reached'',
           tr_input_summary := ''Legacy training quorum reclassified for Q export: '' @ tr_input_summary r,
           tr_reasoning := (case tr_reasoning r of
               Some x \<Rightarrow> (if \<not> str_contains x migration_note then Some (x @ '' '' @ migration_note) else Some x)
             | None \<Rightarrow> Some migration_note),
           tr_factors := (if ''legacy_round_completed_reclassified'' \<in> set (tr_factors r) then tr_factors r
                          else tr_factors r @ [''legacy_round_completed_reclassified''])\<rparr>)"

definition training_record_from_entry ::
    "primitives \<Rightarrow> formats \<Rightarrow> audit_entry \<Rightarrow> bool \<Rightarrow> training_record option" where
  "training_record_from_entry p fm e include_internal =
     (let policy = training_policy (ae_lane e) in
      if policy = ''blocked'' then None
      else if policy = ''allowed-internal'' \<and> \<not> include_internal then None
      else if policy \<notin> {''allowed-redacted'', ''allowed-internal''} then None
      else
        let is_public_redacted = (policy = ''allowed-redacted'');
            md = sanitize_training_metadata (ae_metadata e) is_public_redacted;
            r = \<lparr>tr_entry_id = entry_id e, tr_timestamp = ae_timestamp e, tr_block_height = block_height e,
                 tr_lane = ae_lane e, tr_decision_source = source_debug fm (source e),
                 tr_decision_type = type_debug (decision_type e), tr_model_id = model_id e,
                 tr_model_version = model_version e, tr_input_summary = input_summary e,
                 tr_decision = decision e, tr_confidence = confidence e,
                 tr_confidence_level = confidence_level e,
                 tr_reasoning = (if is_public_redacted then None else Some (reasoning e)),
                 tr_factors = factors e, tr_ethics_validated = ethics_validated e,
                 tr_subsystems = subsystems e,
                 tr_network_context = (if is_public_redacted then lane_id (ae_lane e) else network_context e),
                 tr_latency_ms = latency_ms e, tr_integrity_verified = entry_verify p fm e,
                 tr_entry_hash = ae_hash e, tr_metadata = md\<rparr>
        in Some (if is_legacy_pending_training_completion md
                 then reclassify_legacy_pending_training_record r else r))"

section \<open>The export with its manifest\<close>

record lane_counters =
  lc_source_total :: nat
  lc_exported_total :: nat
  lc_skipped_total :: nat
  lc_blocked_total :: nat
  lc_integrity_failed_blocked :: nat
  lc_public_reasoning_redacted :: nat
  lc_metadata_keys_removed :: nat

definition counters_default :: lane_counters where
  "counters_default = \<lparr>lc_source_total = 0, lc_exported_total = 0, lc_skipped_total = 0, lc_blocked_total = 0,
     lc_integrity_failed_blocked = 0, lc_public_reasoning_redacted = 0, lc_metadata_keys_removed = 0\<rparr>"

record lane_summary =
  ls_lane_id :: string
  ls_export_scope :: string
  ls_training_policy :: string
  ls_retention_class :: string
  ls_counters :: lane_counters

record export_manifest =
  em_schema_version :: u32
  em_migration_id :: string
  em_include_internal :: bool
  em_source_total :: nat
  em_exported_total :: nat
  em_public_exported :: nat
  em_private_exported :: nat
  em_private_skipped :: nat
  em_zero_zero_blocked :: nat
  em_integrity_failed_blocked :: nat
  em_public_reasoning_redacted :: nat
  em_metadata_keys_removed :: nat
  em_lane_summaries :: "lane_summary list"

definition training_lane_summary :: "string \<Rightarrow> lane_counters \<Rightarrow> lane_summary" where
  "training_lane_summary i c =
     (let lane = lane_from_context i []
      in \<lparr>ls_lane_id = lane_id lane, ls_export_scope = export_scope lane,
          ls_training_policy = training_policy lane, ls_retention_class = retention_class lane,
          ls_counters = c\<rparr>)"

text \<open>The loop's variables.\<close>

record export_state =
  x_records :: "training_record list"
  x_public :: lane_counters
  x_private :: lane_counters
  x_zero_zero :: lane_counters
  x_manifest :: export_manifest

definition bump_lane :: "audit_entry \<Rightarrow> (lane_counters \<Rightarrow> lane_counters) \<Rightarrow> export_state \<Rightarrow> export_state" where
  "bump_lane e f st =
     (if lane_id (ae_lane e) = ''public'' then st\<lparr>x_public := f (x_public st)\<rparr>
      else if lane_id (ae_lane e) = ''zero-zero'' then st\<lparr>x_zero_zero := f (x_zero_zero st)\<rparr>
      else st\<lparr>x_private := f (x_private st)\<rparr>)"

definition bump_manifest :: "(export_manifest \<Rightarrow> export_manifest) \<Rightarrow> export_state \<Rightarrow> export_state" where
  "bump_manifest f st = st\<lparr>x_manifest := f (x_manifest st)\<rparr>"

definition export_record :: "primitives \<Rightarrow> formats \<Rightarrow> bool \<Rightarrow> audit_entry \<Rightarrow> export_state \<Rightarrow> export_state" where
  "export_record p fm include_internal e st =
     (case training_record_from_entry p fm e include_internal of
        None \<Rightarrow> st
      | Some r \<Rightarrow>
          let removed = length (ae_metadata e) - length (tr_metadata r);
              st1 = bump_manifest (em_metadata_keys_removed_update (\<lambda>n. n + removed)) st;
              st2 = bump_lane e (lc_metadata_keys_removed_update (\<lambda>n. n + removed)) st1;
              st3 = (if lane_id (tr_lane r) = ''public'' then bump_manifest (em_public_exported_update Suc) st2
                     else if lane_id (tr_lane r) = ''private'' then bump_manifest (em_private_exported_update Suc) st2
                     else st2);
              st4 = bump_lane e (lc_exported_total_update Suc) st3
          in st4\<lparr>x_records := x_records st4 @ [r]\<rparr>)"

definition export_step :: "primitives \<Rightarrow> formats \<Rightarrow> bool \<Rightarrow> audit_entry \<Rightarrow> export_state \<Rightarrow> export_state" where
  "export_step p fm include_internal e st0 =
     (let st = bump_lane e (lc_source_total_update Suc) st0; policy = training_policy (ae_lane e) in
      if \<not> entry_verify p fm e then
        bump_lane e (lc_blocked_total_update Suc)
          (bump_lane e (lc_integrity_failed_blocked_update Suc)
            (bump_manifest (em_integrity_failed_blocked_update Suc) st))
      else if policy = ''blocked'' then
        bump_lane e (lc_blocked_total_update Suc) (bump_manifest (em_zero_zero_blocked_update Suc) st)
      else if policy = ''allowed-internal'' \<and> \<not> include_internal then
        bump_lane e (lc_skipped_total_update Suc) (bump_manifest (em_private_skipped_update Suc) st)
      else if policy \<notin> {''allowed-redacted'', ''allowed-internal''} then
        bump_lane e (lc_blocked_total_update Suc) st
      else
        let st' = (if policy = ''allowed-redacted'' \<and> reasoning e \<noteq> []
                   then bump_lane e (lc_public_reasoning_redacted_update Suc)
                          (bump_manifest (em_public_reasoning_redacted_update Suc) st)
                   else st)
        in export_record p fm include_internal e st')"

definition export_start :: "bool \<Rightarrow> nat \<Rightarrow> export_state" where
  "export_start include_internal n =
     \<lparr>x_records = [], x_public = counters_default, x_private = counters_default, x_zero_zero = counters_default,
      x_manifest = \<lparr>em_schema_version = 2, em_migration_id = AUDIT_LANE_MIGRATION_ID,
        em_include_internal = include_internal, em_source_total = n, em_exported_total = 0,
        em_public_exported = 0, em_private_exported = 0, em_private_skipped = 0, em_zero_zero_blocked = 0,
        em_integrity_failed_blocked = 0, em_public_reasoning_redacted = 0, em_metadata_keys_removed = 0,
        em_lane_summaries = []\<rparr>\<rparr>"

definition export_training_corpus_with_manifest ::
    "primitives \<Rightarrow> formats \<Rightarrow> bool \<Rightarrow> audit_ledger \<Rightarrow> export_manifest \<times> training_record list" where
  "export_training_corpus_with_manifest p fm include_internal l =
     (let st = fold (export_step p fm include_internal) (entries l)
                 (export_start include_internal (length (entries l)))
      in ((x_manifest st)\<lparr>em_exported_total := length (x_records st),
             em_lane_summaries := [training_lane_summary ''public'' (x_public st),
                training_lane_summary ''private'' (x_private st),
                training_lane_summary ''zero-zero'' (x_zero_zero st)]\<rparr>,
          x_records st))"

definition export_training_corpus :: "primitives \<Rightarrow> formats \<Rightarrow> bool \<Rightarrow> audit_ledger \<Rightarrow> training_record list" where
  "export_training_corpus p fm include_internal l = snd (export_training_corpus_with_manifest p fm include_internal l)"

section \<open>What is exported\<close>

named_theorems export_simps \<open>the components of the export state after an update\<close>

lemma bump_records [export_simps]:
  "x_records (bump_lane e f st) = x_records st" "x_records (bump_manifest g st) = x_records st"
  by (simp_all add: bump_lane_def bump_manifest_def)

definition exported :: "primitives \<Rightarrow> formats \<Rightarrow> bool \<Rightarrow> audit_entry \<Rightarrow> training_record option" where
  "exported p fm b e = (if entry_verify p fm e then training_record_from_entry p fm e b else None)"

lemma training_record_policy:
  "training_record_from_entry p fm e b \<noteq> None \<longleftrightarrow>
     training_policy (ae_lane e) = ''allowed-redacted'' \<or> training_policy (ae_lane e) = ''allowed-internal'' \<and> b"
  by (auto simp: training_record_from_entry_def Let_def)

lemma training_record_lane:
  "training_record_from_entry p fm e b = Some r \<Longrightarrow> tr_lane r = ae_lane e \<and> tr_entry_id r = entry_id e \<and>
     tr_integrity_verified r = entry_verify p fm e \<and> tr_entry_hash r = ae_hash e"
  by (auto simp: training_record_from_entry_def reclassify_legacy_pending_training_record_def Let_def split: if_splits)

lemma export_record_records:
  "x_records (export_record p fm b e st) =
     x_records st @ (case training_record_from_entry p fm e b of Some r \<Rightarrow> [r] | None \<Rightarrow> [])"
  by (simp add: export_record_def Let_def export_simps split: option.split)

lemma export_step_records:
  "x_records (export_step p fm b e st) =
     x_records st @ (case exported p fm b e of Some r \<Rightarrow> [r] | None \<Rightarrow> [])"
proof (cases "entry_verify p fm e \<and> training_record_from_entry p fm e b \<noteq> None")
  case True
  then show ?thesis
    unfolding training_record_policy
    by (auto simp: export_step_def Let_def export_simps exported_def export_record_records)
next
  case False
  then have "exported p fm b e = None" by (auto simp: exported_def)
  moreover have "x_records (export_step p fm b e st) = x_records st"
    using False unfolding training_record_policy
    by (auto simp: export_step_def Let_def export_simps)
  ultimately show ?thesis by simp
qed

lemma export_fold_records:
  "x_records (fold (export_step p fm b) es st) = x_records st @ List.map_filter (exported p fm b) es"
  by (induction es arbitrary: st)
     (simp_all add: export_step_records List.map_filter_simps split: option.split)

lemma export_records: "export_training_corpus p fm b l = List.map_filter (exported p fm b) (entries l)"
  by (simp add: export_training_corpus_def export_training_corpus_with_manifest_def Let_def
      export_fold_records export_start_def)

section \<open>The accounting\<close>

definition balanced :: "lane_counters \<Rightarrow> bool" where
  "balanced c \<longleftrightarrow> lc_source_total c = lc_exported_total c + lc_skipped_total c + lc_blocked_total c"

definition lanes_total :: "(lane_counters \<Rightarrow> nat) \<Rightarrow> export_state \<Rightarrow> nat" where
  "lanes_total f st = f (x_public st) + f (x_private st) + f (x_zero_zero st)"

definition export_inv :: "export_state \<Rightarrow> bool" where
  "export_inv st \<longleftrightarrow> balanced (x_public st) \<and> balanced (x_private st) \<and> balanced (x_zero_zero st) \<and>
     lanes_total lc_exported_total st = length (x_records st) \<and>
     lanes_total lc_integrity_failed_blocked st = em_integrity_failed_blocked (x_manifest st) \<and>
     lanes_total lc_metadata_keys_removed st = em_metadata_keys_removed (x_manifest st) \<and>
     lanes_total lc_public_reasoning_redacted st = em_public_reasoning_redacted (x_manifest st) \<and>
     lanes_total lc_skipped_total st = em_private_skipped (x_manifest st)"

lemma export_step_inv:
  assumes "export_inv st"
  shows "export_inv (export_step p fm b e st) \<and>
    lanes_total lc_source_total (export_step p fm b e st) = Suc (lanes_total lc_source_total st)"
proof -
  consider "lane_id (ae_lane e) = ''public''"
    | "lane_id (ae_lane e) \<noteq> ''public''" "lane_id (ae_lane e) = ''zero-zero''"
    | "lane_id (ae_lane e) \<noteq> ''public''" "lane_id (ae_lane e) \<noteq> ''zero-zero''" by blast
  then show ?thesis
    by cases (use assms training_record_policy [of p fm e b] in \<open>auto simp: export_step_def export_record_def
      Let_def bump_lane_def bump_manifest_def export_inv_def balanced_def lanes_total_def split: option.splits\<close>)
qed

lemma export_fold_inv:
  "export_inv st \<Longrightarrow> export_inv (fold (export_step p fm b) es st) \<and>
     lanes_total lc_source_total (fold (export_step p fm b) es st) = lanes_total lc_source_total st + length es"
  by (induction es arbitrary: st) (simp_all add: export_step_inv)

lemma export_start_inv: "export_inv (export_start b n)" "lanes_total f (export_start b n) = 3 * f counters_default"
  by (simp_all add: export_inv_def export_start_def lanes_total_def balanced_def counters_default_def)

lemma source_total_const:
  "em_source_total (x_manifest (fold (export_step p fm b) es st)) = em_source_total (x_manifest st)"
proof (induction es arbitrary: st)
  case (Cons e es)
  have "em_source_total (x_manifest (export_step p fm b e st)) = em_source_total (x_manifest st)"
    by (simp add: export_step_def export_record_def Let_def bump_lane_def bump_manifest_def split: option.split)
  with Cons show ?case by simp
qed simp


lemma sample_entry_public:
  "ae_lane (entry_new_with_metadata p fm clk h prev sample_input) = public_lane"
  "ae_metadata (entry_new_with_metadata p fm clk h prev sample_input) = []"
  by (simp_all add: entry_new_with_metadata_def with_hash_def Let_def sample_input_def lane_from_context_id
      normalize_audit_lane_fixed)

lemma sample_entry_exported:
  "\<exists>r. training_record_from_entry p fm (entry_new_with_metadata p fm clk h prev sample_input) b = Some r"
  using training_record_policy [of p fm "entry_new_with_metadata p fm clk h prev sample_input" b]
  by (auto simp: sample_entry_public lane_defs)


text \<open>
  C12. Public records are redacted: an exported record of the public policy carries none of the original
  reasoning, and every metadata key it keeps is on the public list, is not a sensitive key, and has a
  value that passed the markers for secrets, identities and accusations.
\<close>

theorem public_export_redacted:
  assumes "training_record_from_entry p fm e b = Some r" "training_policy (ae_lane e) = ''allowed-redacted''"
  shows "tr_reasoning r = None \<and> tr_network_context r = lane_id (ae_lane e) \<and>
    (\<forall>(k, v) \<in> set (tr_metadata r). (k, v) \<in> set (ae_metadata e) \<and> is_public_training_metadata_key k \<and>
       \<not> is_sensitive_training_metadata_key k \<and> is_training_metadata_value_safe k v True)"
proof -
  let ?md = "sanitize_training_metadata (ae_metadata e) True"
  have "tree_get ?md ''event'' = None"
  proof -
    have "\<not> is_public_training_metadata_key ''event''" by code_simp
    then show ?thesis by (auto simp: tree_get_None_iff tree_keys_def sanitize_training_metadata_def)
  qed
  then have "\<not> is_legacy_pending_training_completion ?md"
    by (simp add: is_legacy_pending_training_completion_def metadata_value_eq_def)
  then have "tr_reasoning r = None" "tr_network_context r = lane_id (ae_lane e)" "tr_metadata r = ?md"
    using assms by (auto simp: training_record_from_entry_def Let_def)
  then show ?thesis by (auto simp: sanitize_training_metadata_def)
qed

theorem public_export_redacted_witness:
  "\<exists>r. training_record_from_entry sample_primitives sample_formats (hd (entries sample_ledger)) False = Some r \<and> tr_reasoning r = None"
proof -
  obtain r where "training_record_from_entry sample_primitives sample_formats (hd (entries sample_ledger)) False = Some r"
    using sample_entry_exported [of sample_primitives sample_formats sample_clock 1 zeros64 False]
    by (auto simp: sample_ledger_entries)
  moreover from public_export_redacted [OF this] have "tr_reasoning r = None"
    by (simp add: sample_ledger_entries sample_entry_public lane_defs)
  ultimately show ?thesis by blast
qed

text \<open>
  The manifest accounts for every entry: in each lane the entries seen are exactly those exported,
  skipped and blocked, the lanes add up to the ledger, and the exported total is the number of records.
\<close>

lemma manifest_accounts:
  assumes "export_training_corpus_with_manifest p fm b l = (m, rs)"
  shows "em_exported_total m = length rs \<and> em_source_total m = length (entries l) \<and>
    (\<forall>s \<in> set (em_lane_summaries m). balanced (ls_counters s)) \<and>
    sum_list (map (\<lambda>s. lc_source_total (ls_counters s)) (em_lane_summaries m)) = length (entries l) \<and>
    sum_list (map (\<lambda>s. lc_exported_total (ls_counters s)) (em_lane_summaries m)) = length rs \<and>
    sum_list (map (\<lambda>s. lc_integrity_failed_blocked (ls_counters s)) (em_lane_summaries m)) = em_integrity_failed_blocked m \<and>
    map ls_lane_id (em_lane_summaries m) = [''public'', ''private'', ''zero-zero'']"
proof -
  let ?st = "fold (export_step p fm b) (entries l) (export_start b (length (entries l)))"
  have inv: "export_inv ?st" "lanes_total lc_source_total ?st = length (entries l)"
    using export_fold_inv [OF export_start_inv(1)] by (simp_all add: export_start_inv(2) counters_default_def)
  have m: "m = (x_manifest ?st)\<lparr>em_exported_total := length (x_records ?st),
      em_lane_summaries := [training_lane_summary ''public'' (x_public ?st),
        training_lane_summary ''private'' (x_private ?st), training_lane_summary ''zero-zero'' (x_zero_zero ?st)]\<rparr>"
    and rs: "rs = x_records ?st"
    using assms by (auto simp: export_training_corpus_with_manifest_def Let_def)
  have "em_source_total (x_manifest ?st) = length (entries l)"
    by (simp add: source_total_const) (simp add: export_start_def)
  moreover have "map ls_lane_id (em_lane_summaries m) = [''public'', ''private'', ''zero-zero'']"
    by (simp add: m training_lane_summary_def Let_def lane_from_context_id normalize_audit_lane_fixed lane_defs)
  ultimately show ?thesis
    using inv by (simp add: m rs training_lane_summary_def Let_def export_inv_def lanes_total_def)
qed

lemma manifest_accounts_sample:
  "\<exists>m rs. export_training_corpus_with_manifest sample_primitives sample_formats False sample_ledger = (m, rs) \<and>
     em_source_total m = 1 \<and> em_exported_total m = length rs"
proof -
  obtain m rs where e: "export_training_corpus_with_manifest sample_primitives sample_formats False sample_ledger = (m, rs)"
    by fastforce
  from manifest_accounts [OF this] have "em_source_total m = 1 \<and> em_exported_total m = length rs"
    by (simp add: sample_ledger_entries)
  with e show ?thesis by blast
qed

end
