(* ===== verification/TrainingCoordinator.thy ===== *)
theory TrainingCoordinator
  imports P2p AuditExport
begin

text \<open>
  Federated training rounds, \<^verbatim>\<open>src/src/agents/training_coordinator.rs\<close>: rounds per model, the gradients received, the
  quorum, completion after aggregation, and the audit entry and gossip of each event. The JSON printer, the clock of each audit entry and
  whether its append succeeds are arguments; broadcast channels are the lists of what was sent.
\<close>

datatype training_event =
    RoundStarted string u64
  | GradientReceived string u64 string
  | GradientQuorumReached string u64 nat
  | RoundCompleted string u64 f64

record pending_gradient =
  pg_worker :: string
  pg_gradient_data_b64 :: string
  pg_num_samples :: u64
  pg_gradient_hash :: string

record model_training_state =
  ms_current_round :: u64
  ms_pending :: "pending_gradient list"
  ms_checkpoint :: string
  ms_min_workers :: nat

record training_audit_event =
  te_event :: string
  te_model :: string
  te_round :: u64
  te_decision :: string
  te_confidence :: f64
  te_factors :: "string list"
  te_metadata :: "(string \<times> string) list"

record coordinator =
  tc_node_address :: string
  tc_running :: bool
  tc_models :: "(string, model_training_state) tree"
  tc_events :: "training_event list"
  tc_gossip :: "p2p_message list"
  tc_audit :: "audit_system option"

definition coordinator_new :: "string \<Rightarrow> coordinator" where
  "coordinator_new node_address =
     \<lparr>tc_node_address = node_address, tc_running = False, tc_models = [], tc_events = [], tc_gossip = [], tc_audit = None\<rparr>"

definition with_audit_sink :: "string \<Rightarrow> audit_system \<Rightarrow> coordinator" where
  "with_audit_sink node_address sink = (coordinator_new node_address)\<lparr>tc_audit := Some sink\<rparr>"

definition coordinator_start :: "coordinator \<Rightarrow> coordinator" where
  "coordinator_start t = t\<lparr>tc_running := True\<rparr>"

definition coordinator_shutdown :: "coordinator \<Rightarrow> coordinator" where
  "coordinator_shutdown t = t\<lparr>tc_running := False\<rparr>"

section \<open>Audit\<close>

record audit_call =
  ac_primitives :: primitives
  ac_formats :: formats
  ac_json :: "json \<Rightarrow> bytes"
  ac_clock :: clock
  ac_append_ok :: bool

definition training_decision :: "audit_call \<Rightarrow> string \<Rightarrow> training_audit_event \<Rightarrow> decision_input" where
  "training_decision ac node_address ev =
     \<lparr>di_source = External ''training_coordinator'', di_type = TrainingDecision, di_model_id = te_model ev,
      di_model_version = ''federated-training-v1'',
      di_input_summary = ''Training coordinator '' @ te_event ev @ '' event for model '' @ te_model ev @ '' round '' @ dec64 (te_round ev),
      di_input_data = ac_json ac (json_object [(''event'', JString (te_event ev)), (''model_id'', JString (te_model ev)),
         (''round_id'', JPosInt (te_round ev)), (''node_address'', JString node_address)]),
      di_decision = te_decision ev, di_confidence = te_confidence ev,
      di_reasoning = ''Training lifecycle event recorded for durable LaaS audit and Q corpus evidence.'',
      di_factors = te_factors ev, di_ethics_validated = True, di_subsystems = [''arobi-network'', ''laas'', ''q-training''],
      di_network_context = ''arobi-network-private-training'', di_latency_ms = 0,
      di_metadata = fold (\<lambda>(k, v). tree_insert k v) (te_metadata ev @ [(''lane'', ''private''),
         (''source_system'', ''training_coordinator''), (''event'', te_event ev), (''round_id'', dec64 (te_round ev)),
         (''node_address'', node_address)]) []\<rparr>"

definition audit_training :: "audit_call \<Rightarrow> string \<Rightarrow> training_audit_event \<Rightarrow> audit_system \<Rightarrow> audit_system" where
  "audit_training ac node_address ev s =
     (let s' = begin_record (ac_primitives ac) (ac_formats ac) (ac_clock ac) (training_decision ac node_address ev) s;
          e = hd (a_pending s')
      in if ac_append_ok ac then append_ok e s' else append_failed e s')"

definition record_training_audit_event :: "audit_call \<Rightarrow> training_audit_event \<Rightarrow> coordinator \<Rightarrow> coordinator" where
  "record_training_audit_event ac ev t =
     (case tc_audit t of
        None \<Rightarrow> t
      | Some sink \<Rightarrow> t\<lparr>tc_audit := Some (audit_training ac (tc_node_address t) ev sink)\<rparr>)"

section \<open>Rounds\<close>

definition started_event :: "string \<Rightarrow> u64 \<Rightarrow> string \<Rightarrow> nat \<Rightarrow> training_audit_event" where
  "started_event mid rnd checkpoint min_workers =
     \<lparr>te_event = ''round_started'', te_model = mid, te_round = rnd, te_decision = ''Federated training round started'',
      te_confidence = 0x3FF0000000000000,
      te_factors = [''checkpoint:'' @ checkpoint, ''min_workers:'' @ dec min_workers],
      te_metadata = [(''checkpoint_file_id'', checkpoint), (''min_workers'', dec min_workers)]\<rparr>"

definition start_round :: "audit_call \<Rightarrow> string \<Rightarrow> string \<Rightarrow> nat \<Rightarrow> coordinator \<Rightarrow> u64 \<times> coordinator" where
  "start_round ac mid checkpoint min_workers t =
     (let st = (case tree_get (tc_models t) mid of
            Some st \<Rightarrow> st
          | None \<Rightarrow> \<lparr>ms_current_round = 0, ms_pending = [], ms_checkpoint = checkpoint, ms_min_workers = min_workers\<rparr>);
          rnd = ms_current_round st + 1;
          st' = st\<lparr>ms_current_round := rnd, ms_pending := [], ms_checkpoint := checkpoint\<rparr>;
          t1 = t\<lparr>tc_models := tree_insert mid st' (tc_models t), tc_events := tc_events t @ [RoundStarted mid rnd]\<rparr>;
          t2 = record_training_audit_event ac (started_event mid rnd checkpoint min_workers) t1
      in (rnd, t2\<lparr>tc_gossip := tc_gossip t2 @ [TrainingRoundStart mid rnd checkpoint [] 0x3F50624DD2F1A9FC 32]\<rparr>))"

definition gradient_event :: "string \<Rightarrow> u64 \<Rightarrow> pending_gradient \<Rightarrow> model_training_state \<Rightarrow> training_audit_event" where
  "gradient_event mid rnd g st =
     \<lparr>te_event = ''gradient_received'', te_model = mid, te_round = rnd, te_decision = ''Federated training gradient received'',
      te_confidence = 0x3FEE666666666666,
      te_factors = [''worker:'' @ pg_worker g, ''num_samples:'' @ dec64 (pg_num_samples g), ''gradient_hash:'' @ pg_gradient_hash g],
      te_metadata = [(''worker'', pg_worker g), (''num_samples'', dec64 (pg_num_samples g)), (''gradient_hash'', pg_gradient_hash g),
        (''pending_workers'', dec (length (ms_pending st))), (''required_workers'', dec (ms_min_workers st))]\<rparr>"

definition required_workers :: "model_training_state \<Rightarrow> nat" where
  "required_workers st = max (ms_min_workers st) 1"

definition total_samples :: "model_training_state \<Rightarrow> u64" where
  "total_samples st = sum_list (map pg_num_samples (ms_pending st))"

definition quorum_event :: "string \<Rightarrow> u64 \<Rightarrow> model_training_state \<Rightarrow> training_audit_event" where
  "quorum_event mid rnd st =
     \<lparr>te_event = ''gradient_quorum_reached'', te_model = mid, te_round = rnd,
      te_decision = ''Federated training gradient quorum reached; aggregation pending'', te_confidence = 0x3FEF0A3D70A3D70A,
      te_factors = [''participating_workers:'' @ dec (length (ms_pending st)), ''required_workers:'' @ dec (required_workers st),
        ''checkpoint:'' @ ms_checkpoint st],
      te_metadata = [(''participating_workers_count'', dec (length (ms_pending st))), (''required_workers'', dec (required_workers st)),
        (''total_samples'', dec64 (total_samples st)), (''gradient_hashes'', str_join '','' (map pg_gradient_hash (ms_pending st))),
        (''checkpoint_file_id'', ms_checkpoint st), (''aggregation_metric_status'', ''pending_aggregation'')]\<rparr>"

text \<open>\<open>ac1\<close> is the audit call for the gradient, \<open>ac2\<close> the one for the quorum.\<close>

definition receive_gradient :: "audit_call \<Rightarrow> audit_call \<Rightarrow> string \<Rightarrow> u64 \<Rightarrow> pending_gradient \<Rightarrow> coordinator \<Rightarrow> (coordinator, unit) res" where
  "receive_gradient ac1 ac2 mid rnd g t =
     (case tree_get (tc_models t) mid of
        None \<Rightarrow> Ok t
      | Some st \<Rightarrow>
          if ms_current_round st \<noteq> rnd then Ok t
          else let pending_before = length (ms_pending st);
                   st' = st\<lparr>ms_pending := ms_pending st @ [g]\<rparr>;
                   t1 = t\<lparr>tc_models := tree_insert mid st' (tc_models t),
                          tc_events := tc_events t @ [GradientReceived mid rnd (pg_worker g)]\<rparr>;
                   t2 = record_training_audit_event ac1 (gradient_event mid rnd g st') t1
               in res_bind (log_prefix (pg_worker g) 12) (\<lambda>_.
                    if pending_before < required_workers st' \<and> required_workers st' \<le> length (ms_pending st')
                    then Ok (record_training_audit_event ac2 (quorum_event mid rnd st')
                               (t2\<lparr>tc_events := tc_events t2 @ [GradientQuorumReached mid rnd (length (ms_pending st'))]\<rparr>))
                    else Ok t2))"

datatype completion_error =
    Checkpoint_required | Aggregation_hash_required | Checkpoint_hash_required | Loss_not_finite
  | No_active_round | Wrong_round u64 | Too_few_gradients nat nat

definition completed_event ::
    "formats \<Rightarrow> string \<Rightarrow> u64 \<Rightarrow> model_training_state \<Rightarrow> string \<Rightarrow> f64 \<Rightarrow> string \<Rightarrow> string \<Rightarrow> training_audit_event" where
  "completed_event fm mid rnd st new_checkpoint loss aggregation_hash checkpoint_hash =
     \<lparr>te_event = ''round_completed'', te_model = mid, te_round = rnd,
      te_decision = ''Federated training round completed with real aggregation output'', te_confidence = 0x3FEFAE147AE147AE,
      te_factors = [''participating_workers:'' @ dec (length (ms_pending st)), ''required_workers:'' @ dec (required_workers st),
        ''new_checkpoint:'' @ new_checkpoint, ''aggregation_hash:'' @ aggregation_hash, ''checkpoint_hash:'' @ checkpoint_hash],
      te_metadata = [(''participating_workers_count'', dec (length (ms_pending st))), (''required_workers'', dec (required_workers st)),
        (''total_samples'', dec64 (total_samples st)), (''gradient_hashes'', str_join '','' (map pg_gradient_hash (ms_pending st))),
        (''old_checkpoint_file_id'', ms_checkpoint st), (''new_checkpoint_file_id'', new_checkpoint),
        (''aggregated_loss'', display_f64 fm loss), (''aggregation_hash'', aggregation_hash), (''checkpoint_hash'', checkpoint_hash),
        (''aggregation_metric_status'', ''completed'')]\<rparr>"

definition complete_round_after_aggregation ::
    "audit_call \<Rightarrow> string \<Rightarrow> u64 \<Rightarrow> string \<Rightarrow> f64 \<Rightarrow> string \<Rightarrow> string \<Rightarrow> coordinator \<Rightarrow> (coordinator, completion_error) res" where
  "complete_round_after_aggregation ac mid rnd new_checkpoint loss aggregation_hash checkpoint_hash t =
     (if trim new_checkpoint = [] then Err Checkpoint_required
      else if trim aggregation_hash = [] then Err Aggregation_hash_required
      else if trim checkpoint_hash = [] then Err Checkpoint_hash_required
      else if \<not> f64_is_finite loss then Err Loss_not_finite
      else case tree_get (tc_models t) mid of
             None \<Rightarrow> Err No_active_round
           | Some st \<Rightarrow>
               if ms_current_round st \<noteq> rnd then Err (Wrong_round (ms_current_round st))
               else if length (ms_pending st) < required_workers st
               then Err (Too_few_gradients (required_workers st) (length (ms_pending st)))
               else let workers = map pg_worker (ms_pending st);
                        st' = st\<lparr>ms_checkpoint := new_checkpoint, ms_pending := []\<rparr>;
                        t1 = t\<lparr>tc_models := tree_insert mid st' (tc_models t), tc_events := tc_events t @ [RoundCompleted mid rnd loss]\<rparr>;
                        t2 = record_training_audit_event ac
                               (completed_event (ac_formats ac) mid rnd st new_checkpoint loss aggregation_hash checkpoint_hash) t1
                    in Ok (t2\<lparr>tc_gossip := tc_gossip t2 @ [TrainingRoundComplete mid rnd new_checkpoint loss workers]\<rparr>))"

definition training_status :: "string \<Rightarrow> coordinator \<Rightarrow> json option" where
  "training_status mid t =
     map_option (\<lambda>st. json_object [(''model_id'', JString mid), (''current_round'', JPosInt (ms_current_round st)),
       (''pending_gradients'', JPosInt (of_nat (length (ms_pending st)))), (''min_workers'', JPosInt (of_nat (ms_min_workers st))),
       (''checkpoint_file_id'', JString (ms_checkpoint st))]) (tree_get (tc_models t) mid)"

section \<open>Runs\<close>

datatype training_op =
    Start string string nat
  | Gradient string u64 pending_gradient
  | Complete string u64 string f64 string string
  | Run bool

text \<open>One call on the coordinator; a refused completion changes nothing.\<close>

fun training_step :: "(audit_call \<times> audit_call) \<times> training_op \<Rightarrow> coordinator \<Rightarrow> (coordinator, unit) res" where
  "training_step ((ac1, ac2), Start mid checkpoint n) t = Ok (snd (start_round ac1 mid checkpoint n t))"
| "training_step ((ac1, ac2), Gradient mid rnd g) t = receive_gradient ac1 ac2 mid rnd g t"
| "training_step ((ac1, ac2), Complete mid rnd cp loss ah ch) t =
     (case complete_round_after_aggregation ac1 mid rnd cp loss ah ch t of Ok t' \<Rightarrow> Ok t' | Err e \<Rightarrow> Ok t | Panic \<Rightarrow> Panic)"
| "training_step (acs, Run b) t = Ok (if b then coordinator_start t else coordinator_shutdown t)"

section \<open>The event log determines the rounds\<close>

text \<open>What an observer of the events knows of a model: its round and the workers whose gradients are pending.\<close>

fun replay_event :: "string \<Rightarrow> training_event \<Rightarrow> u64 \<times> string list \<Rightarrow> u64 \<times> string list" where
  "replay_event mid (RoundStarted m r) (rnd, ws) = (if m = mid then (r, []) else (rnd, ws))"
| "replay_event mid (GradientReceived m r w) (rnd, ws) = (if m = mid then (rnd, ws @ [w]) else (rnd, ws))"
| "replay_event mid (GradientQuorumReached m r n) v = v"
| "replay_event mid (RoundCompleted m r l) (rnd, ws) = (if m = mid then (rnd, []) else (rnd, ws))"

definition replay :: "string \<Rightarrow> training_event list \<Rightarrow> u64 \<times> string list" where
  "replay mid evs = fold (replay_event mid) evs (0, [])"

definition model_view :: "coordinator \<Rightarrow> string \<Rightarrow> u64 \<times> string list" where
  "model_view t mid = (case tree_get (tc_models t) mid of
      None \<Rightarrow> (0, []) | Some st \<Rightarrow> (ms_current_round st, map pg_worker (ms_pending st)))"

definition needed :: "coordinator \<Rightarrow> string \<Rightarrow> nat option" where
  "needed t mid = map_option required_workers (tree_get (tc_models t) mid)"

text \<open>Every completion in the log was for the round then current and had its quorum of gradients before it.\<close>

definition quorum_log :: "(string \<Rightarrow> nat option) \<Rightarrow> training_event list \<Rightarrow> bool" where
  "quorum_log need evs \<longleftrightarrow> (\<forall>pre mid r l post. evs = pre @ RoundCompleted mid r l # post \<longrightarrow>
     (\<exists>k. need mid = Some k \<and> 0 < k \<and> k \<le> length (snd (replay mid pre)) \<and> fst (replay mid pre) = r))"

definition coordinator_ok :: "coordinator \<Rightarrow> bool" where
  "coordinator_ok t \<longleftrightarrow> (\<forall>mid. replay mid (tc_events t) = model_view t mid) \<and> quorum_log (needed t) (tc_events t)"

lemma replay_snoc [simp]: "replay mid (evs @ [e]) = replay_event mid e (replay mid evs)"
  by (simp add: replay_def)

lemma quorum_log_Nil [simp]: "quorum_log need []"
  by (simp add: quorum_log_def)

lemma quorum_log_snoc:
  assumes "quorum_log need evs" "need \<subseteq>\<^sub>m need'"
    and "\<And>mid r l. e = RoundCompleted mid r l \<Longrightarrow>
      \<exists>k. need' mid = Some k \<and> 0 < k \<and> k \<le> length (snd (replay mid evs)) \<and> fst (replay mid evs) = r"
  shows "quorum_log need' (evs @ [e])"
  unfolding quorum_log_def
proof (intro allI impI)
  fix pre mid r l post
  assume split: "evs @ [e] = pre @ RoundCompleted mid r l # post"
  show "\<exists>k. need' mid = Some k \<and> 0 < k \<and> k \<le> length (snd (replay mid pre)) \<and> fst (replay mid pre) = r"
  proof (cases post rule: rev_cases)
    case Nil
    with split assms(3) show ?thesis by simp
  next
    case (snoc post' x)
    with split have "evs = pre @ RoundCompleted mid r l # post'" by simp
    with assms(1) obtain k where "need mid = Some k" "0 < k" "k \<le> length (snd (replay mid pre))" "fst (replay mid pre) = r"
      unfolding quorum_log_def by blast
    with assms(2) show ?thesis by (metis domI map_le_def)
  qed
qed

lemma audit_event_frame [simp]:
  "tc_models (record_training_audit_event ac ev t) = tc_models t"
  "tc_events (record_training_audit_event ac ev t) = tc_events t"
  "tc_gossip (record_training_audit_event ac ev t) = tc_gossip t"
  by (simp_all add: record_training_audit_event_def split: option.split)

lemma required_workers_keep [simp]:
  "required_workers (st\<lparr>ms_pending := g\<rparr>) = required_workers st"
  "required_workers (st\<lparr>ms_checkpoint := c\<rparr>) = required_workers st"
  "required_workers (st\<lparr>ms_current_round := r\<rparr>) = required_workers st"
  by (simp_all add: required_workers_def)

lemma coordinator_ok_cong:
  "tc_models t' = tc_models t \<Longrightarrow> tc_events t' = tc_events t \<Longrightarrow> coordinator_ok t' = coordinator_ok t"
  by (simp add: coordinator_ok_def model_view_def needed_def cong: option.case_cong) (simp add: needed_def [abs_def])

lemma coordinator_ok_running [simp]: "coordinator_ok (t\<lparr>tc_running := b\<rparr>) = coordinator_ok t"
  by (rule coordinator_ok_cong) simp_all

lemma coordinator_ok_extend:
  assumes ok: "coordinator_ok t" and m: "tc_models t' = tree_insert mid st (tc_models t)" and e: "tc_events t' = tc_events t @ [e]"
    and keep: "\<And>st0. tree_get (tc_models t) mid = Some st0 \<Longrightarrow> required_workers st = required_workers st0"
    and view: "\<And>m. replay_event m e (model_view t m)
      = (if m = mid then (ms_current_round st, map pg_worker (ms_pending st)) else model_view t m)"
    and fin: "\<And>m r l. e = RoundCompleted m r l \<Longrightarrow> m = mid \<and> fst (model_view t m) = r
      \<and> required_workers st \<le> length (snd (model_view t m))"
  shows "coordinator_ok t'"
proof -
  have "needed t \<subseteq>\<^sub>m needed t'" using keep by (auto simp: needed_def m map_le_def tree_simps)
  moreover have "needed t' mid = Some (required_workers st)" by (simp add: needed_def m tree_simps)
  ultimately have "quorum_log (needed t') (tc_events t')"
    unfolding e using ok fin
    by (intro quorum_log_snoc [of "needed t"]) (auto simp: coordinator_ok_def required_workers_def)
  moreover have "replay m (tc_events t') = model_view t' m" for m
    using ok view [of m] by (simp add: coordinator_ok_def e model_view_def [of t'] m tree_simps) (simp add: model_view_def)
  ultimately show ?thesis by (simp add: coordinator_ok_def)
qed

lemma coordinator_ok_quorum:
  assumes "coordinator_ok t"
  shows "coordinator_ok (t\<lparr>tc_events := tc_events t @ [GradientQuorumReached mid rnd k]\<rparr>)"
proof -
  have "needed (t\<lparr>tc_events := evs\<rparr>) = needed t" "model_view (t\<lparr>tc_events := evs\<rparr>) m = model_view t m" for evs m
    by (simp_all add: needed_def [abs_def] model_view_def)
  with assms show ?thesis
    by (auto simp: coordinator_ok_def intro: quorum_log_snoc)
qed

lemma coordinator_ok_start:
  assumes "coordinator_ok t"
  shows "coordinator_ok (snd (start_round ac mid checkpoint n t))"
proof -
  define st where "st = (case tree_get (tc_models t) mid of
      Some st \<Rightarrow> st | None \<Rightarrow> \<lparr>ms_current_round = 0, ms_pending = [], ms_checkpoint = checkpoint, ms_min_workers = n\<rparr>)"
  let ?st = "st\<lparr>ms_current_round := ms_current_round st + 1, ms_pending := [], ms_checkpoint := checkpoint\<rparr>"
  let ?e = "RoundStarted mid (ms_current_round st + 1)"
  have "tc_models (snd (start_round ac mid checkpoint n t)) = tree_insert mid ?st (tc_models t)"
    "tc_events (snd (start_round ac mid checkpoint n t)) = tc_events t @ [?e]"
    by (simp_all add: start_round_def Let_def st_def)
  then show ?thesis
    by (rule coordinator_ok_extend [OF assms]) (auto simp: st_def model_view_def split: option.split)
qed

lemma coordinator_ok_gradient:
  assumes "coordinator_ok t" "receive_gradient ac1 ac2 mid rnd g t = Ok t'"
  shows "coordinator_ok t'"
proof (cases "\<exists>st. tree_get (tc_models t) mid = Some st \<and> ms_current_round st = rnd")
  case True
  then obtain st where st: "tree_get (tc_models t) mid = Some st" "ms_current_round st = rnd" by blast
  let ?st = "st\<lparr>ms_pending := ms_pending st @ [g]\<rparr>"
  let ?t1 = "t\<lparr>tc_models := tree_insert mid ?st (tc_models t), tc_events := tc_events t @ [GradientReceived mid rnd (pg_worker g)]\<rparr>"
  let ?q = "GradientQuorumReached mid rnd (length (ms_pending ?st))"
  have 1: "coordinator_ok ?t1"
    by (rule coordinator_ok_extend [OF assms(1), of _ mid ?st]) (use st in \<open>auto simp: model_view_def split: option.split\<close>)
  have 2: "coordinator_ok (?t1\<lparr>tc_events := tc_events ?t1 @ [?q]\<rparr>)" by (rule coordinator_ok_quorum [OF 1])
  have "tc_models t' = tc_models ?t1 \<and> (tc_events t' = tc_events ?t1 \<or> tc_events t' = tc_events ?t1 @ [?q])"
    using assms(2) st by (auto simp: receive_gradient_def Let_def res_simps split: if_splits)
  then show ?thesis
    using coordinator_ok_cong [of t' ?t1] coordinator_ok_cong [of t' "?t1\<lparr>tc_events := tc_events ?t1 @ [?q]\<rparr>"] 1 2 by auto
next
  case False
  with assms show ?thesis by (auto simp: receive_gradient_def split: option.splits if_splits)
qed

lemma complete_OkE:
  assumes "complete_round_after_aggregation ac mid rnd cp loss ah ch t = Ok t'"
  obtains st where "tree_get (tc_models t) mid = Some st" "ms_current_round st = rnd"
    "required_workers st \<le> length (ms_pending st)"
    "tc_models t' = tree_insert mid (st\<lparr>ms_checkpoint := cp, ms_pending := []\<rparr>) (tc_models t)"
    "tc_events t' = tc_events t @ [RoundCompleted mid rnd loss]"
    "tc_gossip t' = tc_gossip t @ [TrainingRoundComplete mid rnd cp loss (map pg_worker (ms_pending st))]"
  using assms
  by (auto simp: complete_round_after_aggregation_def Let_def split: if_splits option.splits)

lemma coordinator_ok_complete:
  assumes "coordinator_ok t" "complete_round_after_aggregation ac mid rnd cp loss ah ch t = Ok t'"
  shows "coordinator_ok t'"
  using assms(2)
proof (rule complete_OkE)
  fix st
  assume st: "tree_get (tc_models t) mid = Some st" "ms_current_round st = rnd" "required_workers st \<le> length (ms_pending st)"
    and t': "tc_models t' = tree_insert mid (st\<lparr>ms_checkpoint := cp, ms_pending := []\<rparr>) (tc_models t)"
      "tc_events t' = tc_events t @ [RoundCompleted mid rnd loss]"
  show ?thesis
    by (rule coordinator_ok_extend [OF assms(1) t']) (use st in \<open>auto simp: model_view_def split: option.split\<close>)
qed

interpretation training: machine training_step coordinator_ok
proof
  fix t e t'
  assume "coordinator_ok t" "training_step e t = Ok t'"
  then show "coordinator_ok t'"
    by (induction e t rule: training_step.induct)
      (auto simp: coordinator_start_def coordinator_shutdown_def coordinator_ok_start coordinator_ok_gradient
        dest: coordinator_ok_complete split: res.splits)
qed

lemma coordinator_ok_new: "coordinator_ok (coordinator_new addr)" "coordinator_ok (with_audit_sink addr sink)"
  by (simp_all add: coordinator_ok_def coordinator_new_def with_audit_sink_def model_view_def replay_def tree_simps)

text \<open>
  C21. The events a coordinator broadcasts tell the whole state of its rounds: after any calls, replaying the log gives each
  model's current round and, in order, the workers whose gradients are pending; and every completion in the log was for the
  round then current and came after at least as many gradients, received since the round started or was last completed, as the
  model requires.
\<close>

theorem completion_needs_quorum:
  assumes "res_fold training_step ops (with_audit_sink addr sink) = Ok t"
  shows "(\<forall>mid st. tree_get (tc_models t) mid = Some st \<longrightarrow>
        replay mid (tc_events t) = (ms_current_round st, map pg_worker (ms_pending st)))
     \<and> (\<forall>pre mid r l post. tc_events t = pre @ RoundCompleted mid r l # post \<longrightarrow>
        (\<exists>st. tree_get (tc_models t) mid = Some st \<and> fst (replay mid pre) = r
           \<and> max 1 (ms_min_workers st) \<le> length (snd (replay mid pre))))"
proof -
  have ok: "coordinator_ok t" by (rule training.run_keeps [OF coordinator_ok_new(2) assms])
  have "\<exists>st. tree_get (tc_models t) mid = Some st \<and> fst (replay mid pre) = r \<and> max 1 (ms_min_workers st) \<le> length (snd (replay mid pre))"
    if "tc_events t = pre @ RoundCompleted mid r l # post" for pre mid r l post
  proof -
    from ok have "quorum_log (needed t) (tc_events t)" by (simp add: coordinator_ok_def)
    with that obtain k where "needed t mid = Some k" "k \<le> length (snd (replay mid pre))" "fst (replay mid pre) = r"
      unfolding quorum_log_def by blast
    then show ?thesis by (auto simp: needed_def required_workers_def max.commute)
  qed
  with ok show ?thesis by (auto simp: coordinator_ok_def model_view_def)
qed

section \<open>Audit of the rounds\<close>

lemma training_decision_private: "lane_from_context (di_network_context (training_decision ac addr ev)) (di_metadata (training_decision ac addr ev)) = private_lane"
proof -
  have "tree_get (di_metadata (training_decision ac addr ev)) ''lane'' = Some ''private''"
    by (simp add: training_decision_def tree_simps)
  moreover have "normalize_audit_lane ''private'' = ''private''" by code_simp
  ultimately show ?thesis by (simp add: lane_from_context_def Let_def)
qed

definition private_entries :: "audit_system \<Rightarrow> bool" where
  "private_entries s \<longleftrightarrow> (\<forall>e \<in> set (entries (a_ledger s)). ae_lane e = private_lane)"

definition audited :: "primitives \<Rightarrow> formats \<Rightarrow> nat \<Rightarrow> audit_system \<Rightarrow> bool" where
  "audited p fm n s \<longleftrightarrow> audit_reach p fm False s \<and> a_pending s = [] \<and> private_entries s \<and> length (entries (a_ledger s)) \<le> n"

lemma audited_training:
  assumes "audited p fm n s" "n < 2 ^ 64 - 1" "ac_primitives ac = p" "ac_formats ac = fm"
  shows "audited p fm (Suc n) (audit_training ac addr ev s)"
proof -
  let ?d = "training_decision ac addr ev"
  let ?s = "begin_record p fm (ac_clock ac) ?d s"
  let ?e = "entry_new_with_metadata p fm (ac_clock ac) (latest_block (a_ledger s) + 1) (latest_hash (a_ledger s)) ?d"
  have s: "entries (a_ledger ?s) = entries (a_ledger s) @ [?e]" "a_pending ?s = [?e]"
    using assms(1) by (simp_all add: begin_record_def record_decision_with_metadata_def Let_def audited_def)
  have reach: "audit_reach p fm False ?s" using assms(1,2) by (intro audit_reach.r_record) (simp_all add: audited_def)
  have lane: "ae_lane ?e = private_lane"
    using training_decision_private by (simp add: entry_new_with_metadata_def with_hash_def Let_def)
  have all: "\<forall>x \<in> set (entries (a_ledger ?s)). ae_lane x = private_lane" "length (entries (a_ledger ?s)) \<le> Suc n"
    using assms(1) lane unfolding s by (auto simp: audited_def private_entries_def)
  have eq: "audit_training ac addr ev s = (if ac_append_ok ac then append_ok ?e ?s else append_failed ?e ?s)"
    using assms(3,4) s by (simp add: audit_training_def Let_def)
  show ?thesis
  proof (cases "ac_append_ok ac")
    case True
    have "audit_reach p fm False (append_ok ?e ?s)" using reach by (rule audit_reach.r_persist) (simp add: s)
    with True all s show ?thesis by (simp add: eq audited_def private_entries_def append_ok_def)
  next
    case False
    let ?l = "snd (rollback_latest (entry_id ?e) (a_ledger ?s))"
    have sub: "set (entries ?l) \<subseteq> set (entries (a_ledger ?s))" "length (entries ?l) \<le> length (entries (a_ledger ?s))"
      by (auto simp: rollback_latest_def Let_def dest: in_set_butlastD)
    have "audit_reach p fm False (append_failed ?e ?s)" using reach by (rule audit_reach.r_fail) (simp_all add: s)
    moreover have "private_entries (append_failed ?e ?s)"
      using all(1) sub(1) unfolding private_entries_def append_failed_def by (simp add: subset_iff)
    moreover have "length (entries ?l) \<le> Suc n" using sub(2) all(2) by (rule order_trans)
    ultimately show ?thesis using False s by (simp add: eq audited_def append_failed_def)
  qed
qed

definition uses :: "primitives \<Rightarrow> formats \<Rightarrow> (audit_call \<times> audit_call) \<times> training_op \<Rightarrow> bool" where
  "uses p fm e \<longleftrightarrow> ac_primitives (fst (fst e)) = p \<and> ac_formats (fst (fst e)) = fm
     \<and> ac_primitives (snd (fst e)) = p \<and> ac_formats (snd (fst e)) = fm"

definition sink_ok :: "primitives \<Rightarrow> formats \<Rightarrow> nat \<Rightarrow> coordinator \<Rightarrow> bool" where
  "sink_ok p fm n t \<longleftrightarrow> (\<exists>s. tc_audit t = Some s \<and> audited p fm n s)"

lemma audited_mono: "audited p fm m s \<Longrightarrow> m \<le> n \<Longrightarrow> audited p fm n s"
  by (auto simp: audited_def)

lemma sink_ok_mono: "sink_ok p fm m t \<Longrightarrow> m \<le> n \<Longrightarrow> sink_ok p fm n t"
  by (auto simp: sink_ok_def intro: audited_mono)

lemma sink_ok_event:
  assumes "sink_ok p fm n t" "n < 2 ^ 64 - 1" "ac_primitives ac = p" "ac_formats ac = fm"
  shows "sink_ok p fm (Suc n) (record_training_audit_event ac ev t)"
  using assms audited_training [OF _ assms(2-4)] by (auto simp: sink_ok_def record_training_audit_event_def)

lemma sink_ok_frame [simp]:
  "sink_ok p fm n (t\<lparr>tc_models := m\<rparr>) = sink_ok p fm n t" "sink_ok p fm n (t\<lparr>tc_events := es\<rparr>) = sink_ok p fm n t"
  "sink_ok p fm n (t\<lparr>tc_gossip := g\<rparr>) = sink_ok p fm n t" "sink_ok p fm n (t\<lparr>tc_running := b\<rparr>) = sink_ok p fm n t"
  by (simp_all add: sink_ok_def)

lemma sink_ok_gradient:
  assumes "sink_ok p fm n t" "n + 2 < 2 ^ 64" "uses p fm ((ac1, ac2), op)" "receive_gradient ac1 ac2 mid rnd g t = Ok t'"
  shows "sink_ok p fm (n + 2) t'"
proof -
  have step: "sink_ok p fm (Suc m) (record_training_audit_event ac ev t)"
    if "sink_ok p fm m t" "m < 2 ^ 64 - 1" "ac = ac1 \<or> ac = ac2" for ac ev t m
    using that assms(3) by (intro sink_ok_event) (auto simp: uses_def)
  show ?thesis
  proof (cases "t' = t")
    case True
    with assms(1) show ?thesis by (auto intro: sink_ok_mono)
  next
    case False
    with assms(4) obtain t1 ev1 where t1: "sink_ok p fm n t1 = sink_ok p fm n t"
      and t': "t' = record_training_audit_event ac1 ev1 t1
        \<or> (\<exists>ev2 evs. t' = record_training_audit_event ac2 ev2 ((record_training_audit_event ac1 ev1 t1)\<lparr>tc_events := evs\<rparr>))"
      by (auto simp: receive_gradient_def Let_def res_simps split: option.splits if_splits) (metis sink_ok_frame(1,2))+
    have 1: "sink_ok p fm (Suc n) (record_training_audit_event ac1 ev1 t1)"
      using assms(1,2) t1 by (intro step) auto
    from t' show ?thesis
    proof (elim disjE exE)
      assume "t' = record_training_audit_event ac1 ev1 t1"
      with 1 show ?thesis by (auto intro: sink_ok_mono)
    next
      fix ev2 evs
      assume "t' = record_training_audit_event ac2 ev2 ((record_training_audit_event ac1 ev1 t1)\<lparr>tc_events := evs\<rparr>)"
      moreover have "sink_ok p fm (Suc (Suc n)) (record_training_audit_event ac2 ev2 ((record_training_audit_event ac1 ev1 t1)\<lparr>tc_events := evs\<rparr>))"
        using 1 assms(2) by (intro step) auto
      ultimately show ?thesis by simp
    qed
  qed
qed

interpretation auditing: weighted_machine training_step "uses p fm" "\<lambda>e. 2" "2 ^ 64" "sink_ok p fm" for p fm
proof
  fix n t e t'
  assume ok: "sink_ok p fm n t" and u: "uses p fm e" and e: "training_step e t = Ok t'" and room: "n + 2 < 2 ^ 64"
  obtain ac1 ac2 op where e': "e = ((ac1, ac2), op)" by (metis prod.exhaust)
  have one: "sink_ok p fm (Suc (Suc n)) (record_training_audit_event ac1 ev t1)" if "sink_ok p fm n t1" for t1 ev
  proof -
    have "sink_ok p fm (Suc n) (record_training_audit_event ac1 ev t1)"
      using that u room by (intro sink_ok_event) (simp_all add: uses_def e')
    then show ?thesis by (rule sink_ok_mono) simp
  qed
  show "sink_ok p fm (n + 2) t'"
  proof (cases op)
    case (Start mid cp k)
    with e ok show ?thesis by (auto simp: e' start_round_def Let_def intro!: one)
  next
    case (Gradient mid rnd g)
    with e ok u room show ?thesis by (intro sink_ok_gradient [of p fm n t ac1 ac2 op]) (simp_all add: e')
  next
    case (Complete mid rnd cp loss ah ch)
    with e ok show ?thesis
      by (auto simp: e' complete_round_after_aggregation_def Let_def intro!: one intro: sink_ok_mono [of p fm n]
          split: if_splits option.splits)
  next
    case (Run b)
    with e ok show ?thesis by (auto simp: e' coordinator_start_def coordinator_shutdown_def intro: sink_ok_mono)
  qed
qed


definition sample_call :: audit_call where
  "sample_call = \<lparr>ac_primitives = sample_primitives, ac_formats = sample_formats, ac_json = (\<lambda>_. []), ac_clock = sample_clock,
     ac_append_ok = True\<rparr>"

definition sample_gradient :: pending_gradient where
  "sample_gradient = \<lparr>pg_worker = ''w'', pg_gradient_data_b64 = [], pg_num_samples = 1, pg_gradient_hash = ''h''\<rparr>"

abbreviation sample_ops :: "((audit_call \<times> audit_call) \<times> training_op) list" where
  "sample_ops \<equiv> [((sample_call, sample_call), Start ''m'' ''c1'' 1), ((sample_call, sample_call), Gradient ''m'' 1 sample_gradient),
     ((sample_call, sample_call), Complete ''m'' 1 ''w'' 0 ''w'' ''w'')]"

lemma sample_training_run:
  "\<exists>t. res_fold training_step sample_ops (with_audit_sink ''n'' audit_start) = Ok t \<and>
     tc_events t = [RoundStarted ''m'' 1, GradientReceived ''m'' 1 ''w'', GradientQuorumReached ''m'' 1 1] @ RoundCompleted ''m'' 1 0 # []"
proof -
  have "trim ''w'' \<noteq> []" by code_simp
  then show ?thesis
    by (simp add: with_audit_sink_def coordinator_new_def start_round_def receive_gradient_def complete_round_after_aggregation_def
      Let_def tree_simps required_workers_def sample_gradient_def log_prefix_def str_slice_to_def is_char_boundary_def f64_is_finite_def)
qed

theorem completion_needs_quorum_witness:
  "\<exists>t. res_fold training_step sample_ops (with_audit_sink ''n'' audit_start) = Ok t
     \<and> replay ''m'' [RoundStarted ''m'' 1, GradientReceived ''m'' 1 ''w'', GradientQuorumReached ''m'' 1 1] = (1, [''w''])
     \<and> (\<exists>st. tree_get (tc_models t) ''m'' = Some st \<and> max 1 (ms_min_workers st) \<le> 1)"
proof -
  obtain t where run: "res_fold training_step sample_ops (with_audit_sink ''n'' audit_start) = Ok t"
    and ev: "tc_events t = [RoundStarted ''m'' 1, GradientReceived ''m'' 1 ''w'', GradientQuorumReached ''m'' 1 1] @ RoundCompleted ''m'' 1 0 # []"
    using sample_training_run by blast
  from conjunct2 [OF completion_needs_quorum [OF run], rule_format, OF ev] run show ?thesis by (auto simp: replay_def)
qed


end
