(* ===== verification/LlmGeneration.thy ===== *)
theory LlmGeneration
  imports Poi
begin

text \<open>
  \<^verbatim>\<open>src/src/llm/sampler.rs\<close>, \<^verbatim>\<open>src/src/llm/kv_cache.rs\<close> and \<^verbatim>\<open>src/src/llm/pipeline.rs\<close>: choosing the next token from the logits, the cache of
  keys and values of a stage, and the generation loop. Tensors belong to the candle crate: what the code asks of them is the record
  \<open>tensors\<close>, and the network is the parameter \<open>forward\<close>. The numbers drawn by the generator are arguments; the exponential is the one of
  \<open>maths\<close>.
\<close>

section \<open>Comparing single-precision numbers\<close>

definition f32_is_nan :: "f32 \<Rightarrow> bool" where "f32_is_nan a = (f32_value_of a = Nan)"

definition f32_eq :: "f32 \<Rightarrow> f32 \<Rightarrow> bool" where
  "f32_eq a b = (\<not> f32_is_nan a \<and> \<not> f32_is_nan b \<and> \<not> f32_lt a b \<and> \<not> f32_lt b a)"

definition f32_neg_infinity :: f32 where "f32_neg_infinity = f32_of_value (Inf True)"

definition f32_key :: "f32 \<Rightarrow> int" where
  "f32_key a = (if 2 ^ 31 \<le> unat a then - int (unat a mod 2 ^ 31) else int (unat a))"

text \<open>\<open>partial_cmp(..).unwrap()\<close> panics as soon as a NaN is compared, which every sort or search of two or more elements does.\<close>

definition comparable :: "f32 list \<Rightarrow> bool" where
  "comparable xs = (length xs < 2 \<or> \<not> list_ex f32_is_nan xs)"

section \<open>The sampler\<close>

record sampler_config =
  sc_temperature :: f32
  sc_top_p :: f32
  sc_top_k :: u32
  sc_repetition_penalty :: f32

definition sampler_config_default :: sampler_config where
  "sampler_config_default = \<lparr>sc_temperature = f32_lit (7 / 10), sc_top_p = f32_lit (9 / 10), sc_top_k = 50,
     sc_repetition_penalty = f32_lit (11 / 10)\<rparr>"

record sampler =
  sm_config :: sampler_config
  sm_generated_tokens :: "u32 list"

definition sampler_new :: "sampler_config \<Rightarrow> sampler" where
  "sampler_new cfg = \<lparr>sm_config = cfg, sm_generated_tokens = []\<rparr>"

definition record_token :: "u32 \<Rightarrow> sampler \<Rightarrow> sampler" where
  "record_token t s = s\<lparr>sm_generated_tokens := sm_generated_tokens s @ [t]\<rparr>"

definition sampler_reset :: "sampler \<Rightarrow> sampler" where "sampler_reset s = s\<lparr>sm_generated_tokens := []\<rparr>"

definition penalize :: "f32 \<Rightarrow> u32 list \<Rightarrow> f32 list \<Rightarrow> f32 list" where
  "penalize penalty tokens logits =
     (if f32_eq penalty (f32_lit 1) then logits
      else foldl (\<lambda>ls t. if unat t < length ls
             then ls[unat t := if f32_lt (f32_lit 0) (ls ! unat t) then f32_div (ls ! unat t) penalty else f32_mul (ls ! unat t) penalty]
             else ls) logits tokens)"

text \<open>\<open>Iterator::max_by\<close> keeps the last of several maxima.\<close>

fun arg_max_from :: "nat \<times> f32 \<Rightarrow> nat \<Rightarrow> f32 list \<Rightarrow> nat \<times> f32" where
  "arg_max_from best i [] = best"
| "arg_max_from best i (x # xs) = arg_max_from (if f32_lt x (snd best) then best else (i, x)) (Suc i) xs"

definition greedy_token :: "f32 list \<Rightarrow> nat" where
  "greedy_token logits = (case logits of [] \<Rightarrow> 0 | x # xs \<Rightarrow> fst (arg_max_from (0, x) 1 xs))"

definition by_falling_value :: "f32 list \<Rightarrow> (nat \<times> f32) list" where
  "by_falling_value xs = sort_key (\<lambda>(_, x). - f32_key x) (enumerate 0 xs)"

definition filter_top_k :: "u32 \<Rightarrow> f32 list \<Rightarrow> (f32 list, 'e) res" where
  "filter_top_k k logits =
     (if 0 < k \<and> unat k < length logits then
        if \<not> comparable logits then Panic
        else let threshold = snd (by_falling_value logits ! (unat k - 1))
             in Ok (map (\<lambda>l. if f32_lt l threshold then f32_neg_infinity else l) logits)
      else Ok logits)"

definition softmax :: "maths \<Rightarrow> f32 list \<Rightarrow> f32 list" where
  "softmax mt logits =
     (let max_logit = foldl f32_max f32_neg_infinity logits;
          probs = map (\<lambda>l. mt_exp32 mt (f32_sub l max_logit)) logits;
          whole = f32_sum mt probs
      in map (\<lambda>q. f32_div q whole) probs)"

fun nucleus_cutoff :: "f32 \<Rightarrow> f32 \<Rightarrow> nat \<Rightarrow> (nat \<times> f32) list \<Rightarrow> nat" where
  "nucleus_cutoff top_p cumsum i [] = i"
| "nucleus_cutoff top_p cumsum i ((_, q) # qs) =
     (let c = f32_add cumsum q in if f32_lt top_p c then Suc i else nucleus_cutoff top_p c (Suc i) qs)"

definition filter_top_p :: "maths \<Rightarrow> f32 \<Rightarrow> f32 list \<Rightarrow> (f32 list, 'e) res" where
  "filter_top_p mt top_p probs =
     (if f32_lt top_p (f32_lit 1) then
        if \<not> comparable probs then Panic
        else let indexed = by_falling_value probs;
                 cutoff_idx = nucleus_cutoff top_p (f32_lit 0) 0 indexed;
                 allowed = map fst (take cutoff_idx indexed);
                 kept = map (\<lambda>(i, q). if i \<in> set allowed then q else f32_lit 0) (enumerate 0 probs);
                 whole = f32_sum mt kept
             in Ok (if f32_lt (f32_lit 0) whole then map (\<lambda>q. f32_div q whole) kept else kept)
      else Ok probs)"

text \<open>Without any probability the index wraps around in the release profile.\<close>

fun weighted_from :: "f32 \<Rightarrow> f32 \<Rightarrow> nat \<Rightarrow> f32 list \<Rightarrow> nat option" where
  "weighted_from r cumsum i [] = None"
| "weighted_from r cumsum i (q # qs) =
     (let c = f32_add cumsum q in if f32_lt r c then Some i else weighted_from r c (Suc i) qs)"

definition weighted_sample :: "f32 \<Rightarrow> f32 list \<Rightarrow> u32" where
  "weighted_sample r probs =
     (case weighted_from r (f32_lit 0) 0 probs of Some i \<Rightarrow> of_nat i | None \<Rightarrow> of_nat (length probs) - 1)"

definition sample :: "maths \<Rightarrow> f32 \<Rightarrow> f32 list \<Rightarrow> sampler \<Rightarrow> (u32 \<times> sampler, 'e) res" where
  "sample mt r logits s =
     (let cfg = sm_config s; penalized = penalize (sc_repetition_penalty cfg) (sm_generated_tokens s) logits
      in if f32_eq (sc_temperature cfg) (f32_lit 0) then
           if \<not> comparable penalized then Panic
           else let t = of_nat (greedy_token penalized) in Ok (t, record_token t s)
         else res_bind (filter_top_k (sc_top_k cfg) (map (\<lambda>l. f32_div l (sc_temperature cfg)) penalized)) (\<lambda>ls.
              res_bind (filter_top_p mt (sc_top_p cfg) (softmax mt ls)) (\<lambda>probs.
                let t = weighted_sample r probs in Ok (t, record_token t s))))"

section \<open>The cache of a stage\<close>

datatype llm_error = Layer_out_of_range nat nat | Tensor_error

record 't tensors =
  tn_dim2 :: "'t \<Rightarrow> nat option"
  tn_narrow :: "'t \<Rightarrow> nat \<Rightarrow> 't option"
  tn_logits :: "'t \<Rightarrow> f32 list option"

record 't kv_cache =
  kv_layers :: "('t \<times> 't) option list"
  kv_num_layers :: nat
  kv_seq_len :: nat
  kv_max_seq_len :: nat

definition kv_new :: "nat \<Rightarrow> nat \<Rightarrow> 't kv_cache" where
  "kv_new n max_len = \<lparr>kv_layers = replicate n None, kv_num_layers = n, kv_seq_len = 0, kv_max_seq_len = max_len\<rparr>"

definition kv_get :: "nat \<Rightarrow> 't kv_cache \<Rightarrow> ('t \<times> 't) option" where
  "kv_get i c = (if i < length (kv_layers c) then kv_layers c ! i else None)"

definition kv_set :: "'t tensors \<Rightarrow> nat \<Rightarrow> 't \<times> 't \<Rightarrow> 't kv_cache \<Rightarrow> ('t kv_cache, llm_error) res" where
  "kv_set tn i kv c =
     (if kv_num_layers c \<le> i then Err (Layer_out_of_range i (kv_num_layers c))
      else case tn_dim2 tn (fst kv) of
             None \<Rightarrow> Err Tensor_error
           | Some n \<Rightarrow> Ok (c\<lparr>kv_seq_len := n, kv_layers := (kv_layers c)[i := Some kv]\<rparr>))"

definition update_from_vec :: "'t tensors \<Rightarrow> ('t \<times> 't) list \<Rightarrow> 't kv_cache \<Rightarrow> ('t kv_cache, llm_error) res" where
  "update_from_vec tn kvs c = res_fold (\<lambda>(i, kv). kv_set tn i kv) (enumerate 0 kvs) c"

definition kv_to_vec :: "'t kv_cache \<Rightarrow> ('t \<times> 't) list" where
  "kv_to_vec c = List.map_filter (\<lambda>x. x) (kv_layers c)"

definition kv_is_full :: "'t kv_cache \<Rightarrow> bool" where "kv_is_full c = (kv_max_seq_len c \<le> kv_seq_len c)"

definition kv_is_empty :: "'t kv_cache \<Rightarrow> bool" where "kv_is_empty c = (kv_seq_len c = 0)"

definition kv_clear :: "'t kv_cache \<Rightarrow> 't kv_cache" where
  "kv_clear c = c\<lparr>kv_layers := map (\<lambda>_. None) (kv_layers c), kv_seq_len := 0\<rparr>"

section \<open>Generation\<close>

record inference_result =
  in_generated_tokens :: "u32 list"
  in_generated_text :: string
  in_prompt_tokens :: u32
  in_completion_tokens :: u32
  in_total_time_ms :: u64
  in_tokens_per_second :: f64

type_synonym 't forward = "u32 list \<Rightarrow> ('t \<times> 't) list \<Rightarrow> nat \<Rightarrow> ('t \<times> ('t \<times> 't) list) option"

definition check_stop_sequences :: "u32 list \<Rightarrow> u32 list list \<Rightarrow> bool" where
  "check_stop_sequences generated stops =
     list_ex (\<lambda>stop. length stop \<le> length generated \<and> drop (length generated - length stop) generated = stop) stops"

definition sample_tensor :: "'t tensors \<Rightarrow> maths \<Rightarrow> f32 \<Rightarrow> 't \<Rightarrow> sampler \<Rightarrow> (u32 \<times> sampler, llm_error) res" where
  "sample_tensor tn mt r x s =
     (case tn_logits tn x of None \<Rightarrow> Err Tensor_error | Some logits \<Rightarrow> sample mt r logits s)"

fun decode_loop ::
    "'t tensors \<Rightarrow> maths \<Rightarrow> 't forward \<Rightarrow> (nat \<Rightarrow> f32) \<Rightarrow> u32 \<Rightarrow> u32 list list \<Rightarrow> nat \<Rightarrow> nat \<Rightarrow> u32 list \<Rightarrow> ('t \<times> 't) list \<Rightarrow> sampler
     \<Rightarrow> (u32 list, llm_error) res" where
  "decode_loop tn mt forward draw eos stops 0 offset generated kv s = Ok generated"
| "decode_loop tn mt forward draw eos stops (Suc n) offset generated kv s =
     (case forward [last generated] kv offset of
        None \<Rightarrow> Err Tensor_error
      | Some (logits, kv') \<Rightarrow>
          res_bind (sample_tensor tn mt (draw offset) logits s) (\<lambda>(token, s').
            let generated' = generated @ [token] in
            if token = eos then Ok generated'
            else if check_stop_sequences generated' stops then Ok generated'
            else decode_loop tn mt forward draw eos stops n (Suc offset) generated' kv' s'))"

text \<open>A first token that ends the text gives \<open>1000 / elapsed\<close>, which is the same number.\<close>

definition finished :: "nat \<Rightarrow> u64 \<Rightarrow> u32 list \<Rightarrow> inference_result" where
  "finished prompt_len elapsed generated =
     \<lparr>in_generated_tokens = generated, in_generated_text = [], in_prompt_tokens = of_nat prompt_len,
      in_completion_tokens = of_nat (length generated), in_total_time_ms = elapsed,
      in_tokens_per_second =
        (if elapsed > 0 then f64_div (f64_mul (f64_of_nat (unat (of_nat (length generated) :: u32))) (f64_lit 1000)) (f64_of_u64 elapsed) else 0)\<rparr>"

text \<open>On an empty prompt the position of the last token wraps around; no tensor has it, so \<open>narrow\<close> fails.\<close>

definition run_local ::
    "'t tensors \<Rightarrow> maths \<Rightarrow> 't forward \<Rightarrow> (nat \<Rightarrow> f32) \<Rightarrow> u64 \<Rightarrow> u32 list \<Rightarrow> sampler_config \<Rightarrow> u32 \<Rightarrow> u32 \<Rightarrow> u32 list list
     \<Rightarrow> (inference_result, llm_error) res" where
  "run_local tn mt forward draw elapsed token_ids config max_tokens eos stops =
     (case forward token_ids [] 0 of
        None \<Rightarrow> Err Tensor_error
      | Some (logits, kv) \<Rightarrow>
         (case tn_narrow tn logits (if token_ids = [] then 2 ^ 64 - 1 else length token_ids - 1) of
            None \<Rightarrow> Err Tensor_error
          | Some last_logits \<Rightarrow>
              let s = fold record_token token_ids (sampler_new config) in
              res_bind (sample_tensor tn mt (draw 0) last_logits s) (\<lambda>(first_token, s').
                if first_token = eos then Ok (finished (length token_ids) elapsed [first_token])
                else res_bind (decode_loop tn mt forward draw eos stops (unat (saturating_sub max_tokens 1)) (length token_ids)
                       [first_token] kv s') (\<lambda>generated. Ok (finished (length token_ids) elapsed generated)))))"

definition run_stage ::
    "'t tensors \<Rightarrow> ('t \<Rightarrow> ('t \<times> 't) list \<Rightarrow> nat \<Rightarrow> ('t \<times> ('t \<times> 't) list) option) \<Rightarrow> 't \<Rightarrow> nat \<Rightarrow> 't kv_cache
     \<Rightarrow> ('t \<times> 't kv_cache, llm_error) res" where
  "run_stage tn forward_stage hidden offset c =
     (case forward_stage hidden (kv_to_vec c) offset of
        None \<Rightarrow> Err Tensor_error
      | Some (output, kvs) \<Rightarrow> res_bind (update_from_vec tn kvs c) (\<lambda>c'. Ok (output, c')))"

definition run_final_stage ::
    "'t tensors \<Rightarrow> ('t \<Rightarrow> ('t \<times> 't) list \<Rightarrow> nat \<Rightarrow> ('t \<times> ('t \<times> 't) list) option) \<Rightarrow> ('t \<Rightarrow> 't option) \<Rightarrow> 't \<Rightarrow> nat \<Rightarrow> 't kv_cache
     \<Rightarrow> ('t \<times> 't kv_cache, llm_error) res" where
  "run_final_stage tn forward_stage head hidden offset c =
     res_bind (run_stage tn forward_stage hidden offset c) (\<lambda>(output, c').
       case head output of None \<Rightarrow> Err Tensor_error | Some x \<Rightarrow> Ok (x, c'))"

section \<open>Sampled tokens\<close>

lemma length_penalize: "length (penalize penalty tokens logits) = length logits"
proof -
  have "length (foldl (\<lambda>ls t. if unat t < length ls then ls[unat t := g ls t] else ls) xs tokens) = length xs" for g and xs :: "f32 list"
    by (induction tokens arbitrary: xs) simp_all
  then show ?thesis by (simp add: penalize_def)
qed

lemma length_filter_top_k: "filter_top_k k xs = Ok ys \<Longrightarrow> length ys = length xs"
  by (auto simp: filter_top_k_def Let_def split: if_splits)

lemma length_softmax: "length (softmax mt xs) = length xs"
  by (simp add: softmax_def Let_def)

lemma length_filter_top_p: "filter_top_p mt top_p xs = Ok ys \<Longrightarrow> length ys = length xs"
  by (auto simp: filter_top_p_def Let_def length_enumerate split: if_splits)

lemma weighted_from_range: "weighted_from r c i qs = Some j \<Longrightarrow> i \<le> j \<and> j < i + length qs"
  by (induction r c i qs rule: weighted_from.induct) (fastforce simp: Let_def split: if_splits)+

lemma arg_max_range: "fst best < n \<Longrightarrow> i + length xs \<le> n \<Longrightarrow> fst (arg_max_from best i xs) < n"
  by (induction best i xs rule: arg_max_from.induct) auto

lemma unat_of_nat_u32: "n < 2 ^ 32 \<Longrightarrow> unat (of_nat n :: u32) = n"
  by (simp add: unat_of_nat take_bit_eq_mod)

lemma weighted_sample_range:
  assumes "probs \<noteq> []" "length probs < 2 ^ 32"
  shows "unat (weighted_sample r probs) < length probs"
proof (cases "weighted_from r (f32_lit 0) 0 probs")
  case None
  have "(of_nat (length probs) - 1 :: u32) = of_nat (length probs - 1)" using assms(1) by (cases probs) simp_all
  then show ?thesis using None assms by (simp add: weighted_sample_def unat_of_nat_u32)
next
  case (Some j)
  with weighted_from_range [OF Some] assms(2) show ?thesis by (simp add: weighted_sample_def unat_of_nat_u32)
qed

lemma greedy_token_range: "logits \<noteq> [] \<Longrightarrow> greedy_token logits < length logits"
  using arg_max_range [of "(0, hd logits)" "length logits" 1 "tl logits"] by (cases logits) (simp_all add: greedy_token_def)

lemma sample_range:
  assumes "sample mt r logits s = (Ok (t, s') :: (u32 \<times> sampler, 'e) res)" "logits \<noteq> []" "length logits < 2 ^ 32"
  shows "unat t < length logits" "s' = record_token t s"
proof -
  let ?p = "penalize (sc_repetition_penalty (sm_config s)) (sm_generated_tokens s) logits"
  have p: "length ?p = length logits" by (rule length_penalize)
  with assms(2) have "length ?p \<noteq> 0" by simp
  then have pne: "?p \<noteq> []" by blast
  show "unat t < length logits"
  proof (cases "f32_eq (sc_temperature (sm_config s)) (f32_lit 0)")
    case True
    with assms(1) have "t = of_nat (greedy_token ?p)" by (auto simp: sample_def Let_def split: if_splits)
    with greedy_token_range [OF pne] p assms(3) show ?thesis by (simp add: unat_of_nat_u32)
  next
    case False
    with assms(1) obtain ls probs where l: "filter_top_k (sc_top_k (sm_config s)) (map (\<lambda>l. f32_div l (sc_temperature (sm_config s))) ?p) = (Ok ls :: (f32 list, 'e) res)"
      "filter_top_p mt (sc_top_p (sm_config s)) (softmax mt ls) = (Ok probs :: (f32 list, 'e) res)" "t = weighted_sample r probs"
      by (auto simp: sample_def Let_def res_simps)
    have "length probs = length logits" using length_filter_top_k [OF l(1)] length_filter_top_p [OF l(2)] p by (simp add: length_softmax)
    moreover from this have "probs \<noteq> []" using assms(2) by auto
    ultimately show ?thesis using weighted_sample_range [of probs r] assms(3) l(3) by simp
  qed
  show "s' = record_token t s" using assms(1) by (auto simp: sample_def Let_def res_simps split: if_splits)
qed

text \<open>At temperature zero no logit beats the chosen one.\<close>

lemma not_lt_trans: "\<not> lt_value a b \<Longrightarrow> \<not> lt_value b c \<Longrightarrow> b \<noteq> Nan \<Longrightarrow> a \<noteq> Nan \<Longrightarrow> c \<noteq> Nan \<Longrightarrow> \<not> lt_value a c"
  by (cases a; cases b; cases c) (auto split: if_splits)

lemma arg_max_best:
  assumes "\<not> list_ex f32_is_nan (snd best # xs)"
  shows "\<not> f32_lt (snd (arg_max_from best i xs)) (snd best) \<and> (\<forall>x \<in> set xs. \<not> f32_lt (snd (arg_max_from best i xs)) x) \<and>
     \<not> f32_is_nan (snd (arg_max_from best i xs))"
  using assms
proof (induction best i xs rule: arg_max_from.induct)
  case (1 best i)
  have "\<not> lt_value v v" for v by (cases v) auto
  with 1 show ?case by (simp add: f32_lt_def)
next
  case (2 best i x xs)
  let ?b = "if f32_lt x (snd best) then best else (i, x)" and ?r = "snd (arg_max_from best i (x # xs))"
  have nan: "\<not> list_ex f32_is_nan (snd ?b # xs)" using "2.prems" by auto
  from "2.IH" [OF nan] have ih: "\<not> f32_lt ?r (snd ?b)" "\<forall>y \<in> set xs. \<not> f32_lt ?r y" "\<not> f32_is_nan ?r" by simp_all
  have asym: "lt_value u v \<Longrightarrow> \<not> lt_value v u" for u v by (cases u; cases v) auto
  have "\<not> f32_lt ?r y" if "\<not> f32_lt (snd ?b) y" "\<not> f32_is_nan y" for y
    using not_lt_trans [of "f32_value_of ?r" "f32_value_of (snd ?b)" "f32_value_of y"] ih(1,3) that nan
    by (simp add: f32_lt_def f32_is_nan_def)
  moreover have "\<not> f32_lt (snd ?b) x" "\<not> f32_lt (snd ?b) (snd best)"
    using asym by (auto simp: f32_lt_def)
  ultimately show ?case using ih "2.prems" by (auto simp del: arg_max_from.simps)
qed

section \<open>Cache round trip\<close>

lemma update_layers:
  assumes "i + length kvs \<le> length (kv_layers c)" "kv_num_layers c = length (kv_layers c)" "\<forall>kv \<in> set kvs. tn_dim2 tn (fst kv) \<noteq> None"
  shows "\<exists>c'. res_fold (\<lambda>(i, kv). kv_set tn i kv) (enumerate i kvs) c = Ok c' \<and>
     kv_layers c' = take i (kv_layers c) @ map Some kvs @ drop (i + length kvs) (kv_layers c) \<and> kv_num_layers c' = kv_num_layers c"
  using assms
proof (induction kvs arbitrary: i c)
  case (Cons kv kvs)
  then obtain n where n: "tn_dim2 tn (fst kv) = Some n" by auto
  let ?c = "c\<lparr>kv_seq_len := n, kv_layers := (kv_layers c)[i := Some kv]\<rparr>"
  have s: "kv_set tn i kv c = Ok ?c" using Cons.prems n by (simp add: kv_set_def)
  have "\<exists>c'. res_fold (\<lambda>(i, kv). kv_set tn i kv) (enumerate (Suc i) kvs) ?c = Ok c' \<and>
     kv_layers c' = take (Suc i) (kv_layers ?c) @ map Some kvs @ drop (Suc i + length kvs) (kv_layers ?c) \<and> kv_num_layers c' = kv_num_layers ?c"
    by (rule Cons.IH) (use Cons.prems in simp_all)
  moreover have "take (Suc i) ((kv_layers c)[i := Some kv]) = take i (kv_layers c) @ [Some kv]"
    using Cons.prems(1) by (simp add: take_Suc_conv_app_nth)
  ultimately show ?case using s by auto
qed simp

text \<open>A stage that returns one pair of tensors per layer finds exactly those pairs at the next token.\<close>

lemma cache_round_trip:
  assumes "length kvs = kv_num_layers c" "kv_num_layers c = length (kv_layers c)" "\<forall>kv \<in> set kvs. tn_dim2 tn (fst kv) \<noteq> None"
  shows "\<exists>c'. update_from_vec tn kvs c = Ok c' \<and> kv_to_vec c' = kvs"
proof -
  have "List.map_filter (\<lambda>x. x) (map Some kvs) = kvs" by (induction kvs) (simp_all add: map_filter_simps)
  then show ?thesis using update_layers [of 0 kvs c tn] assms by (auto simp: update_from_vec_def kv_to_vec_def)
qed

section \<open>The generation loop\<close>

definition vocabulary :: "'t tensors \<Rightarrow> nat \<Rightarrow> bool" where
  "vocabulary tn n \<longleftrightarrow> 0 < n \<and> n < 2 ^ 32 \<and> (\<forall>x ls. tn_logits tn x = Some ls \<longrightarrow> length ls = n)"

lemma sample_tensor_range:
  assumes "vocabulary tn n" "sample_tensor tn mt r x s = Ok (t, s')"
  shows "unat t < n"
proof -
  from assms(2) obtain ls where ls: "tn_logits tn x = Some ls" "sample mt r ls s = (Ok (t, s') :: (u32 \<times> sampler, llm_error) res)"
    by (auto simp: sample_tensor_def split: option.splits)
  with assms(1) have n: "length ls = n" "0 < n" "n < 2 ^ 32" by (auto simp: vocabulary_def)
  then have "ls \<noteq> []" by auto
  with sample_range(1) [OF ls(2)] n show ?thesis by simp
qed

text \<open>What the loop adds: at most the given number of tokens, none after an end token or a stop sequence.\<close>

definition extends :: "nat \<Rightarrow> u32 \<Rightarrow> u32 list list \<Rightarrow> nat \<Rightarrow> u32 list \<Rightarrow> u32 list \<Rightarrow> bool" where
  "extends n eos stops v g g' \<longleftrightarrow> (\<exists>ext. g' = g @ ext \<and> length ext \<le> n \<and> (\<forall>t \<in> set ext. unat t < v) \<and> eos \<notin> set (butlast ext) \<and>
     (\<forall>k. 0 < k \<and> k < length ext \<longrightarrow> \<not> check_stop_sequences (g @ take k ext) stops))"

lemma extends_refl: "extends n eos stops v g g"
  by (simp add: extends_def)

lemma extends_one: "unat t < v \<Longrightarrow> extends (Suc n) eos stops v g (g @ [t])"
  unfolding extends_def by (rule exI [of _ "[t]"]) auto

lemma extends_step:
  assumes "extends n eos stops v (g @ [t]) g'" "unat t < v" "t \<noteq> eos" "\<not> check_stop_sequences (g @ [t]) stops"
  shows "extends (Suc n) eos stops v g g'"
proof -
  from assms(1) obtain ext where e: "g' = g @ [t] @ ext" "length ext \<le> n" "\<forall>t \<in> set ext. unat t < v" "eos \<notin> set (butlast ext)"
    "\<forall>k. 0 < k \<and> k < length ext \<longrightarrow> \<not> check_stop_sequences ((g @ [t]) @ take k ext) stops" by (auto simp: extends_def)
  have "\<not> check_stop_sequences (g @ take k (t # ext)) stops" if k: "0 < k" "k < length (t # ext)" for k
  proof (cases k)
    case (Suc j)
    then show ?thesis using e(5) assms(4) k by (cases j) auto
  qed (use k in simp)
  moreover have "eos \<notin> set (butlast (t # ext))" using e(4) assms(3) by auto
  ultimately show ?thesis unfolding extends_def using e(1-3) assms(2) by (intro exI [of _ "t # ext"]) auto
qed

lemma decode_loop_extends:
  assumes "vocabulary tn v"
  shows "decode_loop tn mt forward draw eos stops n offset g kv s = Ok g' \<Longrightarrow> extends n eos stops v g g'"
proof (induction n arbitrary: offset g kv s)
  case (Suc n)
  then obtain x kv' t s' where t: "sample_tensor tn mt (draw offset) x s = Ok (t, s')"
    and r: "(if t = eos then Ok (g @ [t]) else if check_stop_sequences (g @ [t]) stops then Ok (g @ [t])
       else decode_loop tn mt forward draw eos stops n (Suc offset) (g @ [t]) kv' s') = Ok g'"
    by (auto simp: res_simps Let_def split: option.splits)
  note v = sample_tensor_range [OF assms t]
  show ?case
  proof (cases "t = eos \<or> check_stop_sequences (g @ [t]) stops")
    case True
    with r have "g' = g @ [t]" by (auto split: if_splits)
    then show ?thesis using extends_one [OF v] by simp
  next
    case False
    with r have "decode_loop tn mt forward draw eos stops n (Suc offset) (g @ [t]) kv' s' = Ok g'" by simp
    from extends_step [OF Suc.IH [OF this] v] False show ?thesis by simp
  qed
qed (simp add: extends_refl)

text \<open>
  C37. Generation is well behaved: whatever the network computes, a finished run has at least one token and at most the
  requested number (one when zero were requested), every token is in the vocabulary, the end token occurs only as the last one, and
  after the second token the run stops at the first stop sequence.
\<close>

theorem generation_bounded:
  assumes "run_local tn mt forward draw elapsed prompt config max_tokens eos stops = Ok r" "vocabulary tn v"
  shows "\<exists>g. in_generated_tokens r = g \<and> 1 \<le> length g \<and> length g \<le> max 1 (unat max_tokens) \<and> (\<forall>t \<in> set g. unat t < v) \<and>
     eos \<notin> set (butlast g) \<and> (\<forall>k. 1 < k \<and> k < length g \<longrightarrow> \<not> check_stop_sequences (take k g) stops)"
proof -
  from assms(1) obtain x t s s' kv where t: "sample_tensor tn mt (draw 0) x s = Ok (t, s')"
    and r: "(if t = eos then Ok (finished (length prompt) elapsed [t])
      else res_bind (decode_loop tn mt forward draw eos stops (unat (saturating_sub max_tokens 1)) (length prompt) [t] kv s')
        (\<lambda>g. Ok (finished (length prompt) elapsed g))) = Ok r"
    by (auto simp: run_local_def Let_def res_simps split: option.splits)
  have v: "unat t < v" by (rule sample_tensor_range [OF assms(2) t])
  show ?thesis
  proof (cases "t = eos")
    case True
    with r v show ?thesis by (auto simp: finished_def)
  next
    case False
    with r obtain g where g: "decode_loop tn mt forward draw eos stops (unat (saturating_sub max_tokens 1)) (length prompt) [t] kv s' = Ok g"
      "r = finished (length prompt) elapsed g" by (auto simp: res_simps)
    have "unat (saturating_sub max_tokens 1) = unat max_tokens - 1" by (simp add: unat_saturating_sub)
    with decode_loop_extends [OF assms(2) g(1)] obtain ext where e: "g = t # ext" "length ext \<le> unat max_tokens - 1"
      "\<forall>u \<in> set ext. unat u < v" "eos \<notin> set (butlast ext)"
      "\<forall>k. 0 < k \<and> k < length ext \<longrightarrow> \<not> check_stop_sequences (t # take k ext) stops"
      by (auto simp: extends_def)
    have "\<not> check_stop_sequences (take k g) stops" if "1 < k" "k < length g" for k
      using that e(5) [rule_format, of "k - 1"] unfolding e(1) by (cases k) auto
    then show ?thesis using e v False g(2) by (auto simp: finished_def)
  qed
qed

definition sample_tensors :: "unit tensors" where
  "sample_tensors = \<lparr>tn_dim2 = (\<lambda>_. Some 1), tn_narrow = (\<lambda>x _. Some x), tn_logits = (\<lambda>_. Some [0, 0, 0])\<rparr>"

definition greedy_config :: sampler_config where
  "greedy_config = \<lparr>sc_temperature = 0, sc_top_p = 0, sc_top_k = 0, sc_repetition_penalty = 0\<rparr>"

definition sample_forward :: "unit forward" where "sample_forward tokens kv offset = Some ((), kv)"

lemma f32_zero: "f32_value_of 0 = Fin False 0" "f32_lit 0 = 0" "\<not> f32_lt 0 0" "f32_eq 0 0" "\<not> f32_is_nan 0"
  by (simp_all add: f32_value_of_def f32_lit_def f32_rounded_def f32_lt_def f32_eq_def f32_is_nan_def)

lemma sample_generates:
  "run_local sample_tensors sample_maths sample_forward (\<lambda>_. 0) 5 [7] greedy_config 3 2 [] = Ok (finished 1 5 [2])"
  by (simp add: run_local_def sample_forward_def sample_tensors_def sample_tensor_def sample_def Let_def greedy_config_def sampler_new_def
      record_token_def penalize_def f32_zero comparable_def greedy_token_def)

theorem generation_bounded_witness:
  "\<exists>r. run_local sample_tensors sample_maths sample_forward (\<lambda>_. 0) 5 [7] greedy_config 3 2 [] = Ok r \<and>
     1 \<le> length (in_generated_tokens r) \<and> length (in_generated_tokens r) \<le> 3 \<and> (\<forall>t \<in> set (in_generated_tokens r). unat t < 3) \<and>
     2 \<notin> set (butlast (in_generated_tokens r))"
proof -
  have "vocabulary sample_tensors 3" by (simp add: vocabulary_def sample_tensors_def)
  from generation_bounded [OF sample_generates this] sample_generates show ?thesis by auto
qed

text \<open>
  Greedy decoding without penalty never fails by itself: when the network and the tensor operations succeed and give logits without
  NaN, the run returns a result, whatever prompt, limits and stop sequences it was given.
\<close>

lemma greedy_sample_returns:
  assumes "f32_eq (sc_temperature (sm_config s)) (f32_lit 0)" "f32_eq (sc_repetition_penalty (sm_config s)) (f32_lit 1)"
    "\<And>x. \<exists>ls. tn_logits tn x = Some ls \<and> \<not> list_ex f32_is_nan ls"
  shows "\<exists>t. sample_tensor tn mt r x s = Ok (t, record_token t s)"
proof -
  obtain ls where "tn_logits tn x = Some ls" "\<not> list_ex f32_is_nan ls" using assms(3) by blast
  then show ?thesis using assms(1,2) by (simp add: sample_tensor_def sample_def penalize_def comparable_def Let_def)
qed

lemma greedy_loop_returns:
  assumes "f32_eq (sc_temperature (sm_config s)) (f32_lit 0)" "f32_eq (sc_repetition_penalty (sm_config s)) (f32_lit 1)"
    "\<And>x. \<exists>ls. tn_logits tn x = Some ls \<and> \<not> list_ex f32_is_nan ls" "\<And>ts kv k. forward ts kv k \<noteq> None"
  shows "\<exists>g. decode_loop tn mt forward draw eos stops n offset generated kv s = Ok g"
  using assms(1,2)
proof (induction n arbitrary: offset generated kv s)
  case (Suc n)
  obtain x kv' where f: "forward [last generated] kv offset = Some (x, kv')" using assms(4) by (metis option.exhaust surj_pair)
  obtain t where t: "sample_tensor tn mt (draw offset) x s = Ok (t, record_token t s)"
    using greedy_sample_returns [OF Suc.prems assms(3)] by blast
  have "sm_config (record_token t s) = sm_config s" by (simp add: record_token_def)
  with f t Suc.IH [of "record_token t s"] Suc.prems show ?case by (simp add: res_simps Let_def)
qed simp

lemma greedy_generation_returns:
  assumes "f32_eq (sc_temperature config) (f32_lit 0)" "f32_eq (sc_repetition_penalty config) (f32_lit 1)"
    "\<And>x. \<exists>ls. tn_logits tn x = Some ls \<and> \<not> list_ex f32_is_nan ls" "\<And>ts kv k. forward ts kv k \<noteq> None"
    "\<And>x i. tn_narrow tn x i \<noteq> None"
  shows "\<exists>r. run_local tn mt forward draw elapsed prompt config max_tokens eos stops = Ok r"
proof -
  let ?s = "fold record_token prompt (sampler_new config)"
  have keep: "sm_config (fold record_token ts s) = sm_config s" for ts s
    by (induction ts arbitrary: s) (simp_all add: record_token_def)
  have c: "sm_config ?s = config" by (simp add: keep sampler_new_def)
  obtain x kv where f: "forward prompt [] 0 = Some (x, kv)" using assms(4) by (metis option.exhaust surj_pair)
  obtain y where n: "tn_narrow tn x (if prompt = [] then 2 ^ 64 - 1 else length prompt - 1) = Some y" using assms(5) by blast
  obtain t where t: "sample_tensor tn mt (draw 0) y ?s = Ok (t, record_token t ?s)"
    using greedy_sample_returns [of ?s tn mt "draw 0" y] assms(1-3) c by auto
  have "sm_config (record_token t ?s) = config" using c by (simp add: record_token_def)
  then obtain g where "decode_loop tn mt forward draw eos stops (unat (saturating_sub max_tokens 1)) (length prompt) [t] kv
      (record_token t ?s) = Ok g"
    using greedy_loop_returns [of "record_token t ?s" tn forward mt draw eos stops] assms(1-4) by metis
  with f n t show ?thesis by (simp only: run_local_def option.case prod.case Let_def res_simps) (simp add: res_simps)
qed

end
