(* ===== verification/LlmTraining.thy ===== *)
theory LlmTraining
  imports LlmGeneration
begin

text \<open>
  \<^verbatim>\<open>src/src/llm/dataset.rs\<close>, the bookkeeping of \<^verbatim>\<open>src/src/llm/training.rs\<close>, and \<^verbatim>\<open>src/src/llm/federated.rs\<close>: cutting a text into training
  sequences, batches of an epoch, the learning rate, and the averaging of gradients over workers. The tokenizer, the shuffle of the
  random generator and the tensors that hold gradients are parameters; a batch is the list of its rows.
\<close>

section \<open>Training data\<close>

record dataset_shard =
  ds_sequences :: "u32 list list"
  ds_context_length :: nat
  ds_shard_id :: string
  ds_total_tokens :: u64

definition shard_from_text :: "(string \<Rightarrow> u32 list option) \<Rightarrow> string \<Rightarrow> nat \<Rightarrow> string \<Rightarrow> dataset_shard option" where
  "shard_from_text encode txt context_length shard_id =
     (case encode txt of
        None \<Rightarrow> None
      | Some ids \<Rightarrow>
          Some \<lparr>ds_sequences = filter (\<lambda>c. 1 < length c) (slice_chunks (context_length + 1) ids), ds_context_length = context_length,
                ds_shard_id = shard_id, ds_total_tokens = of_nat (length ids)\<rparr>)"

record training_batch =
  tb_input_ids :: "u32 list list"
  tb_target_ids :: "u32 list list"
  tb_num_tokens :: nat

record data_loader =
  dl_shards :: "dataset_shard list"
  dl_batch_size :: nat
  dl_indices :: "(nat \<times> nat) list"
  dl_cursor :: nat

definition all_indices :: "dataset_shard list \<Rightarrow> (nat \<times> nat) list" where
  "all_indices shards = concat (map (\<lambda>(s, shard). map (\<lambda>i. (s, i)) [0..<length (ds_sequences shard)]) (enumerate 0 shards))"

definition loader_shuffle :: "((nat \<times> nat) list \<Rightarrow> (nat \<times> nat) list) \<Rightarrow> data_loader \<Rightarrow> data_loader" where
  "loader_shuffle perm l = l\<lparr>dl_indices := perm (dl_indices l), dl_cursor := 0\<rparr>"

definition loader_new :: "((nat \<times> nat) list \<Rightarrow> (nat \<times> nat) list) \<Rightarrow> dataset_shard list \<Rightarrow> nat \<Rightarrow> data_loader" where
  "loader_new perm shards batch_size =
     loader_shuffle perm \<lparr>dl_shards = shards, dl_batch_size = batch_size, dl_indices = all_indices shards, dl_cursor = 0\<rparr>"

definition sequence_at :: "dataset_shard list \<Rightarrow> nat \<times> nat \<Rightarrow> u32 list" where
  "sequence_at shards si = ds_sequences (shards ! fst si) ! snd si"

definition resized :: "nat \<Rightarrow> u32 list \<Rightarrow> u32 list" where
  "resized n xs = take n xs @ replicate (n - length xs) 0"

definition next_batch :: "data_loader \<Rightarrow> training_batch option \<times> data_loader" where
  "next_batch l =
     (if length (dl_indices l) \<le> dl_cursor l then (None, l)
      else let stop = min (dl_cursor l + dl_batch_size l) (length (dl_indices l));
               seqs = map (sequence_at (dl_shards l)) (take (stop - dl_cursor l) (drop (dl_cursor l) (dl_indices l)));
               max_len = (if seqs = [] then 1 else Max (set (map (\<lambda>s. length s - 1) seqs)))
           in (Some \<lparr>tb_input_ids = map (\<lambda>s. resized max_len (take (length s - 1) s)) seqs,
                     tb_target_ids = map (\<lambda>s. resized max_len (take (length s - 1) (tl s))) seqs,
                     tb_num_tokens = length seqs * max_len\<rparr>,
               l\<lparr>dl_cursor := stop\<rparr>))"

definition loader_total_tokens :: "data_loader \<Rightarrow> u64" where
  "loader_total_tokens l = sum_list (map ds_total_tokens (dl_shards l))"

definition batches_per_epoch :: "data_loader \<Rightarrow> (nat, 'e) res" where
  "batches_per_epoch l =
     (if dl_batch_size l = 0 then Panic else Ok ((length (dl_indices l) + dl_batch_size l - 1) div dl_batch_size l))"

section \<open>Training state\<close>

record training_config =
  tc_learning_rate :: f64
  tc_batch_size :: nat
  tc_gradient_accumulation_steps :: nat
  tc_gradient_clip_norm :: f64
  tc_warmup_steps :: u64
  tc_weight_decay :: f64
  tc_max_steps :: u64

record training_state =
  ts_step :: nat
  ts_epoch :: nat
  ts_total_tokens :: u64
  ts_total_loss :: f64
  ts_best_loss :: f64
  ts_losses :: "f64 list"

definition training_state_new :: training_state where
  "training_state_new = \<lparr>ts_step = 0, ts_epoch = 0, ts_total_tokens = 0, ts_total_loss = 0, ts_best_loss = 0x7FEFFFFFFFFFFFFF,
     ts_losses = []\<rparr>"

definition average_loss :: "maths \<Rightarrow> training_state \<Rightarrow> f64" where
  "average_loss mt st =
     (if ts_losses st = [] then 0 else f64_div (f64_sum mt (ts_losses st)) (f64_of_nat (length (ts_losses st))))"

definition record_loss :: "f64 \<Rightarrow> training_state \<Rightarrow> training_state" where
  "record_loss loss st =
     st\<lparr>ts_total_loss := f64_add (ts_total_loss st) loss, ts_losses := ts_losses st @ [loss],
        ts_best_loss := if f64_lt loss (ts_best_loss st) then loss else ts_best_loss st\<rparr>"

text \<open>The cosine is a parameter; the difference of the step counts wraps when the warm-up is longer than the training.\<close>

definition lr_schedule :: "(f64 \<Rightarrow> f64) \<Rightarrow> f64 \<Rightarrow> u64 \<Rightarrow> training_config \<Rightarrow> f64" where
  "lr_schedule cosine pi64 step cfg =
     (if step < tc_warmup_steps cfg then
        f64_mul (tc_learning_rate cfg) (f64_div (f64_of_u64 step) (f64_of_u64 (tc_warmup_steps cfg)))
      else let progress = f64_div (f64_of_u64 (step - tc_warmup_steps cfg)) (f64_of_u64 (tc_max_steps cfg - tc_warmup_steps cfg));
               decay = f64_mul (f64_lit (1 / 2)) (f64_add (f64_lit 1) (cosine (f64_mul pi64 progress)))
           in f64_mul (tc_learning_rate cfg) (f64_max decay (f64_lit (1 / 100))))"

text \<open>
  \<open>clip_grad_norm\<close> reads and rescales the variables themselves; the square sum and the scaling of a tensor are parameters that may fail.
  A failure while rescaling leaves the variables before it rescaled.
\<close>

fun sum_of_squares :: "('t \<Rightarrow> f64 option) \<Rightarrow> f64 \<Rightarrow> 't list \<Rightarrow> f64 option" where
  "sum_of_squares square_sum acc [] = Some acc"
| "sum_of_squares square_sum acc (v # vs) =
     (case square_sum v of None \<Rightarrow> None | Some q \<Rightarrow> sum_of_squares square_sum (f64_add acc q) vs)"

fun rescale_vars :: "('t \<Rightarrow> 't option) \<Rightarrow> 't list \<Rightarrow> 't list \<times> bool" where
  "rescale_vars scale [] = ([], True)"
| "rescale_vars scale (v # vs) =
     (case scale v of None \<Rightarrow> (v # vs, False) | Some v' \<Rightarrow> (let (vs', ok) = rescale_vars scale vs in (v' # vs', ok)))"

definition clip_grad_norm :: "('t \<Rightarrow> f64 option) \<Rightarrow> (f64 \<Rightarrow> 't \<Rightarrow> 't option) \<Rightarrow> f64 \<Rightarrow> 't list \<Rightarrow> 't list \<times> f64 option" where
  "clip_grad_norm square_sum scale max_norm vs =
     (case sum_of_squares square_sum 0 vs of
        None \<Rightarrow> (vs, None)
      | Some total_norm_sq \<Rightarrow>
          let total_norm = f64_sqrt total_norm_sq in
          if f64_lt max_norm total_norm then
            let (vs', ok) = rescale_vars (scale (f64_div max_norm (f64_add total_norm (f64_lit (1 / 10 ^ 6))))) vs
            in (vs', if ok then Some total_norm else None)
          else (vs, Some total_norm))"

section \<open>Federated averaging\<close>

record federated_config =
  fc_min_workers :: nat
  fc_max_workers :: nat
  fc_dp_noise_scale :: f64
  fc_dp_clip_norm :: f64
  fc_secure_aggregation :: bool
  fc_checkpoint_interval :: u64

record 'g gradient_update =
  gu_worker_address :: string
  gu_gradients :: "'g list"
  gu_num_samples :: nat
  gu_round_id :: u64
  gu_gradient_hash :: string

record 'g federated =
  fd_config :: federated_config
  fd_pending :: "'g gradient_update list"
  fd_current_round :: u64

datatype federated_error = Wrong_round u64 u64 | Too_many_workers | No_gradients | Gradient_tensor_error

record 'g gradient_ops =
  go_zeros_like :: "'g \<Rightarrow> 'g option"
  go_scale :: "f64 \<Rightarrow> 'g \<Rightarrow> 'g option"
  go_add :: "'g \<Rightarrow> 'g \<Rightarrow> 'g option"
  go_elements :: "'g \<Rightarrow> nat"
  go_add_noise :: "f32 list \<Rightarrow> 'g \<Rightarrow> 'g option"

definition federated_new :: "federated_config \<Rightarrow> 'g federated" where
  "federated_new cfg = \<lparr>fd_config = cfg, fd_pending = [], fd_current_round = 0\<rparr>"

definition federated_start_round :: "'g federated \<Rightarrow> u64 \<times> 'g federated" where
  "federated_start_round fd =
     (fd_current_round fd + 1, fd\<lparr>fd_current_round := fd_current_round fd + 1, fd_pending := []\<rparr>)"

definition submit_gradient :: "'g gradient_update \<Rightarrow> 'g federated \<Rightarrow> ('g federated, federated_error) res" where
  "submit_gradient u fd =
     (if gu_round_id u \<noteq> fd_current_round fd then Err (Wrong_round (gu_round_id u) (fd_current_round fd))
      else if fc_max_workers (fd_config fd) \<le> length (fd_pending fd) then Err Too_many_workers
      else Ok (fd\<lparr>fd_pending := fd_pending fd @ [u]\<rparr>))"

definition can_aggregate :: "'g federated \<Rightarrow> bool" where
  "can_aggregate fd = (fc_min_workers (fd_config fd) \<le> length (fd_pending fd))"

definition gaussian :: "maths \<Rightarrow> (f64 \<Rightarrow> f64) \<Rightarrow> f64 \<Rightarrow> f64 \<Rightarrow> f64 \<times> f64 \<Rightarrow> f32" where
  "gaussian mt cosine pi64 scale us =
     (let u1 = f64_max (fst us) (f64_lit (1 / 10 ^ 10));
          z = f64_mul (f64_sqrt (f64_mul (f64_neg (f64_lit 2)) (mt_ln mt u1))) (cosine (f64_mul (f64_mul (f64_lit 2) pi64) (snd us)))
      in f32_of_value (f64_value_of (f64_mul z scale)))"

definition add_dp_noise ::
    "'g gradient_ops \<Rightarrow> maths \<Rightarrow> (f64 \<Rightarrow> f64) \<Rightarrow> f64 \<Rightarrow> f64 \<Rightarrow> (nat \<Rightarrow> f64 \<times> f64) \<Rightarrow> 'g \<Rightarrow> 'g option" where
  "add_dp_noise go mt cosine pi64 scale draw g =
     go_add_noise go (map (\<lambda>i. gaussian mt cosine pi64 scale (draw i)) [0..<go_elements go g]) g"

definition lift_tensor :: "'a option \<Rightarrow> ('a, federated_error) res" where
  "lift_tensor x = (case x of Some a \<Rightarrow> Ok a | None \<Rightarrow> Err Gradient_tensor_error)"

text \<open>A worker that sent fewer gradients than the first one makes the index panic.\<close>

definition add_weighted ::
    "'g gradient_ops \<Rightarrow> nat \<Rightarrow> nat \<Rightarrow> 'g gradient_update \<Rightarrow> 'g \<Rightarrow> ('g, federated_error) res" where
  "add_weighted go total_samples i u acc =
     (let weight = f64_div (f64_of_nat (gu_num_samples u)) (f64_of_nat total_samples)
      in if length (gu_gradients u) \<le> i then Panic
         else res_bind (lift_tensor (go_scale go weight (gu_gradients u ! i))) (\<lambda>g. lift_tensor (go_add go acc g)))"

definition average_param ::
    "'g gradient_ops \<Rightarrow> ('g \<Rightarrow> 'g option) \<Rightarrow> 'g federated \<Rightarrow> nat \<Rightarrow> 'g list \<Rightarrow> ('g list, federated_error) res" where
  "average_param go noise fd i averaged =
     (let total_samples = sum_list (map gu_num_samples (fd_pending fd)) in
      res_bind (lift_tensor (go_zeros_like go (gu_gradients (hd (fd_pending fd)) ! i))) (\<lambda>zero.
      res_bind (res_fold (add_weighted go total_samples i) (fd_pending fd) zero) (\<lambda>acc.
      res_bind (if f64_lt 0 (fc_dp_noise_scale (fd_config fd)) then lift_tensor (noise acc) else Ok acc) (\<lambda>g.
        Ok (averaged @ [g])))))"

definition aggregate ::
    "'g gradient_ops \<Rightarrow> ('g \<Rightarrow> 'g option) \<Rightarrow> 'g federated \<Rightarrow> ('g list, federated_error) res" where
  "aggregate go noise fd =
     (if fd_pending fd = [] then Err No_gradients
      else res_fold (average_param go noise fd) [0..<length (gu_gradients (hd (fd_pending fd)))] [])"

definition should_checkpoint :: "'g federated \<Rightarrow> bool" where
  "should_checkpoint fd = (unat (fc_checkpoint_interval (fd_config fd)) dvd unat (fd_current_round fd))"

section \<open>An epoch\<close>

text \<open>The batches of an epoch: \<open>next_batch\<close> until it returns none.\<close>

fun epoch :: "nat \<Rightarrow> data_loader \<Rightarrow> training_batch list \<times> bool" where
  "epoch 0 l = ([], False)"
| "epoch (Suc n) l =
     (case next_batch l of
        (None, l') \<Rightarrow> ([], True)
      | (Some b, l') \<Rightarrow> (let (bs, done') = epoch n l' in (b # bs, done')))"

text \<open>A row holds a sequence without its last token, its target the sequence without its first, both padded with zeros.\<close>

definition row_of :: "u32 list \<Rightarrow> u32 list \<times> u32 list \<Rightarrow> bool" where
  "row_of sq rows \<longleftrightarrow> length (fst rows) = length (snd rows) \<and>
     take (length sq - 1) (fst rows) = butlast sq \<and> set (drop (length sq - 1) (fst rows)) \<subseteq> {0} \<and>
     take (length sq - 1) (snd rows) = tl sq \<and> set (drop (length sq - 1) (snd rows)) \<subseteq> {0}"

definition batch_rows :: "training_batch \<Rightarrow> (u32 list \<times> u32 list) list" where
  "batch_rows b = zip (tb_input_ids b) (tb_target_ids b)"

lemma resized_row:
  assumes "length s - 1 \<le> n"
  shows "row_of s (resized n (take (length s - 1) s), resized n (take (length s - 1) (tl s)))"
proof -
  have "take (length s - 1) s = butlast s" "take (length s - 1) (tl s) = tl s" by (simp_all add: butlast_conv_take)
  then show ?thesis using assms by (auto simp: row_of_def resized_def set_replicate_conv_if split: if_splits)
qed

lemma next_batch_rows:
  assumes "next_batch l = (Some b, l')"
  defines "todo \<equiv> drop (dl_cursor l) (dl_indices l)"
  shows "list_all2 row_of (map (sequence_at (dl_shards l)) (take (dl_batch_size l) todo)) (batch_rows b)"
    "drop (dl_cursor l') (dl_indices l') = drop (dl_batch_size l) todo" "todo \<noteq> []"
    "dl_shards l' = dl_shards l" "dl_batch_size l' = dl_batch_size l"
proof -
  define stop where "stop = min (dl_cursor l + dl_batch_size l) (length (dl_indices l))"
  have c: "dl_cursor l < length (dl_indices l)" using assms(1) by (simp add: next_batch_def split: if_splits)
  then show "todo \<noteq> []" by (simp add: todo_def)
  have tk: "take (stop - dl_cursor l) todo = take (dl_batch_size l) todo"
    using c by (cases "dl_cursor l + dl_batch_size l \<le> length (dl_indices l)") (simp_all add: stop_def todo_def)
  define seqs where "seqs = map (sequence_at (dl_shards l)) (take (dl_batch_size l) todo)"
  define m where "m = (if seqs = [] then 1 else Max (set (map (\<lambda>s. length s - 1) seqs)))"
  have "next_batch l = (Some \<lparr>tb_input_ids = map (\<lambda>s. resized m (take (length s - 1) s)) seqs,
      tb_target_ids = map (\<lambda>s. resized m (take (length s - 1) (tl s))) seqs, tb_num_tokens = length seqs * m\<rparr>,
      l\<lparr>dl_cursor := stop\<rparr>)"
    unfolding next_batch_def Let_def m_def seqs_def stop_def [symmetric] todo_def [symmetric] tk using c by (simp only: not_le [symmetric] if_False)
  then have b: "b = \<lparr>tb_input_ids = map (\<lambda>s. resized m (take (length s - 1) s)) seqs,
      tb_target_ids = map (\<lambda>s. resized m (take (length s - 1) (tl s))) seqs, tb_num_tokens = length seqs * m\<rparr>"
    and l': "l' = l\<lparr>dl_cursor := stop\<rparr>" using assms(1) by (simp_all only: prod.inject option.inject)
  show "dl_shards l' = dl_shards l" "dl_batch_size l' = dl_batch_size l" using l' by simp_all
  show "drop (dl_cursor l') (dl_indices l') = drop (dl_batch_size l) todo"
    using c by (cases "dl_cursor l + dl_batch_size l \<le> length (dl_indices l)") (simp_all add: l' stop_def todo_def add.commute)
  have "row_of s (resized m (take (length s - 1) s), resized m (take (length s - 1) (tl s)))" if "s \<in> set seqs" for s
  proof (rule resized_row)
    have "seqs \<noteq> []" using that by auto
    then show "length s - 1 \<le> m" using that by (simp add: m_def)
  qed
  moreover have "batch_rows b = map (\<lambda>s. (resized m (take (length s - 1) s), resized m (take (length s - 1) (tl s)))) seqs"
    by (simp add: batch_rows_def b zip_map_map zip_same_conv_map)
  ultimately show "list_all2 row_of (map (sequence_at (dl_shards l)) (take (dl_batch_size l) todo)) (batch_rows b)"
    by (simp add: seqs_def [symmetric] list_all2_conv_all_nth)
qed

lemma epoch_rows:
  assumes "0 < dl_batch_size l" "length (drop (dl_cursor l) (dl_indices l)) \<le> dl_batch_size l * n"
  shows "\<exists>bs. epoch (Suc n) l = (bs, True) \<and> length bs \<le> n \<and>
     list_all2 row_of (map (sequence_at (dl_shards l)) (drop (dl_cursor l) (dl_indices l))) (concat (map batch_rows bs))"
  using assms
proof (induction n arbitrary: l)
  case 0
  then have "next_batch l = (None, l)" by (simp add: next_batch_def)
  with 0 show ?case by simp
next
  case (Suc n)
  show ?case
  proof (cases "next_batch l")
    case (Pair ob l')
    show ?thesis
    proof (cases ob)
      case None
      then have "length (dl_indices l) \<le> dl_cursor l" using Pair by (simp add: next_batch_def Let_def split: if_splits)
      with Pair None show ?thesis by simp
    next
      case (Some b)
      note nb = next_batch_rows [OF Pair [unfolded Some]]
      have "length (drop (dl_cursor l') (dl_indices l')) \<le> dl_batch_size l' * n" using Suc.prems(2) by (simp add: nb(2,5))
      with Suc.IH [of l'] Suc.prems(1) nb(5) obtain bs where bs: "epoch (Suc n) l' = (bs, True)" "length bs \<le> n"
        "list_all2 row_of (map (sequence_at (dl_shards l)) (drop (dl_batch_size l) (drop (dl_cursor l) (dl_indices l)))) (concat (map batch_rows bs))"
        by (auto simp del: epoch.simps simp: nb(2,4))
      have "epoch (Suc (Suc n)) l = (b # bs, True)" using Pair Some bs(1) by (simp only: epoch.simps) simp
      moreover have "list_all2 row_of (map (sequence_at (dl_shards l)) (drop (dl_cursor l) (dl_indices l))) (batch_rows b @ concat (map batch_rows bs))"
        using list_all2_appendI [OF nb(1) bs(3)] by (simp only: map_append [symmetric] append_take_drop_id)
      ultimately show ?thesis using bs(2) by auto
    qed
  qed
qed

lemma all_sequences_from:
  assumes "\<And>i. i < length shards \<Longrightarrow> all ! (k + i) = shards ! i"
  shows "map (sequence_at all) (concat (map (\<lambda>(s, shard). map (\<lambda>i. (s, i)) [0..<length (ds_sequences shard)]) (enumerate k shards)))
    = concat (map ds_sequences shards)"
  using assms
proof (induction shards arbitrary: k)
  case (Cons shard shards)
  have "all ! k = shard" using Cons.prems [of 0] by simp
  moreover have "all ! (Suc k + i) = shards ! i" if "i < length shards" for i using Cons.prems [of "Suc i"] that by simp
  ultimately show ?case using Cons.IH [of "Suc k"] by (simp add: sequence_at_def comp_def map_nth)
qed simp

lemma all_sequences: "map (sequence_at shards) (all_indices shards) = concat (map ds_sequences shards)"
  unfolding all_indices_def by (rule all_sequences_from) simp

lemma shuffled_sequences:
  assumes "mset (perm (all_indices shards)) = mset (all_indices shards)"
  shows "mset (map (sequence_at shards) (perm (all_indices shards))) = mset (concat (map ds_sequences shards))"
  by (metis assms mset_map all_sequences)

lemma loader_new_state [simp]:
  "dl_cursor (loader_new perm shards n) = 0" "dl_indices (loader_new perm shards n) = perm (all_indices shards)"
  "dl_shards (loader_new perm shards n) = shards" "dl_batch_size (loader_new perm shards n) = n"
  by (simp_all add: loader_new_def loader_shuffle_def)

lemma batches_enough: "0 < n \<Longrightarrow> k \<le> n * ((k + n - 1) div n)" for k n :: nat
  using mult_div_mod_eq [of n "k + n - 1"] pos_mod_bound [of "int n" "int (k + n - 1)"] mod_less_divisor [of n "k + n - 1"]
  by linarith

text \<open>
  C36. An epoch covers the training data: with any shuffle that permutes its input, the loader hands out at most \<open>batches_per_epoch\<close>
  batches and then reports the end of the epoch, and their rows, taken in order, are the sequences of the shards in some order, each
  exactly once, the input being the sequence without its last token, the target the sequence shifted by one, and only zeros after them.
\<close>

theorem epoch_covers_data:
  assumes "\<And>xs. mset (perm xs) = mset xs" "0 < batch_size"
  shows "\<exists>n bs sqs. batches_per_epoch (loader_new perm shards batch_size) = (Ok n :: (_, unit) res) \<and>
     epoch (Suc n) (loader_new perm shards batch_size) = (bs, True) \<and> length bs \<le> n \<and>
     mset sqs = mset (concat (map ds_sequences shards)) \<and> list_all2 row_of sqs (concat (map batch_rows bs))"
proof -
  define l where "l = loader_new perm shards batch_size"
  let ?n = "(length (dl_indices l) + batch_size - 1) div batch_size"
  have "batches_per_epoch l = (Ok ?n :: (_, unit) res)" using assms(2) by (simp add: batches_per_epoch_def l_def)
  moreover have "length (drop (dl_cursor l) (dl_indices l)) \<le> dl_batch_size l * ?n"
    using batches_enough [OF assms(2)] by (simp add: l_def)
  then obtain bs where "epoch (Suc ?n) l = (bs, True)" "length bs \<le> ?n"
    "list_all2 row_of (map (sequence_at shards) (perm (all_indices shards))) (concat (map batch_rows bs))"
    using epoch_rows [of l ?n] assms(2) by (auto simp: l_def simp del: epoch.simps)
  ultimately show ?thesis using shuffled_sequences [of perm shards, OF assms(1)] unfolding l_def by blast
qed

definition sample_shards :: "dataset_shard list" where
  "sample_shards = [\<lparr>ds_sequences = [[1, 2, 3], [4, 5]], ds_context_length = 2, ds_shard_id = ''a'', ds_total_tokens = 5\<rparr>,
     \<lparr>ds_sequences = [[6, 7, 8]], ds_context_length = 2, ds_shard_id = ''b'', ds_total_tokens = 3\<rparr>]"

theorem epoch_covers_data_witness:
  "\<exists>n bs sqs. batches_per_epoch (loader_new rev sample_shards 2) = (Ok n :: (_, unit) res) \<and>
     epoch (Suc n) (loader_new rev sample_shards 2) = (bs, True) \<and> length bs \<le> n \<and>
     mset sqs = {#[1, 2, 3], [4, 5], [6, 7, 8]#} \<and> list_all2 row_of sqs (concat (map batch_rows bs))"
proof -
  have "mset (concat (map ds_sequences sample_shards)) = {#[1, 2, 3], [4, 5], [6, 7, 8]#}" by (simp add: sample_shards_def)
  then show ?thesis using epoch_covers_data [of rev 2 sample_shards] by simp
qed

section \<open>Clipping\<close>

lemma sum_of_squares_total:
  "(\<And>v. v \<in> set vs \<Longrightarrow> square_sum v = Some (q v)) \<Longrightarrow> sum_of_squares square_sum acc vs = Some (fold (\<lambda>v a. f64_add a (q v)) vs acc)"
  by (induction vs arbitrary: acc) auto

lemma rescale_vars_total: "(\<And>v. v \<in> set vs \<Longrightarrow> scale v = Some (f v)) \<Longrightarrow> rescale_vars scale vs = (map f vs, True)"
  by (induction vs) auto

text \<open>When no tensor operation fails, every variable is multiplied by the same factor, or none is, and the norm before that is returned.\<close>

lemma clip_grad_norm_result:
  assumes "\<And>v. v \<in> set vs \<Longrightarrow> square_sum v = Some (q v)" "\<And>c v. v \<in> set vs \<Longrightarrow> scale c v = Some (times c v)"
  defines "norm_before \<equiv> f64_sqrt (fold (\<lambda>v a. f64_add a (q v)) vs 0)"
  shows "clip_grad_norm square_sum scale max_norm vs =
     (if f64_lt max_norm norm_before then map (times (f64_div max_norm (f64_add norm_before (f64_lit (1 / 10 ^ 6))))) vs else vs,
      Some norm_before)"
proof -
  let ?c = "f64_div max_norm (f64_add norm_before (f64_lit (1 / 10 ^ 6)))"
  have "rescale_vars (scale ?c) vs = (map (times ?c) vs, True)" by (rule rescale_vars_total) (rule assms(2))
  moreover have "sum_of_squares square_sum 0 vs = Some (fold (\<lambda>v a. f64_add a (q v)) vs 0)"
    by (rule sum_of_squares_total) (rule assms(1))
  ultimately show ?thesis by (simp only: clip_grad_norm_def norm_before_def option.case Let_def) simp
qed

section \<open>Rounds\<close>

text \<open>The updates of a round: the coordinator after any sequence of submissions, the refused ones leaving it as it was.\<close>

definition submit_all :: "'g gradient_update list \<Rightarrow> 'g federated \<Rightarrow> 'g federated" where
  "submit_all us fd = fold (\<lambda>u fd. case submit_gradient u fd of Ok fd' \<Rightarrow> fd' | _ \<Rightarrow> fd) us fd"

lemma submit_all_pending:
  "fd_pending (submit_all us fd) = fd_pending fd @
     take (fc_max_workers (fd_config fd) - length (fd_pending fd)) (filter (\<lambda>u. gu_round_id u = fd_current_round fd) us)"
proof (induction us arbitrary: fd)
  case (Cons u us)
  show ?case
  proof (cases "gu_round_id u = fd_current_round fd \<and> length (fd_pending fd) < fc_max_workers (fd_config fd)")
    case True
    then have "submit_all (u # us) fd = submit_all us (fd\<lparr>fd_pending := fd_pending fd @ [u]\<rparr>)"
      by (simp add: submit_all_def submit_gradient_def)
    moreover obtain k where "fc_max_workers (fd_config fd) - length (fd_pending fd) = Suc k"
        "fc_max_workers (fd_config fd) - Suc (length (fd_pending fd)) = k"
      using True by (metis Suc_diff_Suc)
    ultimately show ?thesis using True by (simp add: Cons.IH)
  next
    case False
    then have "submit_all (u # us) fd = submit_all us fd" by (auto simp: submit_all_def submit_gradient_def not_less)
    with False show ?thesis by (auto simp: Cons.IH not_less)
  qed
qed (simp add: submit_all_def)

text \<open>A round takes the first updates that name it, up to the limit; updates of other rounds are never averaged.\<close>

lemma round_takes_first_updates:
  assumes "federated_start_round fd = (r, fd')"
  shows "fd_pending (submit_all us fd') = take (fc_max_workers (fd_config fd)) (filter (\<lambda>u. gu_round_id u = r) us)"
  using assms by (auto simp: submit_all_pending federated_start_round_def)

text \<open>A later update with fewer gradients than the first one stops the coordinator.\<close>

lemma add_weighted_short: "length (gu_gradients u) \<le> i \<Longrightarrow> add_weighted go t i u acc = Panic"
  by (simp add: add_weighted_def)

end
