(* ===== verification/Spec2Isabelle.thy ===== *)
theory Spec2Isabelle
  imports Transfers OpenClaw ComputeAgent RecordsKeeper InferenceRouter ToolProps StorageKeeper P2pSync Connections Memory RateLimit SecureRelay TrainingCoordinator LlmTraining
begin

text \<open>
  The Arobi network node (\<^verbatim>\<open>src/src/\<close>, Rust): a blockchain node with a hash-chained audit ledger, a content-addressed file
  store, a compute marketplace, federated training, text generation, tools for agents and an HTTP interface, as one process per machine.

  \<^bold>\<open>The parts and how they meet.\<close> Clients reach the node through the HTTP interface (\<open>api.rs\<close>), behind the rate limiter
  (\<open>rate_limit.rs\<close>) and the access gate (\<open>enforce_api_access\<close>). Transfers go to the mempool (\<open>mempool.rs\<close>); the block producer
  (\<open>consensus.rs\<close>) takes the best-paying ones, adds the reward and applies the block to the chain store (\<open>store.rs\<close>). Peers
  (\<open>p2p.rs\<close>, \<open>peer.rs\<close>) gossip transactions, blocks, files, jobs, relay envelopes and training events; one arm of \<open>handle_msg\<close>
  per message changes the same chain, mempool, chunk store, routing table, scheduler, registry and agent trees. Decisions of the
  API and of the training agent are recorded in the audit ledger (\<open>audit/ledger.rs\<close>), whose entries are appended to a durable
  tree and leave through the tribunal and training exports. A block carries a proof of intelligence (\<open>poi.rs\<close>) whose score weighs the
  reputation of workers (\<open>reputation.rs\<close>); background agents (\<open>agents/\<close>) check storage, run jobs, watch transactions, train models and run
  the tools that the orchestration endpoint offers.

  \<^bold>\<open>Theories and what they model.\<close> One theory per component, in the order the code depends on itself.
    \<^item> \<open>Prelude\<close>: result values with panics, sled trees and hash maps as key-value containers (locale \<open>kv_container\<close>), sums over
      maps, comparison of floats on their bits. \<open>Float64\<close> and \<open>FloatArith\<close>: the values of IEEE-754 bit patterns, correctly rounded
      arithmetic on 64 and 32 bits, and a kit for intervals (\<open>f64_in\<close>). \<open>RustStr\<close>: the string operations of the standard library on UTF-8 bytes. \<open>Machine\<close>: the locales
      \<open>weighted_machine\<close>, \<open>machine\<close> and \<open>potential\<close> for components driven by events.
    \<^item> \<open>Crypto\<close> (\<open>crypto.rs\<close>), \<open>Config\<close> (\<open>config.rs\<close>), \<open>Block\<close> (\<open>block.rs\<close>), \<open>ChainStore\<close> (the chain trees of \<open>store.rs\<close>,
      \<open>apply_block\<close>), \<open>Mempool\<close>, \<open>Consensus\<close>; \<open>BalanceBook\<close> is the locale of a ledger of balances that \<open>ChainLedger\<close>
      interprets on the store, \<open>ChainProps\<close> the properties of runs of blocks and the integer specification \<open>abs_tx\<close>.
    \<^item> \<open>Poi\<close> (\<open>poi.rs\<close>: challenges, the eight solvers and validators, scores), \<open>PoiChain\<close> (\<open>Block::validate\<close> and the producer with its
      real proof), \<open>Reputation\<close> (\<open>reputation.rs\<close>).
    \<^item> \<open>AuditLane\<close>, \<open>AuditEntry\<close>, \<open>Encoding\<close> (locale \<open>encoder\<close>, interpreted on every field encoder), \<open>AuditLedger\<close>, \<open>AuditRun\<close>
      (interleaved handlers as an inductive relation), \<open>AuditExport\<close>: \<open>audit/ledger.rs\<close> with the durable tree of \<open>store.rs\<close> and
      \<open>audit_record\<close> of \<open>api.rs\<close>.
    \<^item> \<open>ArobiFs\<close> (\<open>fs/types.rs\<close>, \<open>fs/chunker.rs\<close>, \<open>fs/local_store.rs\<close>), \<open>FileTransfer\<close> (upload and download handlers, model
      checkpoints), \<open>FsProof\<close> (\<open>fs/proof.rs\<close>), \<open>Dht\<close> (\<open>fs/dht.rs\<close>), \<open>StorageKeeper\<close> (\<open>agents/storage_keeper.rs\<close>).
    \<^item> \<open>Scheduler\<close> (\<open>compute/types.rs\<close>, \<open>compute/scheduler.rs\<close>), \<open>ComputeAgent\<close> (\<open>compute/sandbox.rs\<close>,
      \<open>agents/compute_scheduler.rs\<close>), \<open>Registry\<close> (\<open>llm/registry.rs\<close>), \<open>TrainingCoordinator\<close> (\<open>agents/training_coordinator.rs\<close>),
      \<open>RecordsKeeper\<close> (\<open>agents/records_keeper.rs\<close>, \<open>security.rs\<close>), \<open>InferenceRouter\<close> (\<open>agents/inference_router.rs\<close>).
    \<^item> \<open>LlmGeneration\<close> (\<open>llm/sampler.rs\<close>, \<open>llm/kv_cache.rs\<close>, \<open>llm/pipeline.rs\<close>), \<open>LlmTraining\<close> (\<open>llm/dataset.rs\<close>, \<open>llm/training.rs\<close>,
      \<open>llm/federated.rs\<close>).
    \<^item> \<open>ToolPolicy\<close>, \<open>Csv\<close>, \<open>ToolExecutor\<close>, \<open>ToolApi\<close>, \<open>ToolProps\<close>: the runtime policy, the tools of \<open>agents/tool_executor.rs\<close> with the
      processes and requests they cause as a log of effects, and the tool endpoints of \<open>api.rs\<close>.
    \<^item> \<open>Endpoint\<close> (\<open>peer.rs\<close>), \<open>PeerBook\<close> (peer records of \<open>store.rs\<close>), \<open>Connections\<close> (dialling and connected peers of
      \<open>p2p.rs\<close>), \<open>P2p\<close> (every arm of \<open>handle_msg\<close> and the read loop), \<open>P2pSync\<close> (two nodes catching up).
    \<^item> \<open>AgentStore\<close> (the agent trees of \<open>store.rs\<close>), \<open>Access\<close>, \<open>Memory\<close>, \<open>SecureRelay\<close> (the access gate, pairing, encrypted
      memory and signed relay of \<open>api.rs\<close>), \<open>Transfers\<close> (submitted and node-signed transfers, treasury, amounts), \<open>OpenClaw\<close> (employee
      bindings), \<open>RateLimit\<close>.

  \<^bold>\<open>How code becomes definitions.\<close> A struct is a record, an enum a datatype, a handler a function from its state and inputs to a
  \<open>res\<close>: \<open>Ok\<close> with the new state, \<open>Err\<close> with the error, or \<open>Panic\<close> where the code panics (a slice off a character boundary, an index
  out of range). Integers keep their width and wrap as in the release profile; strings are their UTF-8 bytes; floats are their
  bits, and every sum, product, quotient, root and conversion rounds as IEEE-754 says. A sled tree is a sorted association list, a hash map an association list whose iteration order is an
  argument. A section under one lock is one step, and interleavings are sequences of steps.

  \<^bold>\<open>What the lemmas show.\<close>
    \<^item> Chain: accepted blocks stay linked, conserve value unless they mint, implement the integer specification, and never accept a
      transaction twice; the producer makes progress; the places where 64-bit sums wrap and where \<open>GENESIS\<close> transactions mint are
      stated as they are.
    \<^item> Audit: entries cannot be changed without a hash collision, a restart rebuilds the ledger, migration is sound and complete,
      exports hold exactly what the lane policy permits, redacted.
    \<^item> Proofs of intelligence: an honest proof verifies, and with it the produced block; an accepted score lies in its range or is a NaN;
      what a cheap claim gets away with is stated too. Reputation stays between 0 and 100 whatever is recorded.
    \<^item> Files: upload and download are inverse up to collisions, storage proofs bind the challenged bytes, routing tables are well formed.
    \<^item> Network: any sequence of peer messages keeps the invariants of all components at once; synchronisation terminates; dialling
      backs off; dialled addresses are public or configured.
    \<^item> API: remote writes need the token, pairing grants exactly what was registered, stored memories are recalled unchanged, relayed
      envelopes are authentic, the limiter bounds what one client is granted.
    \<^item> Work: a job completes by majority among assigned workers, a training round after a quorum, a pipeline is routed when it is ready;
      two nodes compute the same result of a task; the records keeper keeps up within its bounds.
    \<^item> Language models: generation stops within its limit with tokens of the vocabulary and, greedy, never fails by itself; an epoch visits
      every sequence once; a federated round averages the first updates that name it.
    \<^item> Tools: every process an orchestration starts is confined by the runtime policy.

  \<^bold>\<open>Interfaces.\<close> \<open>kv_container\<close> is interpreted on the container that stands for sled trees and hash maps; \<open>balance_book\<close> on the chain store; \<open>encoder\<close> on the
  encoders of the audit hash; \<open>weighted_machine\<close> on the read loop of a connection, audited training, employee
  binding, reputation and the records keeper, \<open>machine\<close> on the training
  coordinator, \<open>potential\<close> on the limiter. The properties rest on the facts these interpretations give.

  \<^bold>\<open>Parameters.\<close> Code of other crates is an argument: hash functions, the hexadecimal codec and Ed25519 (record \<open>primitives\<close>),
  Reed-Solomon, base64, compression, the JSON printer and parser, the date parser and formatter, the rendering of numbers and errors
  (\<open>texts\<close>), the serialisation of challenges and solutions (\<open>poi_codec\<close>), logarithm, power, exponential and cosine (\<open>maths\<close>), tensors and the
  forward pass (\<open>tensors\<close>, \<open>forward\<close>, \<open>gradient_ops\<close>), the tokenizer, and the operating system below the tools (\<open>host\<close>). So are inputs:
  clocks, random draws (\<open>rng\<close>), shuffles, iteration orders, environment variables and outcomes of appends. \<open>Consensus\<close> takes the outcome of proof
  generation as an argument, and \<open>PoiChain\<close> supplies the code's own.
  What a theorem needs of them is a named hypothesis, and its witness instantiates it.

  \<^bold>\<open>Bounds.\<close> Loops are structural recursion, folds, or functions with a termination proof. Only \<open>epoch\<close>, which repeats
  \<open>next_batch\<close>, counts its calls; one call more than the announced number of batches is proved to be enough. Bounds in
  statements are those of the code's types (a counter below \<open>2 ^ 64\<close>, a length that fits in \<open>usize\<close>).

  \<^bold>\<open>Not modelled.\<close> Failures of the disk and stored values that do not decode; transport (sockets, HTTP framing, channels' capacity);
  log lines, except where they panic. The layers of the transformer, the stages, tensor files and the cross-entropy loss
  (\<open>llm/architecture.rs\<close>, \<open>llm/stage.rs\<close>, \<open>llm/tensor_io.rs\<close>) are chains of calls of the candle crate, and \<open>llm/tokenizer.rs\<close> calls the
  tokenizers crate: none has logic of its own to state. The command line and start-up (\<open>node.rs\<close>, \<open>main.rs\<close>), the agent manager, the web
  crawler, the chat proxy and the handlers that only read components and render JSON are left out.
\<close>

end
